(* ===== verification/Ril_Prelude.thy ===== *)
theory Ril_Prelude
  imports Main "HOL-Library.Word" "HOL-Library.Multiset" "HOL-Library.Monad_Syntax"
begin

text \<open>
  Shared vocabulary of the development: the fixed-width integer types of
  \<^verbatim>\<open>sitril/base/types.h\<close>, the conversion of a mathematical integer to a C
  \<^verbatim>\<open>int\<close>, bounds-checked array access, and the lemmas on lists, options and
  words that the component theories use.

  Memory errors.  A C++ read or write outside an array has no defined result.  Operations that
  touch raw arrays therefore return an \<open>option\<close>: \<open>None\<close> stands for an access out
  of bounds, \<open>Some\<close> for a run in which every access was inside its array.  Return codes of the
  source (0, -1, lengths) stay ordinary integers inside the \<open>Some\<close>.
\<close>

unbundle bit_operations_syntax

named_theorems ril_simps \<open>characteristic equations of the modelled operations\<close>
named_theorems ril_inv \<open>preservation of the component invariants\<close>

section \<open>Machine integers\<close>

type_synonym u8 = "8 word"
type_synonym u16 = "16 word"
type_synonym u32 = "32 word"

text \<open>Conversion of a wider signed value to a 32-bit C \<^verbatim>\<open>int\<close>.\<close>

definition to_int32 :: "int \<Rightarrow> int" where
  "to_int32 x = (x + 2 ^ 31) mod 2 ^ 32 - 2 ^ 31"

lemma to_int32_id: "- (2 ^ 31) \<le> x \<Longrightarrow> x < 2 ^ 31 \<Longrightarrow> to_int32 x = x"
  by (simp add: to_int32_def)

lemma to_int32_range: "- (2 ^ 31) \<le> to_int32 x \<and> to_int32 x < 2 ^ 31"
proof -
  have "0 \<le> (x + 2 ^ 31) mod 2 ^ 32" and "(x + 2 ^ 31) mod 2 ^ 32 < 2 ^ 32"
    by simp_all
  then show ?thesis
    unfolding to_int32_def by simp
qed

text \<open>Positions in an octet and in a 16-bit unit, and octets that agree bit by bit.\<close>

lemma u8_cases: "n < 8 \<Longrightarrow> n = 7 \<or> n = 6 \<or> n = 5 \<or> n = 4 \<or> n = 3 \<or> n = 2 \<or> n = 1 \<or> n = (0::nat)"
  by presburger

lemma u16_cases: "n < 16 \<Longrightarrow> n = 15 \<or> n = 14 \<or> n = 13 \<or> n = 12 \<or> n = 11 \<or> n = 10 \<or> n = 9 \<or> n = 8 \<or>
  n = 7 \<or> n = 6 \<or> n = 5 \<or> n = 4 \<or> n = 3 \<or> n = 2 \<or> n = 1 \<or> n = (0::nat)"
  by presburger

lemma byte_eqI:
  fixes x y :: u8
  assumes "bit x 0 = bit y 0" and "bit x 1 = bit y 1" and "bit x 2 = bit y 2" and "bit x 3 = bit y 3"
    and "bit x 4 = bit y 4" and "bit x 5 = bit y 5" and "bit x 6 = bit y 6" and "bit x 7 = bit y 7"
  shows "x = y"
proof (rule bit_word_eqI)
  fix n assume "n < LENGTH(8)"
  then have "n < 8" by simp
  from u8_cases [OF this] show "bit x n = bit y n" using assms by blast
qed

section \<open>Bounds-checked arrays\<close>

definition arr_get :: "'a list \<Rightarrow> nat \<Rightarrow> 'a option" where
  "arr_get xs i = (if i < length xs then Some (xs ! i) else None)"

definition arr_set :: "'a list \<Rightarrow> nat \<Rightarrow> 'a \<Rightarrow> 'a list option" where
  "arr_set xs i v = (if i < length xs then Some (xs[i := v]) else None)"

text \<open>\<^verbatim>\<open>memcpy(&xs[i], vs, n)\<close> with \<open>vs\<close> of exactly \<open>n\<close> elements.\<close>

definition arr_blit :: "'a list \<Rightarrow> nat \<Rightarrow> 'a list \<Rightarrow> 'a list option" where
  "arr_blit xs i vs =
     (if i + length vs \<le> length xs
      then Some (take i xs @ vs @ drop (i + length vs) xs) else None)"

lemma arr_get_in [simp]: "i < length xs \<Longrightarrow> arr_get xs i = Some (xs ! i)"
  by (simp add: arr_get_def)

lemma arr_get_out: "length xs \<le> i \<Longrightarrow> arr_get xs i = None"
  by (simp add: arr_get_def)

lemma arr_set_in [simp]: "i < length xs \<Longrightarrow> arr_set xs i v = Some (xs[i := v])"
  by (simp add: arr_set_def)

lemma arr_set_out: "length xs \<le> i \<Longrightarrow> arr_set xs i v = None"
  by (simp add: arr_set_def)

lemma arr_set_length: "arr_set xs i v = Some ys \<Longrightarrow> length ys = length xs"
  by (auto simp: arr_set_def split: if_splits)

lemma arr_blit_length: "arr_blit xs i vs = Some ys \<Longrightarrow> length ys = length xs"
  by (auto simp: arr_blit_def split: if_splits)

lemma arr_blit_in [simp]:
  "i + length vs \<le> length xs \<Longrightarrow>
   arr_blit xs i vs = Some (take i xs @ vs @ drop (i + length vs) xs)"
  by (simp add: arr_blit_def)

lemma arr_get_eq_Some [simp]: "arr_get xs i = Some v \<longleftrightarrow> i < length xs \<and> xs ! i = v"
  by (auto simp: arr_get_def)

section \<open>List lemmas\<close>

lemma mset_remove1_add: "x \<in> set xs \<Longrightarrow> mset xs = add_mset x (mset (remove1 x xs))"
  by simp

lemma take_Suc_update: "i < length xs \<Longrightarrow> take (Suc i) (xs[i := v]) = take i xs @ [v]"
  by (simp add: take_Suc_conv_app_nth)

section \<open>Association lists kept sorted by key\<close>

text \<open>
  The source's \<^verbatim>\<open>std::map\<close> iterates in key order.  Where that order is observable the
  map is an association list with strictly increasing keys.
\<close>

fun sm_find :: "('k::linorder \<times> 'v) list \<Rightarrow> 'k \<Rightarrow> 'v option" where
  "sm_find [] k = None"
| "sm_find ((a, v) # m) k = (if k = a then Some v else sm_find m k)"

fun sm_put :: "'k::linorder \<Rightarrow> 'v \<Rightarrow> ('k \<times> 'v) list \<Rightarrow> ('k \<times> 'v) list" where
  "sm_put k v [] = [(k, v)]"
| "sm_put k v ((a, w) # m) =
     (if k < a then (k, v) # (a, w) # m
      else if k = a then (k, v) # m
      else (a, w) # sm_put k v m)"

fun sm_erase :: "'k::linorder \<Rightarrow> ('k \<times> 'v) list \<Rightarrow> ('k \<times> 'v) list" where
  "sm_erase k [] = []"
| "sm_erase k ((a, w) # m) = (if k = a then m else (a, w) # sm_erase k m)"

text \<open>\<^verbatim>\<open>map::insert\<close> keeps an existing entry.\<close>

definition sm_insert :: "'k::linorder \<Rightarrow> 'v \<Rightarrow> ('k \<times> 'v) list \<Rightarrow> ('k \<times> 'v) list" where
  "sm_insert k v m = (if sm_find m k = None then sm_put k v m else m)"

abbreviation sm_wf :: "('k::linorder \<times> 'v) list \<Rightarrow> bool" where
  "sm_wf m \<equiv> sorted_wrt (<) (map fst m)"

lemma sm_find_None_iff: "sm_find m k = None \<longleftrightarrow> k \<notin> fst ` set m"
  by (induction m k rule: sm_find.induct) auto

lemma sm_find_in: "sm_find m k = Some v \<Longrightarrow> (k, v) \<in> set m"
  by (induction m k rule: sm_find.induct) (auto split: if_splits)

lemma sm_find_put [simp]: "sm_find (sm_put k v m) j = (if j = k then Some v else sm_find m j)"
  by (induction k v m rule: sm_put.induct) auto

lemma set_sm_put_keys: "fst ` set (sm_put k v m) = insert k (fst ` set m)"
  by (induction k v m rule: sm_put.induct) auto

lemma sm_put_wf: "sm_wf m \<Longrightarrow> sm_wf (sm_put k v m)"
proof (induction k v m rule: sm_put.induct)
  case (1 k v)
  then show ?case by simp
next
  case (2 k v a w m)
  have keys: "set (map fst (sm_put k v m)) = insert k (set (map fst m))"
    using set_sm_put_keys [of k v m] by simp
  show ?case
  proof (cases "k \<le> a")
    case True
    then show ?thesis using 2 by (auto dest: less_trans)
  next
    case False
    then have "sm_wf (sm_put k v m)" using 2 by auto
    then show ?thesis using False 2 keys by (auto simp: image_iff)
  qed
qed

lemma set_sm_erase_subset: "set (sm_erase k m) \<subseteq> set m"
  by (induction k m rule: sm_erase.induct) auto

lemma sm_erase_wf: "sm_wf m \<Longrightarrow> sm_wf (sm_erase k m)"
  by (induction k m rule: sm_erase.induct) (use set_sm_erase_subset in fastforce)+

lemma sm_find_head_None: "\<forall>x\<in>set m. a < fst x \<Longrightarrow> sm_find m a = None"
  by (auto simp: sm_find_None_iff)

lemma sm_find_erase:
  "sm_wf m \<Longrightarrow> sm_find (sm_erase k m) j = (if j = k then None else sm_find m j)"
  by (induction k m rule: sm_erase.induct) (auto simp: sm_find_head_None)

lemma sm_insert_wf: "sm_wf m \<Longrightarrow> sm_wf (sm_insert k v m)"
  by (simp add: sm_insert_def sm_put_wf)

lemma sm_erase_absent: "sm_find m k = None \<Longrightarrow> sm_erase k m = m"
  by (induction k m rule: sm_erase.induct) (auto split: if_splits)

lemma set_sm_put: "set (sm_put k v m) \<subseteq> insert (k, v) (set m)"
  by (induction k v m rule: sm_put.induct) auto

text \<open>The interface of an ordered map, and its discharge for the sorted association lists.\<close>

locale ordered_map =
  fixes find :: "'m \<Rightarrow> 'k::linorder \<Rightarrow> 'v option"
    and put :: "'k \<Rightarrow> 'v \<Rightarrow> 'm \<Rightarrow> 'm"
    and erase :: "'k \<Rightarrow> 'm \<Rightarrow> 'm"
    and wf_map :: "'m \<Rightarrow> bool"
  assumes find_put: "wf_map m \<Longrightarrow> find (put k v m) j = (if j = k then Some v else find m j)"
    and find_erase: "wf_map m \<Longrightarrow> find (erase k m) j = (if j = k then None else find m j)"
    and wf_put: "wf_map m \<Longrightarrow> wf_map (put k v m)"
    and wf_erase: "wf_map m \<Longrightarrow> wf_map (erase k m)"
begin

lemma find_erase_put:
  "wf_map m \<Longrightarrow> find m k = None \<Longrightarrow> find (erase k (put k v m)) j = find m j"
  by (simp add: find_erase find_put wf_put)

lemma find_erase_other: "wf_map m \<Longrightarrow> j \<noteq> k \<Longrightarrow> find (erase k m) j = find m j"
  by (simp add: find_erase)

end

interpretation sorted_alist: ordered_map sm_find sm_put sm_erase sm_wf
  by unfold_locales (simp_all add: sm_find_erase sm_put_wf sm_erase_wf)

end
