(* ===== verification/Token_Gen.thy ===== *)
theory Token_Gen
  imports Ril_Prelude
begin

text \<open>
  \<^verbatim>\<open>sitril/core/tokengen.cpp\<close>: the generator of the tokens that tie a modem
  response to its request.  \<^verbatim>\<open>RCM_TOKEN\<close> is \<^verbatim>\<open>unsigned int\<close>; the lock
  makes \<^verbatim>\<open>GetNext\<close> one atomic step, which is what the state-passing function is.
\<close>

definition MAX_INT :: u32 where
  "MAX_INT = 0xFFFFFFFF"

text \<open>\<^verbatim>\<open>constdef.h\<close>: the token that no request may carry.\<close>

definition TOKEN_INVALID :: u32 where
  "TOKEN_INVALID = 0xFFFFFFFF"

record token_gen =
  m_nToken :: u32

definition tg_new :: token_gen where
  "tg_new = \<lparr>m_nToken = 0\<rparr>"

definition tg_GetNext :: "token_gen \<Rightarrow> u32 \<times> token_gen" where
  "tg_GetNext g =
     (let ret = m_nToken g; t = m_nToken g + 1
      in (ret, g\<lparr>m_nToken := (if t = MAX_INT then 0 else t)\<rparr>))"

text \<open>The tokens handed out by \<open>n\<close> consecutive calls.\<close>

fun tg_run :: "nat \<Rightarrow> token_gen \<Rightarrow> u32 list \<times> token_gen" where
  "tg_run 0 g = ([], g)"
| "tg_run (Suc n) g =
     (let (t, g') = tg_GetNext g; (ts, g'') = tg_run n g' in (t # ts, g''))"

abbreviation tg_period :: nat where
  "tg_period \<equiv> 2 ^ 32 - 1"

lemma tg_GetNext_of_nat:
  assumes "k < tg_period"
  shows "tg_GetNext \<lparr>m_nToken = of_nat k\<rparr> =
    (of_nat k, \<lparr>m_nToken = of_nat (Suc k mod tg_period)\<rparr>)"
proof (cases "Suc k = tg_period")
  case True
  then have k: "k = 4294967294" by simp
  show ?thesis unfolding k by (simp add: tg_GetNext_def MAX_INT_def)
next
  case False
  then have lt: "Suc k < 4294967295" using assms by simp
  have "(of_nat k :: u32) + 1 \<noteq> MAX_INT"
  proof
    assume "(of_nat k :: u32) + 1 = MAX_INT"
    then have "(of_nat (Suc k) :: u32) = of_nat 4294967295" by (simp add: MAX_INT_def add.commute)
    then have "unat (of_nat (Suc k) :: u32) = unat (of_nat 4294967295 :: u32)" by (rule arg_cong)
    then show False using lt by (simp add: unat_of_nat del: of_nat_Suc of_nat_numeral)
  qed
  then show ?thesis using lt by (simp add: tg_GetNext_def Let_def add.commute)
qed

lemma tg_run_of_nat:
  assumes "k < tg_period"
  shows "tg_run n \<lparr>m_nToken = of_nat k\<rparr> =
    (map (\<lambda>i. of_nat ((k + i) mod tg_period)) [0..<n],
     \<lparr>m_nToken = of_nat ((k + n) mod tg_period)\<rparr>)"
  using assms
proof (induction n arbitrary: k)
  case 0
  then show ?case by simp
next
  case (Suc n)
  let ?k = "Suc k mod tg_period"
  have "?k < tg_period" by (rule mod_less_divisor) simp
  note IH = Suc.IH [OF this]
  have shift: "map (\<lambda>i. (of_nat ((?k + i) mod tg_period) :: u32)) [0..<n] =
      map (\<lambda>i. of_nat ((k + Suc i) mod tg_period)) [0..<n]"
    by (simp add: mod_add_left_eq)
  have list: "map (\<lambda>i. (of_nat ((k + i) mod tg_period) :: u32)) [0..<Suc n] =
      of_nat k # map (\<lambda>i. of_nat ((k + Suc i) mod tg_period)) [0..<n]"
    using Suc.prems by (simp add: upt_conv_Cons map_Suc_upt [symmetric] del: upt_Suc)
  have fin: "(?k + n) mod tg_period = (k + Suc n) mod tg_period"
    by (simp add: mod_add_left_eq)
  show ?case
    unfolding list by (simp only: tg_run.simps tg_GetNext_of_nat [OF Suc.prems] Let_def prod.case IH shift fin)
qed

lemma of_nat_u32_inj:
  assumes "i < 2 ^ 32" and "j < 2 ^ 32" and "(of_nat i :: u32) = of_nat j"
  shows "i = j"
proof -
  have "unat (of_nat i :: u32) = unat (of_nat j :: u32)" using assms(3) by simp
  then show ?thesis using assms(1,2) by (simp add: unat_of_nat)
qed

text \<open>
  Starting from a fresh generator, the \<open>i\<close>-th token handed out is
  \<open>i mod (2^32 - 1)\<close>: the reserved value \<^verbatim>\<open>TOKEN_INVALID\<close> is never issued, and
  any run of at most \<open>2^32 - 1\<close> calls issues pairwise different tokens.
\<close>

theorem token_gen_unique:
  "fst (tg_run n tg_new) = map (\<lambda>i. of_nat (i mod tg_period)) [0..<n] \<and>
   TOKEN_INVALID \<notin> set (fst (tg_run n tg_new)) \<and>
   (n \<le> tg_period \<longrightarrow> distinct (fst (tg_run n tg_new)))"
proof -
  have run: "fst (tg_run n tg_new) = map (\<lambda>i. of_nat (i mod tg_period)) [0..<n]"
    using tg_run_of_nat [of 0 n] by (simp add: tg_new_def)
  have small: "i mod tg_period < tg_period" for i :: nat
    by (rule mod_less_divisor) simp
  have "TOKEN_INVALID \<noteq> of_nat (i mod tg_period)" for i
  proof
    assume "TOKEN_INVALID = of_nat (i mod tg_period)"
    then have "(of_nat tg_period :: u32) = of_nat (i mod tg_period)" by (simp add: TOKEN_INVALID_def)
    then have "tg_period = i mod tg_period"
      by (rule of_nat_u32_inj [rotated 2]) (use small [of i] in simp_all)
    then show False using small [of i] by simp
  qed
  then have inv: "TOKEN_INVALID \<notin> set (fst (tg_run n tg_new))"
    unfolding run by auto
  have "distinct (fst (tg_run n tg_new))" if "n \<le> tg_period"
  proof -
    have "inj_on (\<lambda>i. (of_nat (i mod tg_period) :: u32)) (set [0..<n])"
    proof (rule inj_onI)
      fix i j
      assume i: "i \<in> set [0..<n]" and j: "j \<in> set [0..<n]"
        and eq: "(of_nat (i mod tg_period) :: u32) = of_nat (j mod tg_period)"
      have "i mod tg_period = i" "j mod tg_period = j" using i j that by simp_all
      with eq have "(of_nat i :: u32) = of_nat j" by simp
      then show "i = j" by (rule of_nat_u32_inj [rotated 2]) (use i j that in simp_all)
    qed
    then show ?thesis unfolding run by (simp add: distinct_map)
  qed
  then show ?thesis using run inv by blast
qed

theorem token_gen_unique_witness:
  "distinct (fst (tg_run 3 tg_new)) \<and> fst (tg_run 3 tg_new) = [0, 1, 2]"
  using token_gen_unique [of 3] by (simp add: upt_rec)

end
