(* ===== verification/Rcm_Header.thy ===== *)
theory Rcm_Header
  imports Token_Gen
begin

text \<open>
  The header of a radio control message (RCM), the unit exchanged with the modem.
  \<^verbatim>\<open>sitril/protocol/sit/sitdef.h\<close> lays it out with \<^verbatim>\<open>#pragma pack(1)\<close> on a
  little-endian target; \<^verbatim>\<open>protocolbuilder.cpp\<close> fills it for a request and
  \<^verbatim>\<open>protocoladapter.cpp\<close> and \<^verbatim>\<open>modemdata.cpp\<close> read it back from raw bytes.
  Reads of the header that run past the raw data are \<open>None\<close>.
\<close>

section \<open>Little-endian integers\<close>

definition u16_bytes :: "u16 \<Rightarrow> u8 list" where
  "u16_bytes w = [ucast w, ucast (drop_bit 8 w)]"

definition u32_bytes :: "u32 \<Rightarrow> u8 list" where
  "u32_bytes w = [ucast w, ucast (drop_bit 8 w), ucast (drop_bit 16 w), ucast (drop_bit 24 w)]"

definition get_u16 :: "u8 list \<Rightarrow> nat \<Rightarrow> u16 option" where
  "get_u16 bs i = do {
     a \<leftarrow> arr_get bs i; b \<leftarrow> arr_get bs (i + 1);
     Some (ucast a OR push_bit 8 (ucast b)) }"

definition get_u32 :: "u8 list \<Rightarrow> nat \<Rightarrow> u32 option" where
  "get_u32 bs i = do {
     a \<leftarrow> arr_get bs i; b \<leftarrow> arr_get bs (i + 1);
     c \<leftarrow> arr_get bs (i + 2); d \<leftarrow> arr_get bs (i + 3);
     Some (ucast a OR push_bit 8 (ucast b) OR push_bit 16 (ucast c) OR push_bit 24 (ucast d)) }"

lemma u16_join: "ucast (ucast w :: u8) OR push_bit 8 (ucast (ucast (drop_bit 8 w) :: u8)) = (w :: u16)"
  by (rule bit_word_eqI) (auto simp: bit_simps)

lemma u32_join:
  "ucast (ucast w :: u8) OR push_bit 8 (ucast (ucast (drop_bit 8 w) :: u8)) OR
   push_bit 16 (ucast (ucast (drop_bit 16 w) :: u8)) OR
   push_bit 24 (ucast (ucast (drop_bit 24 w) :: u8)) = (w :: u32)" (is "?l = w")
proof (rule bit_word_eqI)
  fix n :: nat
  assume "n < LENGTH(32)"
  moreover have "24 \<le> n \<Longrightarrow> 24 + (n - 24) = n" by simp
  ultimately show "bit ?l n = bit w n"
    by (cases "n < 8"; cases "n < 16"; cases "n < 24") (auto simp: bit_simps)
qed

lemma get_u16_bytes: "get_u16 (xs @ u16_bytes w @ ys) (length xs) = Some w"
  by (simp add: get_u16_def u16_bytes_def nth_append u16_join)

lemma get_u32_bytes: "get_u32 (xs @ u32_bytes w @ ys) (length xs) = Some w"
  by (simp add: get_u32_def u32_bytes_def nth_append u32_join)

lemma length_u_bytes [simp]: "length (u16_bytes w) = 2" "length (u32_bytes v) = 4"
  by (simp_all add: u16_bytes_def u32_bytes_def)

section \<open>The header and its builders\<close>

definition RCM_TYPE_REQUEST :: u8 where "RCM_TYPE_REQUEST = 0"
definition RCM_TYPE_RESPONSE :: u8 where "RCM_TYPE_RESPONSE = 1"
definition RCM_TYPE_INDICATION :: u8 where "RCM_TYPE_INDICATION = 2"

lemmas rcm_types = RCM_TYPE_REQUEST_def RCM_TYPE_RESPONSE_def RCM_TYPE_INDICATION_def

text \<open>
  \<^verbatim>\<open>RCM_HEADER\<close>.  The union of the request and response extension is the token
  followed by two bytes; the first of them is the error code of a response.
\<close>

record rcm_header =
  h_type :: u8
  h_reserved :: u8
  h_id :: u16
  h_length :: u16
  h_token :: u32
  h_error :: u8
  h_ext :: u8

record rcm_ind_header =
  ih_type :: u8
  ih_reserved :: u8
  ih_id :: u16
  ih_length :: u16
  ih_ext :: "u8 \<times> u8"

definition rcm_bytes :: "rcm_header \<Rightarrow> u8 list" where
  "rcm_bytes h = [h_type h, h_reserved h] @ u16_bytes (h_id h) @ u16_bytes (h_length h) @
     u32_bytes (h_token h) @ [h_error h, h_ext h]"

definition rcm_ind_bytes :: "rcm_ind_header \<Rightarrow> u8 list" where
  "rcm_ind_bytes h = [ih_type h, ih_reserved h] @ u16_bytes (ih_id h) @ u16_bytes (ih_length h) @
     [fst (ih_ext h), snd (ih_ext h)]"

abbreviation RCM_HEADER_SIZE :: nat where "RCM_HEADER_SIZE \<equiv> 12"
abbreviation RCM_IND_HEADER_SIZE :: nat where "RCM_IND_HEADER_SIZE \<equiv> 8"

text \<open>
  The three overloads of \<^verbatim>\<open>InitRequestHeader\<close> and the indication variant.  \<open>id\<close> and
  \<open>length\<close> are C \<^verbatim>\<open>int\<close>s cut to sixteen bits; the first two take the token from the
  generator.
\<close>

definition InitRequestHeader_token :: "int \<Rightarrow> int \<Rightarrow> u32 \<Rightarrow> rcm_header" where
  "InitRequestHeader_token mid len tok =
     \<lparr>h_type = RCM_TYPE_REQUEST, h_reserved = 0, h_id = word_of_int mid,
      h_length = word_of_int len, h_token = tok, h_error = 0, h_ext = 0\<rparr>"

definition InitRequestHeader_length :: "int \<Rightarrow> int \<Rightarrow> token_gen \<Rightarrow> rcm_header \<times> token_gen" where
  "InitRequestHeader_length mid len g =
     (let (tok, g') = tg_GetNext g
      in (\<lparr>h_type = RCM_TYPE_REQUEST, h_reserved = 0, h_id = word_of_int mid,
           h_length = word_of_int len, h_token = tok, h_error = 0, h_ext = 0\<rparr>, g'))"

definition InitRequestHeader :: "int \<Rightarrow> token_gen \<Rightarrow> rcm_header \<times> token_gen" where
  "InitRequestHeader mid g =
     (let (tok, g') = tg_GetNext g
      in (\<lparr>h_type = RCM_TYPE_REQUEST, h_reserved = 0, h_id = word_of_int mid,
           h_length = 0, h_token = tok, h_error = 0, h_ext = 0\<rparr>, g'))"

definition InitIndRequestHeader :: "int \<Rightarrow> int \<Rightarrow> rcm_ind_header" where
  "InitIndRequestHeader mid len =
     \<lparr>ih_type = RCM_TYPE_INDICATION, ih_reserved = 0, ih_id = word_of_int mid,
      ih_length = word_of_int len, ih_ext = (0, 0)\<rparr>"

section \<open>Reading raw modem data\<close>

text \<open>
  The constructor of \<^verbatim>\<open>ModemData\<close> copies a non-empty buffer; for an empty one the raw
  pointer stays \<^verbatim>\<open>NULL\<close>, here the empty list.  \<^verbatim>\<open>SetData\<close> runs \<^verbatim>\<open>Release\<close>
  first, which resets the transmit flag.
\<close>

record modem_raw =
  mr_data :: "u8 list"
  mr_tx :: bool

definition md_SetData :: "u8 list \<Rightarrow> bool \<Rightarrow> modem_raw \<Rightarrow> modem_raw" where
  "md_SetData buf tx m =
     (if buf \<noteq> [] then \<lparr>mr_data = buf, mr_tx = tx\<rparr> else \<lparr>mr_data = [], mr_tx = False\<rparr>)"

definition md_new :: "u8 list \<Rightarrow> bool \<Rightarrow> modem_raw" where
  "md_new buf tx = md_SetData buf tx \<lparr>mr_data = [], mr_tx = tx\<rparr>"

text \<open>\<^verbatim>\<open>Clone\<close> leaves the transmit flag at the constructor's default \<^verbatim>\<open>true\<close>.\<close>

definition md_Clone :: "modem_raw \<Rightarrow> modem_raw" where
  "md_Clone m = md_new (mr_data m) True"

definition md_GetType :: "modem_raw \<Rightarrow> u32 option" where
  "md_GetType m = (if mr_data m \<noteq> [] then do { t \<leftarrow> arr_get (mr_data m) 0; Some (ucast t) } else Some 0)"

definition md_GetId :: "modem_raw \<Rightarrow> u32 option" where
  "md_GetId m = (if mr_data m \<noteq> [] then do { w \<leftarrow> get_u16 (mr_data m) 2; Some (ucast w) } else Some 0)"

definition md_GetHdrLength :: "modem_raw \<Rightarrow> u32 option" where
  "md_GetHdrLength m =
     (if mr_data m \<noteq> [] then do { w \<leftarrow> get_u16 (mr_data m) 4; Some (ucast w) } else Some 0)"

definition md_GetToken :: "modem_raw \<Rightarrow> u32 option" where
  "md_GetToken m =
     (if mr_data m \<noteq> []
      then do {
        t \<leftarrow> arr_get (mr_data m) 0;
        (if t = RCM_TYPE_REQUEST \<or> t = RCM_TYPE_RESPONSE then get_u32 (mr_data m) 6
         else Some TOKEN_INVALID) }
      else Some TOKEN_INVALID)"

definition md_GetParameter :: "modem_raw \<Rightarrow> u8 list option" where
  "md_GetParameter m =
     (if length (mr_data m) > RCM_HEADER_SIZE then Some (drop RCM_HEADER_SIZE (mr_data m)) else None)"

definition md_GetParameterLength :: "modem_raw \<Rightarrow> nat" where
  "md_GetParameterLength m =
     (if length (mr_data m) > RCM_HEADER_SIZE then length (mr_data m) - RCM_HEADER_SIZE else 0)"

definition md_ind_GetParameter :: "modem_raw \<Rightarrow> u8 list option" where
  "md_ind_GetParameter m =
     (if length (mr_data m) > RCM_IND_HEADER_SIZE
      then Some (drop RCM_IND_HEADER_SIZE (mr_data m)) else None)"

definition md_ind_GetParameterLength :: "modem_raw \<Rightarrow> nat" where
  "md_ind_GetParameterLength m =
     (if length (mr_data m) > RCM_IND_HEADER_SIZE then length (mr_data m) - RCM_IND_HEADER_SIZE else 0)"

definition md_IsRequest :: "modem_raw \<Rightarrow> bool option" where
  "md_IsRequest m = do { t \<leftarrow> md_GetType m; Some (t = ucast RCM_TYPE_REQUEST) }"

definition md_IsResponse :: "modem_raw \<Rightarrow> bool option" where
  "md_IsResponse m =
     do { t \<leftarrow> md_GetType m; Some (t = ucast RCM_TYPE_RESPONSE \<or> t = ucast RCM_TYPE_INDICATION) }"

definition md_IsUnsolicitedResponse :: "modem_raw \<Rightarrow> bool option" where
  "md_IsUnsolicitedResponse m = do { t \<leftarrow> md_GetType m; Some (t = ucast RCM_TYPE_INDICATION) }"

definition md_IsSolicitedResponse :: "modem_raw \<Rightarrow> bool option" where
  "md_IsSolicitedResponse m = do { t \<leftarrow> md_GetType m; Some (t = ucast RCM_TYPE_RESPONSE) }"

text \<open>RIL error codes, \<^verbatim>\<open>telephony/ril.h\<close>, and the modem's, \<^verbatim>\<open>sitdef.h\<close>.\<close>

definition RIL_E_SUCCESS :: int where "RIL_E_SUCCESS = 0"
definition RIL_E_RADIO_NOT_AVAILABLE :: int where "RIL_E_RADIO_NOT_AVAILABLE = 1"
definition RIL_E_GENERIC_FAILURE :: int where "RIL_E_GENERIC_FAILURE = 2"
definition RIL_E_REQUEST_NOT_SUPPORTED :: int where "RIL_E_REQUEST_NOT_SUPPORTED = 6"
definition RIL_E_INTERNAL_ERR :: int where "RIL_E_INTERNAL_ERR = 38"

definition RCM_E_UNDEFINED_CMD :: int where "RCM_E_UNDEFINED_CMD = 22"
definition RCM_E_MAX :: int where "RCM_E_MAX = 24"

definition ConvertProtocolErrorCodeToRilErrorCode :: "int \<Rightarrow> int" where
  "ConvertProtocolErrorCodeToRilErrorCode e =
     (if 0 \<le> e \<and> e < RCM_E_MAX
      then (if e = RCM_E_UNDEFINED_CMD then RIL_E_REQUEST_NOT_SUPPORTED else e)
      else RIL_E_GENERIC_FAILURE)"

definition resp_GetErrorCode :: "modem_raw \<Rightarrow> int" where
  "resp_GetErrorCode m =
     (if length (mr_data m) \<ge> RCM_HEADER_SIZE \<and> mr_data m ! 0 = RCM_TYPE_RESPONSE
      then ConvertProtocolErrorCodeToRilErrorCode (uint (mr_data m ! 10))
      else RIL_E_GENERIC_FAILURE)"

section \<open>Radio access family masks\<close>

text \<open>
  \<^verbatim>\<open>switchRafValueForCP\<close> and \<^verbatim>\<open>switchRafValueForFW\<close> translate a radio access
  family mask bit by bit.  The table holds the pairs of bit positions (framework, modem) in the
  order the source tests them: unknown, GPRS, EDGE, UMTS, HSDPA, HSUPA, HSPA, LTE, HSPA+, GSM,
  TD-SCDMA, IS95A, IS95B, 1xRTT, EVDO 0, EVDO A, EVDO B, EHRPD, NR.
\<close>

definition raf_table :: "(nat \<times> nat) list" where
  "raf_table = [(0, 0), (1, 1), (2, 2), (3, 3), (9, 4), (10, 5), (11, 6), (14, 7), (15, 8),
     (16, 9), (17, 10), (4, 11), (5, 12), (6, 13), (7, 14), (8, 15), (12, 16), (13, 17), (20, 18)]"

fun raf_switch :: "(nat \<times> nat) list \<Rightarrow> u32 \<Rightarrow> u32 \<Rightarrow> u32" where
  "raf_switch [] raf result = result"
| "raf_switch ((i, j) # tab) raf result =
     raf_switch tab raf (if raf AND 2 ^ i \<noteq> 0 then result OR 2 ^ j else result)"

definition switchRafValueForCP :: "u32 \<Rightarrow> u32" where
  "switchRafValueForCP raf = raf_switch raf_table raf 0"

definition switchRafValueForFW :: "u32 \<Rightarrow> u32" where
  "switchRafValueForFW raf = raf_switch (map prod.swap raf_table) raf 0"

lemma bit_raf_switch:
  assumes "\<forall>(i, j)\<in>set tab. i < 32 \<and> j < 32"
  shows "bit (raf_switch tab raf r) n \<longleftrightarrow> bit r n \<or> (\<exists>(i, j)\<in>set tab. j = n \<and> bit raf i)"
  using assms
proof (induction tab raf r rule: raf_switch.induct)
  case (1 raf r)
  then show ?case by simp
next
  case (2 i j tab raf r)
  then show ?case by (auto simp: and_exp_eq_0_iff_not_bit bit_simps)
qed

lemma bit_switchCP:
  "bit (switchRafValueForCP raf) n \<longleftrightarrow> (\<exists>(i, j)\<in>set raf_table. j = n \<and> bit raf i)"
  unfolding switchRafValueForCP_def by (subst bit_raf_switch) (simp_all add: raf_table_def)

lemma bit_switchFW:
  "bit (switchRafValueForFW raf) n \<longleftrightarrow> (\<exists>(i, j)\<in>set raf_table. i = n \<and> bit raf j)"
  unfolding switchRafValueForFW_def by (subst bit_raf_switch) (auto simp: raf_table_def)

lemma raf_table_bij:
  "(i, j) \<in> set raf_table \<Longrightarrow> (i', j') \<in> set raf_table \<Longrightarrow> i = i' \<longleftrightarrow> j = j'"
  by (auto simp: raf_table_def)

lemma bit_switchFW_CP:
  "bit (switchRafValueForFW (switchRafValueForCP raf)) n \<longleftrightarrow> bit raf n \<and> n \<in> fst ` set raf_table"
  unfolding bit_switchFW bit_switchCP by (auto simp: image_iff dest: raf_table_bij; force)

lemma bit_switchCP_FW:
  "bit (switchRafValueForCP (switchRafValueForFW raf)) n \<longleftrightarrow> bit raf n \<and> n \<in> snd ` set raf_table"
  unfolding bit_switchFW bit_switchCP by (auto simp: image_iff dest: raf_table_bij; force)

lemma raf_fw_mask: "n < 32 \<Longrightarrow> bit (0x13FFFF :: u32) n \<longleftrightarrow> n \<in> fst ` set raf_table"
proof -
  have "\<forall>n\<in>set [0..<32]. bit (0x13FFFF :: u32) n = (n \<in> set (map fst raf_table))" by code_simp
  then show "n < 32 \<Longrightarrow> ?thesis" by simp
qed

lemma raf_cp_mask: "n < 32 \<Longrightarrow> bit (0x7FFFF :: u32) n \<longleftrightarrow> n \<in> snd ` set raf_table"
proof -
  have "\<forall>n\<in>set [0..<32]. bit (0x7FFFF :: u32) n = (n \<in> set (map snd raf_table))" by code_simp
  then show "n < 32 \<Longrightarrow> ?thesis" by simp
qed

section \<open>Properties\<close>

text \<open>
  The two mask translations are inverse to each other on the families both sides know:
  going to the modem and back keeps exactly the framework bits 0 to 17 and 20 (the LTE carrier
  aggregation bit 19 and bit 18 have no modem counterpart), and going to the framework and back
  keeps exactly the nineteen modem bits.
\<close>

theorem raf_switch_roundtrip:
  "switchRafValueForFW (switchRafValueForCP raf) = raf AND 0x13FFFF \<and>
   switchRafValueForCP (switchRafValueForFW raf) = raf AND 0x7FFFF"
proof
  show "switchRafValueForFW (switchRafValueForCP raf) = raf AND 0x13FFFF"
    by (rule bit_word_eqI) (simp add: bit_and_iff bit_switchFW_CP raf_fw_mask [symmetric])
  show "switchRafValueForCP (switchRafValueForFW raf) = raf AND 0x7FFFF"
    by (rule bit_word_eqI) (simp add: bit_and_iff bit_switchCP_FW raf_cp_mask [symmetric])
qed

lemma rcm_bytes_length [simp]: "length (rcm_bytes h) = RCM_HEADER_SIZE"
  by (simp add: rcm_bytes_def)

lemma rcm_bytes_nonempty [simp]: "rcm_bytes h \<noteq> []"
  by (simp add: rcm_bytes_def)

lemma rcm_bytes_type: "arr_get (rcm_bytes h @ ps) 0 = Some (h_type h)"
  by (simp add: rcm_bytes_def arr_get_def)

lemma rcm_bytes_id: "get_u16 (rcm_bytes h @ ps) 2 = Some (h_id h)"
  using get_u16_bytes [of "[h_type h, h_reserved h]"] by (simp add: rcm_bytes_def numeral_2_eq_2)

lemma rcm_bytes_len: "get_u16 (rcm_bytes h @ ps) 4 = Some (h_length h)"
  using get_u16_bytes [of "[h_type h, h_reserved h] @ u16_bytes (h_id h)"] by (simp add: rcm_bytes_def)

lemma rcm_bytes_token: "get_u32 (rcm_bytes h @ ps) 6 = Some (h_token h)"
  using get_u32_bytes [of "[h_type h, h_reserved h] @ u16_bytes (h_id h) @ u16_bytes (h_length h)"]
  by (simp add: rcm_bytes_def)

lemma md_new_data [simp]: "buf \<noteq> [] \<Longrightarrow> mr_data (md_new buf tx) = buf"
  by (simp add: md_new_def md_SetData_def)

text \<open>
  C24. What a builder writes into a request header is what the adapter reads back from the raw
  bytes: the type, the message id and the length modulo \<open>2^16\<close>, the token, and the parameter
  block; every header read stays inside the data.
\<close>

theorem rcm_request_roundtrip:
  "let m = md_new (rcm_bytes (InitRequestHeader_token mid len tok) @ ps) tx in
    md_GetType m = Some (ucast RCM_TYPE_REQUEST) \<and>
    md_GetId m = Some (word_of_int (mid mod 2 ^ 16)) \<and>
    md_GetHdrLength m = Some (word_of_int (len mod 2 ^ 16)) \<and>
    md_GetToken m = Some tok \<and>
    md_IsRequest m = Some True \<and> md_IsSolicitedResponse m = Some False \<and>
    md_GetParameterLength m = length ps \<and>
    (ps \<noteq> [] \<longrightarrow> md_GetParameter m = Some ps)"
proof -
  let ?h = "InitRequestHeader_token mid len tok"
  have raw: "mr_data (md_new (rcm_bytes ?h @ ps) tx) = rcm_bytes ?h @ ps" by simp
  have cut: "ucast (word_of_int k :: u16) = (word_of_int (k mod 2 ^ 16) :: u32)" for k :: int
    unfolding take_bit_eq_mod [symmetric] by (rule bit_word_eqI) (auto simp: bit_simps)
  show ?thesis
    unfolding Let_def md_GetType_def md_GetId_def md_GetHdrLength_def md_GetToken_def md_IsRequest_def
      md_IsSolicitedResponse_def md_GetParameterLength_def md_GetParameter_def raw
      rcm_bytes_type rcm_bytes_id rcm_bytes_len rcm_bytes_token
    by (simp add: InitRequestHeader_token_def rcm_types cut [simplified])
qed

theorem rcm_request_roundtrip_witness:
  "md_GetParameter (md_new (rcm_bytes (InitRequestHeader_token 0x70001 14 9) @ [1, 2]) True) = Some [1, 2]"
  using rcm_request_roundtrip [where mid = "0x70001" and len = "14" and tok = "9" and ps = "[1, 2]" and tx = True]
  by (simp add: Let_def)

text \<open>
  Every header read of a message whose raw data holds a complete header is inside the data;
  of a shorter message the type is read but the token of a request or response is not: the
  length test is commented out in the source, so such a read leaves the buffer.
\<close>

theorem rcm_short_message_reads:
  assumes "mr_data m \<noteq> []"
  shows "(length (mr_data m) \<ge> RCM_HEADER_SIZE \<longrightarrow>
      md_GetToken m \<noteq> None \<and> md_GetId m \<noteq> None \<and> md_GetHdrLength m \<noteq> None) \<and>
    md_GetType m \<noteq> None \<and>
    (length (mr_data m) < 10 \<and> mr_data m ! 0 = RCM_TYPE_RESPONSE \<longrightarrow> md_GetToken m = None)"
  using assms
  by (auto simp: md_GetToken_def md_GetId_def md_GetHdrLength_def md_GetType_def get_u16_def
      get_u32_def arr_get_def rcm_types bind_eq_None_conv split: if_splits)

theorem rcm_short_message_reads_witness:
  "md_GetToken \<lparr>mr_data = [1, 0, 3], mr_tx = False\<rparr> = None"
  using rcm_short_message_reads [of "\<lparr>mr_data = [1, 0, 3], mr_tx = False\<rparr>"]
  by (simp add: rcm_types)

end
