(* ===== verification/Timer_List.thy ===== *)
theory Timer_List
  imports Ril_Prelude
begin

text \<open>
  \<^verbatim>\<open>sitril/core/timerlist.cpp\<close>: the list of pending timer events of a service,
  kept in ascending order of expiry.  A message pointer is an address, \<open>None\<close> is
  \<^verbatim>\<open>NULL\<close>.  \<^verbatim>\<open>gettimeofday\<close> is the argument \<open>now\<close>.
  \<^verbatim>\<open>time_t\<close> and \<^verbatim>\<open>suseconds_t\<close> are 64 bits wide on the target and are
  integers here; the narrowing of \<^verbatim>\<open>compare\<close>'s result to \<^verbatim>\<open>int\<close> is kept.
\<close>

type_synonym addr = nat

record timeval =
  tv_sec :: int
  tv_usec :: int

record timer_event =
  te_timeout :: timeval
  te_msg :: "addr option"

record timer_list =
  mList :: "timer_event list"
  mMaxTimeout :: u32

definition MAX_TIMEOUT :: u32 where
  "MAX_TIMEOUT = 5 * 60 * 1000"

section \<open>Arithmetic on struct timeval\<close>

definition tv_compare :: "timeval \<Rightarrow> timeval \<Rightarrow> int" where
  "tv_compare l r =
     (if tv_sec l = tv_sec r then to_int32 (tv_usec l - tv_usec r)
      else to_int32 (tv_sec l - tv_sec r))"

definition tv_add :: "timeval \<Rightarrow> timeval \<Rightarrow> timeval" where
  "tv_add l r =
     (let s = tv_sec l + tv_sec r; u = tv_usec l + tv_usec r
      in if u > 1000000 then \<lparr>tv_sec = s + 1, tv_usec = u - 1000000\<rparr>
         else \<lparr>tv_sec = s, tv_usec = u\<rparr>)"

definition tv_add_millis :: "timeval \<Rightarrow> u32 \<Rightarrow> timeval" where
  "tv_add_millis tv millis =
     (let usec = uint (millis * 1000)
      in tv_add tv \<lparr>tv_sec = usec div 1000000, tv_usec = usec mod 1000000\<rparr>)"

definition tv_sub :: "timeval \<Rightarrow> timeval \<Rightarrow> timeval" where
  "tv_sub l r =
     (if tv_compare l r \<le> 0 then \<lparr>tv_sec = 0, tv_usec = 0\<rparr>
      else let s = tv_sec l - tv_sec r; u = tv_usec l - tv_usec r
           in if u < 0 then \<lparr>tv_sec = s - 1, tv_usec = u + 1000000\<rparr>
              else \<lparr>tv_sec = s, tv_usec = u\<rparr>)"

section \<open>The list\<close>

definition tl_init :: timer_list where
  "tl_init = \<lparr>mList = [], mMaxTimeout = MAX_TIMEOUT\<rparr>"

definition tl_null_event :: timer_event where
  "tl_null_event = \<lparr>te_timeout = \<lparr>tv_sec = 0, tv_usec = 0\<rparr>, te_msg = None\<rparr>"

definition tl_front :: "timer_list \<Rightarrow> timer_event" where
  "tl_front t = (case mList t of [] \<Rightarrow> tl_null_event | e # _ \<Rightarrow> e)"

definition tl_pop :: "timer_list \<Rightarrow> timer_event \<times> timer_list" where
  "tl_pop t = (case mList t of [] \<Rightarrow> (tl_null_event, t) | e # es \<Rightarrow> (e, t\<lparr>mList := es\<rparr>))"

fun tl_insert :: "timer_event \<Rightarrow> timer_event list \<Rightarrow> timer_event list" where
  "tl_insert te [] = [te]"
| "tl_insert te (cur # es) =
     (if tv_compare (te_timeout cur) (te_timeout te) > 0 then te # cur # es
      else cur # tl_insert te es)"

definition tl_put :: "timeval \<Rightarrow> addr option \<Rightarrow> u32 \<Rightarrow> timer_list \<Rightarrow> timer_list" where
  "tl_put now msg millis t =
     (let m = (if millis > mMaxTimeout t then mMaxTimeout t else millis);
          te = \<lparr>te_timeout = tv_add_millis now m, te_msg = msg\<rparr>
      in t\<lparr>mList := tl_insert te (mList t)\<rparr>)"

fun tl_remove :: "addr option \<Rightarrow> timer_event list \<Rightarrow> timer_event list" where
  "tl_remove msg [] = []"
| "tl_remove msg (te # es) = (if te_msg te = msg then es else te # tl_remove msg es)"

definition tl_erase :: "addr option \<Rightarrow> timer_list \<Rightarrow> timer_list" where
  "tl_erase msg t = t\<lparr>mList := tl_remove msg (mList t)\<rparr>"

definition tl_size :: "timer_list \<Rightarrow> nat" where
  "tl_size t = length (mList t)"

section \<open>Lemmas on timeval\<close>

text \<open>The instant a \<open>timeval\<close> denotes, in microseconds, and its normal form.\<close>

definition tv_us :: "timeval \<Rightarrow> int" where
  "tv_us tv = tv_sec tv * 1000000 + tv_usec tv"

definition tv_norm :: "timeval \<Rightarrow> bool" where
  "tv_norm tv \<longleftrightarrow> 0 \<le> tv_usec tv \<and> tv_usec tv < 1000000"

text \<open>What \<^verbatim>\<open>add\<close> guarantees: one microsecond value too many.\<close>

definition tv_almost :: "timeval \<Rightarrow> bool" where
  "tv_almost tv \<longleftrightarrow> 0 \<le> tv_usec tv \<and> tv_usec tv \<le> 1000000"

definition tv_window :: "int \<Rightarrow> timeval \<Rightarrow> bool" where
  "tv_window b tv \<longleftrightarrow> b \<le> tv_sec tv \<and> tv_sec tv < b + 2 ^ 31 \<and> tv_almost tv"

definition tv_le :: "timeval \<Rightarrow> timeval \<Rightarrow> bool" where
  "tv_le l r \<longleftrightarrow> tv_sec l < tv_sec r \<or> tv_sec l = tv_sec r \<and> tv_usec l \<le> tv_usec r"

lemma tv_norm_almost [simp]: "tv_norm tv \<Longrightarrow> tv_almost tv"
  by (simp add: tv_norm_def tv_almost_def)

lemma tv_us_add [simp]: "tv_us (tv_add l r) = tv_us l + tv_us r"
  by (simp add: tv_us_def tv_add_def Let_def)

lemma tv_add_almost: "tv_almost l \<Longrightarrow> tv_norm r \<Longrightarrow> tv_almost (tv_add l r)"
  by (auto simp: tv_almost_def tv_norm_def tv_add_def Let_def)

lemma tv_add_norm_iff:
  "tv_norm l \<Longrightarrow> tv_norm r \<Longrightarrow>
   tv_norm (tv_add l r) \<longleftrightarrow> tv_usec l + tv_usec r \<noteq> 1000000"
  by (auto simp: tv_norm_def tv_add_def Let_def)

lemma tv_us_add_millis: "tv_us (tv_add_millis tv m) = tv_us tv + uint (m * 1000)"
  by (simp add: tv_add_millis_def Let_def) (simp add: tv_us_def)

lemma tv_add_millis_almost: "tv_almost tv \<Longrightarrow> tv_almost (tv_add_millis tv m)"
  by (simp add: tv_add_millis_def Let_def tv_add_almost tv_norm_def)

lemma tv_add_millis_sec:
  "tv_sec tv \<le> tv_sec (tv_add_millis tv m) \<and> tv_sec (tv_add_millis tv m) \<le> tv_sec tv + 4296"
proof -
  have "uint (m * 1000) < 2 ^ 32" using uint_lt2p [of "m * 1000"] by simp
  then have "uint (m * 1000) div 1000000 \<le> 4294967296 div 1000000"
    by (intro zdiv_mono1) simp_all
  moreover have "0 \<le> uint (m * 1000) div 1000000"
    by (simp add: pos_imp_zdiv_nonneg_iff)
  ultimately show ?thesis
    by (auto simp: tv_add_millis_def tv_add_def Let_def)
qed

lemma tv_compare_pos:
  assumes "tv_window b l" and "tv_window b r"
  shows "tv_compare l r > 0 \<longleftrightarrow> \<not> tv_le l r"
proof -
  have "to_int32 (tv_usec l - tv_usec r) = tv_usec l - tv_usec r"
    using assms by (intro to_int32_id) (auto simp: tv_window_def tv_almost_def)
  moreover have "to_int32 (tv_sec l - tv_sec r) = tv_sec l - tv_sec r"
    using assms by (intro to_int32_id) (auto simp: tv_window_def)
  ultimately show ?thesis
    by (auto simp: tv_compare_def tv_le_def)
qed

lemma tv_le_us: "tv_almost l \<Longrightarrow> tv_almost r \<Longrightarrow> tv_le l r \<Longrightarrow> tv_us l \<le> tv_us r"
  unfolding tv_le_def tv_us_def tv_almost_def by auto

lemma tv_le_total: "tv_le l r \<or> tv_le r l"
  by (auto simp: tv_le_def)

lemma tv_le_trans: "tv_le a b \<Longrightarrow> tv_le b c \<Longrightarrow> tv_le a c"
  by (auto simp: tv_le_def)

lemma tv_sub_eq:
  assumes "tv_window b l" and "tv_window b r" and "tv_norm r"
  shows "tv_us (tv_sub l r) = max 0 (tv_us l - tv_us r)"
    and "tv_almost (tv_sub l r)"
proof -
  have pos: "tv_compare l r \<le> 0 \<longleftrightarrow> tv_le l r"
    using tv_compare_pos [OF assms(1,2)] by auto
  have rng: "0 \<le> tv_usec l" "tv_usec l \<le> 1000000" "0 \<le> tv_usec r" "tv_usec r < 1000000"
    using assms by (auto simp: tv_window_def tv_almost_def tv_norm_def)
  have le: "tv_le l r \<Longrightarrow> tv_us l \<le> tv_us r"
    using assms by (intro tv_le_us) (auto simp: tv_window_def)
  have nle: "\<not> tv_le l r \<Longrightarrow> tv_us r \<le> tv_us l"
    using assms tv_le_total tv_le_us by (metis tv_window_def)
  show "tv_us (tv_sub l r) = max 0 (tv_us l - tv_us r)"
  proof (cases "tv_le l r")
    case True
    then have "tv_sub l r = \<lparr>tv_sec = 0, tv_usec = 0\<rparr>" using pos by (simp add: tv_sub_def)
    then show ?thesis using le [OF True] by (simp add: tv_us_def)
  next
    case False
    then have "\<not> tv_compare l r \<le> 0" using pos by simp
    then have "tv_us (tv_sub l r) = tv_us l - tv_us r"
      by (simp add: tv_sub_def tv_us_def Let_def)
    then show ?thesis using nle [OF False] by simp
  qed
  show "tv_almost (tv_sub l r)"
    using rng by (auto simp: tv_sub_def tv_almost_def Let_def)
qed

section \<open>The list stays sorted by expiry\<close>

definition tl_sorted :: "timer_event list \<Rightarrow> bool" where
  "tl_sorted es \<longleftrightarrow> sorted_wrt (\<lambda>x y. tv_le (te_timeout x) (te_timeout y)) es"

text \<open>All expiries lie within one 31-bit window of seconds, which the narrowing comparison needs.\<close>

definition tl_ok :: "int \<Rightarrow> timer_list \<Rightarrow> bool" where
  "tl_ok b t \<longleftrightarrow> tl_sorted (mList t) \<and> (\<forall>e\<in>set (mList t). tv_window b (te_timeout e))"

lemma tl_insert_spec:
  assumes "tl_sorted es" and "\<forall>e\<in>set es. tv_window b (te_timeout e)"
    and "tv_window b (te_timeout te)"
  shows "tl_insert te es =
    filter (\<lambda>e. tv_le (te_timeout e) (te_timeout te)) es @ te #
    filter (\<lambda>e. \<not> tv_le (te_timeout e) (te_timeout te)) es"
  using assms
proof (induction es)
  case Nil
  then show ?case by simp
next
  case (Cons cur es)
  show ?case
  proof (cases "tv_le (te_timeout cur) (te_timeout te)")
    case True
    then show ?thesis using Cons tv_compare_pos [of b "te_timeout cur" "te_timeout te"]
      by (auto simp: tl_sorted_def)
  next
    case False
    have "\<not> tv_le (te_timeout e) (te_timeout te)" if "e \<in> set es" for e
      using False that Cons.prems(1) tv_le_trans by (fastforce simp: tl_sorted_def)
    then have "filter (\<lambda>e. tv_le (te_timeout e) (te_timeout te)) es = []"
      and "filter (\<lambda>e. \<not> tv_le (te_timeout e) (te_timeout te)) es = es"
      by (auto simp: filter_empty_conv)
    then show ?thesis
      using False Cons.prems tv_compare_pos [of b "te_timeout cur" "te_timeout te"] by simp
  qed
qed

lemma tl_sorted_insert:
  assumes "tl_sorted es" and "\<forall>e\<in>set es. tv_window b (te_timeout e)"
    and "tv_window b (te_timeout te)"
  shows "tl_sorted (tl_insert te es)"
proof -
  have "tv_le (te_timeout te) (te_timeout e)" if "\<not> tv_le (te_timeout e) (te_timeout te)" for e
    using that tv_le_total by blast
  moreover have "tv_le (te_timeout x) (te_timeout y)"
    if "tv_le (te_timeout x) (te_timeout te)" "\<not> tv_le (te_timeout y) (te_timeout te)" for x y
    using that tv_le_total tv_le_trans by blast
  ultimately show ?thesis
    unfolding tl_insert_spec [OF assms] using assms(1)
    by (auto simp: tl_sorted_def sorted_wrt_append sorted_wrt_filter)
qed

lemma mset_tl_insert: "mset (tl_insert te es) = add_mset te (mset es)"
  by (induction te es rule: tl_insert.induct) auto

lemma set_tl_insert [simp]: "set (tl_insert te es) = insert te (set es)"
  by (induction te es rule: tl_insert.induct) auto

lemma set_tl_remove: "set (tl_remove m es) \<subseteq> set es"
  by (induction m es rule: tl_remove.induct) auto

lemma msgs_tl_remove: "map te_msg (tl_remove m es) = remove1 m (map te_msg es)"
  by (induction m es rule: tl_remove.induct) auto

lemma tl_remove_absent: "m \<notin> te_msg ` set es \<Longrightarrow> tl_remove m es = es"
  by (induction m es rule: tl_remove.induct) auto

lemma tl_sorted_remove: "tl_sorted es \<Longrightarrow> tl_sorted (tl_remove m es)"
proof (induction m es rule: tl_remove.induct)
  case (2 m te es)
  then show ?case using set_tl_remove [of m es] by (auto simp: tl_sorted_def)
qed simp

definition tl_deadline :: "timeval \<Rightarrow> u32 \<Rightarrow> timer_list \<Rightarrow> timeval" where
  "tl_deadline now millis t =
     tv_add_millis now (if millis > mMaxTimeout t then mMaxTimeout t else millis)"

lemma tl_put_list:
  "mList (tl_put now m ms t) =
     tl_insert \<lparr>te_timeout = tl_deadline now ms t, te_msg = m\<rparr> (mList t)"
  by (simp add: tl_put_def tl_deadline_def Let_def)

lemma tl_max_unchanged [simp]:
  "mMaxTimeout (tl_put now m ms t) = mMaxTimeout t"
  "mMaxTimeout (tl_erase m t) = mMaxTimeout t"
  "mMaxTimeout (snd (tl_pop t)) = mMaxTimeout t"
  by (auto simp: tl_put_def tl_erase_def tl_pop_def Let_def split: list.splits)

lemma tl_deadline_window:
  assumes "tv_norm now" and "b \<le> tv_sec now" and "tv_sec now + 4296 < b + 2 ^ 31"
  shows "tv_window b (tl_deadline now ms t)"
  using assms tv_add_millis_sec [of now "if ms > mMaxTimeout t then mMaxTimeout t else ms"]
  unfolding tv_window_def tl_deadline_def
  by (intro conjI tv_add_millis_almost tv_norm_almost) linarith+

lemma tl_put_ok [ril_inv]:
  assumes "tl_ok b t" and "tv_norm now" and "b \<le> tv_sec now" and "tv_sec now + 4296 < b + 2 ^ 31"
  shows "tl_ok b (tl_put now m ms t)"
  using assms(1) tl_deadline_window [OF assms(2-4), of ms t]
  unfolding tl_ok_def tl_put_list
  by (auto intro: tl_sorted_insert)

lemma tl_erase_ok [ril_inv]: "tl_ok b t \<Longrightarrow> tl_ok b (tl_erase m t)"
  using set_tl_remove [of m "mList t"]
  by (auto simp: tl_ok_def tl_erase_def tl_sorted_remove)

lemma tl_pop_ok [ril_inv]: "tl_ok b t \<Longrightarrow> tl_ok b (snd (tl_pop t))"
  by (auto simp: tl_ok_def tl_pop_def tl_sorted_def split: list.splits)

lemma tl_init_ok [ril_inv]: "tl_ok b tl_init"
  by (simp add: tl_ok_def tl_init_def tl_sorted_def)

section \<open>The interface a service relies on\<close>

text \<open>
  A service re-arms the timer of a message by erasing it and putting it again, and consumes
  events with \<^verbatim>\<open>pop\<close>.  What it needs is how these change the messages that are
  waiting.
\<close>

definition tl_msgs :: "timer_list \<Rightarrow> addr option list" where
  "tl_msgs t = map te_msg (mList t)"

locale deadline_queue =
  fixes msgs :: "'q \<Rightarrow> 'm list"
    and put :: "'d \<Rightarrow> 'm \<Rightarrow> 'q \<Rightarrow> 'q"
    and erase :: "'m \<Rightarrow> 'q \<Rightarrow> 'q"
    and pop :: "'q \<Rightarrow> 'q"
  assumes msgs_put: "mset (msgs (put d m q)) = add_mset m (mset (msgs q))"
    and msgs_erase: "mset (msgs (erase m q)) = mset (msgs q) - {#m#}"
    and msgs_pop: "msgs (pop q) = tl (msgs q)"
begin

lemma set_put: "set (msgs (put d m q)) = insert m (set (msgs q))"
  using msgs_put [of d m q] by (metis set_mset_add_mset_insert set_mset_mset)

lemma erase_distinct: "distinct (msgs q) \<Longrightarrow> distinct (msgs (erase m q))"
proof -
  assume "distinct (msgs q)"
  then have "mset (msgs (erase m q)) = mset (remove1 m (msgs q))" by (simp add: msgs_erase)
  moreover have "distinct (remove1 m (msgs q))" using \<open>distinct (msgs q)\<close> by simp
  ultimately show ?thesis by (metis mset_eq_imp_distinct_iff)
qed

lemma set_erase: "distinct (msgs q) \<Longrightarrow> set (msgs (erase m q)) = set (msgs q) - {m}"
  using msgs_erase [of m q] by (metis mset_remove1 set_mset_mset set_remove1_eq)

lemma put_distinct: "distinct (msgs q) \<Longrightarrow> m \<notin> set (msgs q) \<Longrightarrow> distinct (msgs (put d m q))"
  using msgs_put [of d m q] by (metis distinct.simps(2) mset.simps(2) mset_eq_imp_distinct_iff)

lemma rearm_distinct: "distinct (msgs q) \<Longrightarrow> distinct (msgs (put d m (erase m q)))"
  by (simp add: put_distinct erase_distinct set_erase)

lemma rearm_set: "distinct (msgs q) \<Longrightarrow> set (msgs (put d m (erase m q))) = insert m (set (msgs q))"
  by (auto simp: set_put set_erase)

lemma pop_distinct: "distinct (msgs q) \<Longrightarrow> distinct (msgs (pop q))"
  by (simp add: msgs_pop distinct_tl)

end

interpretation tlq: deadline_queue tl_msgs "\<lambda>(now, ms) m t. tl_put now m ms t" tl_erase
  "\<lambda>t. snd (tl_pop t)"
proof (unfold_locales, goal_cases)
  case (1 d m q)
  then show ?case by (cases d) (simp add: tl_msgs_def tl_put_list mset_tl_insert)
next
  case (2 m q)
  then show ?case by (simp add: tl_msgs_def tl_erase_def msgs_tl_remove)
next
  case (3 q)
  then show ?case by (simp add: tl_msgs_def tl_pop_def split: list.split)
qed

lemmas tlq_put = tlq.set_put [of "(now, ms)" for now ms, simplified]
lemmas tlq_put_distinct = tlq.put_distinct [of _ _ "(now, ms)" for now ms, simplified]
lemmas tlq_rearm_distinct = tlq.rearm_distinct [of _ "(now, ms)" for now ms, simplified]
lemmas tlq_rearm_set = tlq.rearm_set [of _ "(now, ms)" for now ms, simplified]

section \<open>Properties\<close>

lemma tl_clamped_millis:
  assumes "mMaxTimeout t = MAX_TIMEOUT"
  shows "uint ((if ms > mMaxTimeout t then mMaxTimeout t else ms) * 1000) = 1000 * min (uint ms) 300000"
proof -
  have max: "MAX_TIMEOUT = (300000 :: u32)" by (simp add: MAX_TIMEOUT_def)
  show ?thesis
  proof (cases "ms > 300000")
    case True
    then have "300000 < uint ms" by (simp add: word_less_def)
    then show ?thesis using True by (simp add: assms max)
  next
    case False
    then have le: "uint ms \<le> 300000" by (simp add: word_less_def)
    then have "uint (ms * 1000) = uint ms * 1000" by (simp add: uint_word_ariths)
    then show ?thesis using False le by (simp add: assms max)
  qed
qed



text \<open>
  \<^verbatim>\<open>TimerList::pop\<close> takes the first event off the list, and no event that is
  left expires earlier.
\<close>

theorem timer_pop_earliest:
  assumes "tl_ok b t" and "mList t \<noteq> []"
  shows "mList t = fst (tl_pop t) # mList (snd (tl_pop t)) \<and>
    (\<forall>e\<in>set (mList (snd (tl_pop t))).
       tv_us (te_timeout (fst (tl_pop t))) \<le> tv_us (te_timeout e))"
proof -
  obtain e es where t: "mList t = e # es" using assms(2) by (cases "mList t") auto
  have "tv_us (te_timeout e) \<le> tv_us (te_timeout x)" if "x \<in> set es" for x
    using assms(1) that
    by (intro tv_le_us) (auto simp: tl_ok_def t tv_window_def tl_sorted_def)
  then show ?thesis by (simp add: tl_pop_def t)
qed

theorem timer_pop_earliest_witness:
  "fst (tl_pop (tl_put \<lparr>tv_sec = 7, tv_usec = 5\<rparr> (Some 3) 400000 tl_init)) =
   \<lparr>te_timeout = \<lparr>tv_sec = 307, tv_usec = 5\<rparr>, te_msg = Some 3\<rparr>"
  using timer_pop_earliest [of 0 "tl_put \<lparr>tv_sec = 7, tv_usec = 5\<rparr> (Some 3) 400000 tl_init"]
    tl_put_ok [OF tl_init_ok, of "\<lparr>tv_sec = 7, tv_usec = 5\<rparr>" 0]
  by (simp add: tl_put_def tl_init_def tl_pop_def MAX_TIMEOUT_def tv_add_millis_def tv_add_def
      Let_def tv_norm_def)

text \<open>
  Adding two normalised times never loses time, but the carry test of
  \<^verbatim>\<open>TimerList::add\<close> compares with \<open>>\<close>: the result is a normalised
  \<^verbatim>\<open>timeval\<close> exactly when the microseconds do not add up to one full second, and
  otherwise it holds the microsecond value 1000000.
\<close>

theorem timeval_add_carry:
  assumes "tv_norm l" and "tv_norm r"
  shows "tv_us (tv_add l r) = tv_us l + tv_us r \<and>
    (tv_norm (tv_add l r) \<longleftrightarrow> tv_usec l + tv_usec r \<noteq> 1000000) \<and>
    (tv_usec l + tv_usec r = 1000000 \<longrightarrow> tv_usec (tv_add l r) = 1000000)"
proof -
  have "tv_usec l + tv_usec r = 1000000 \<longrightarrow> tv_usec (tv_add l r) = 1000000"
    by (simp add: tv_add_def Let_def)
  with tv_add_norm_iff [OF assms] show ?thesis by simp
qed

theorem timeval_add_carry_witness:
  "\<not> tv_norm (tv_add \<lparr>tv_sec = 1, tv_usec = 400000\<rparr> \<lparr>tv_sec = 0, tv_usec = 600000\<rparr>)"
  using timeval_add_carry [of "\<lparr>tv_sec = 1, tv_usec = 400000\<rparr>" "\<lparr>tv_sec = 0, tv_usec = 600000\<rparr>"]
  by (simp add: tv_norm_def)

end
