(* ===== verification/Ril_Message.thy ===== *)
theory Ril_Message
  imports Rcm_Header Timer_List
begin

text \<open>
  \<^verbatim>\<open>sitril/core/message.cpp\<close>: the message that carries a request, a modem answer or an
  internal event to a service thread.  Owned objects (request data, modem data, user data) are
  values of the record, \<open>None\<close> is \<^verbatim>\<open>NULL\<close>, and a copy of the value is what the
  \<^verbatim>\<open>Clone\<close> methods make.  The destructor frees what the message owns, so deleting a
  message is dropping the record.  \<^verbatim>\<open>m_pInternalData\<close> is never set by this program and
  is left out.  Modem data is represented by its decoded header.
\<close>

datatype direction = REQUEST | RESPONSE | INTERNAL | ASYNC_REQUEST | DIR_INVALID

datatype async_status =
  ASYNC_NONE | ASYNC_INITIATED | ASYNC_PROCESSING | ASYNC_SENT2CP | ASYNC_RESPONSE

text \<open>A RIL request: its id, the token of the caller, and the payload of a raw request.\<close>

record request_data =
  rq_id :: int
  rq_token :: nat
  rq_raw :: "u8 list option"

record modem_data =
  md_type :: u32
  md_id :: u32
  md_tok :: u32
  md_err :: int

datatype ril_data = RilDataInts "int list" | RilDataStrings "string option list"

record message =
  m_nSvcId :: int
  m_nMsgId :: int
  m_nTimeout :: int
  m_nDirection :: direction
  m_pReqData :: "request_data option"
  m_pModemData :: "modem_data option"
  m_pUserData :: "ril_data option"
  m_nAsyncMsgReqStatus :: async_status
  m_tAsyncMsgReqStartTv :: timeval

text \<open>The header view of raw modem data; \<open>None\<close> when reading it leaves the buffer.\<close>

definition md_decode :: "modem_raw \<Rightarrow> modem_data option" where
  "md_decode m = do {
     t \<leftarrow> md_GetType m; i \<leftarrow> md_GetId m; k \<leftarrow> md_GetToken m;
     Some \<lparr>md_type = t, md_id = i, md_tok = k, md_err = resp_GetErrorCode m\<rparr> }"

definition mdh_IsSolicitedResponse :: "modem_data \<Rightarrow> bool" where
  "mdh_IsSolicitedResponse md \<longleftrightarrow> md_type md = ucast RCM_TYPE_RESPONSE"

definition mdh_IsUnsolicitedResponse :: "modem_data \<Rightarrow> bool" where
  "mdh_IsUnsolicitedResponse md \<longleftrightarrow> md_type md = ucast RCM_TYPE_INDICATION"

definition msg_new ::
  "int \<Rightarrow> int \<Rightarrow> direction \<Rightarrow> request_data option \<Rightarrow> modem_data option \<Rightarrow> message" where
  "msg_new svc mid d rq md =
     \<lparr>m_nSvcId = svc, m_nMsgId = mid, m_nTimeout = 0, m_nDirection = d, m_pReqData = rq,
      m_pModemData = md, m_pUserData = None, m_nAsyncMsgReqStatus = ASYNC_NONE,
      m_tAsyncMsgReqStartTv = \<lparr>tv_sec = 0, tv_usec = 0\<rparr>\<rparr>"

definition msg_default :: message where
  "msg_default = msg_new (-1) (-1) REQUEST None None"

definition msg_GetToken :: "message \<Rightarrow> u32" where
  "msg_GetToken m = (case m_pModemData m of None \<Rightarrow> TOKEN_INVALID | Some md \<Rightarrow> md_tok md)"

definition msg_SetModemData :: "modem_data option \<Rightarrow> message \<Rightarrow> message" where
  "msg_SetModemData md m = m\<lparr>m_pModemData := md\<rparr>"

definition msg_SetUserData :: "ril_data option \<Rightarrow> message \<Rightarrow> message" where
  "msg_SetUserData u m = m\<lparr>m_pUserData := u\<rparr>"

text \<open>\<^verbatim>\<open>Clone\<close> starts from a fresh message: the timeout and the async status are reset.\<close>

definition msg_Clone :: "message \<Rightarrow> message" where
  "msg_Clone m =
     (msg_new (m_nSvcId m) (m_nMsgId m) (m_nDirection m) None None)
       \<lparr>m_pReqData := m_pReqData m, m_pModemData := m_pModemData m, m_pUserData := m_pUserData m\<rparr>"

text \<open>Assignment copies everything but the timeout and the async fields of the target.\<close>

definition msg_assign :: "message \<Rightarrow> message \<Rightarrow> message" where
  "msg_assign self rhs =
     self\<lparr>m_nSvcId := m_nSvcId rhs, m_nMsgId := m_nMsgId rhs, m_nDirection := m_nDirection rhs,
          m_pReqData := m_pReqData rhs, m_pModemData := m_pModemData rhs,
          m_pUserData := m_pUserData rhs\<rparr>"

definition msg_ObtainRequest :: "request_data \<Rightarrow> int \<Rightarrow> int \<Rightarrow> message" where
  "msg_ObtainRequest rq svc mid = msg_new svc mid REQUEST (Some rq) None"

definition msg_ObtainResponse :: "modem_data \<Rightarrow> int \<Rightarrow> int \<Rightarrow> message" where
  "msg_ObtainResponse md svc mid = msg_new svc mid RESPONSE None (Some md)"

definition msg_ObtainSystem :: "int \<Rightarrow> ril_data option \<Rightarrow> message" where
  "msg_ObtainSystem mid u = msg_SetUserData u (msg_new 0 mid INTERNAL None None)"

definition msg_ObtainInternal :: "ril_data option \<Rightarrow> int \<Rightarrow> int \<Rightarrow> message" where
  "msg_ObtainInternal u svc mid = msg_SetUserData u (msg_new svc mid INTERNAL None None)"

definition msg_SetAsyncMsgReqStartTime :: "timeval \<Rightarrow> message \<Rightarrow> message" where
  "msg_SetAsyncMsgReqStartTime now m = m\<lparr>m_tAsyncMsgReqStartTv := now\<rparr>"

definition MsgDirectionToString :: "direction \<Rightarrow> string" where
  "MsgDirectionToString d =
     (case d of REQUEST \<Rightarrow> ''Request'' | RESPONSE \<Rightarrow> ''Response'' | INTERNAL \<Rightarrow> ''Internal''
      | ASYNC_REQUEST \<Rightarrow> ''Async Request'' | DIR_INVALID \<Rightarrow> ''<unknown msg direction>'')"

lemma msg_GetToken_cleared [simp]: "msg_GetToken (msg_SetModemData None m) = TOKEN_INVALID"
  by (simp add: msg_GetToken_def msg_SetModemData_def)

lemma msg_new_simps [simp]:
  "m_nDirection (msg_new svc mid d rq md) = d" "m_pReqData (msg_new svc mid d rq md) = rq"
  "m_pModemData (msg_new svc mid d rq md) = md" "m_pUserData (msg_new svc mid d rq md) = None"
  "m_nAsyncMsgReqStatus (msg_new svc mid d rq md) = ASYNC_NONE"
  "m_nSvcId (msg_new svc mid d rq md) = svc" "m_nMsgId (msg_new svc mid d rq md) = mid"
  by (simp_all add: msg_new_def)

lemma msg_SetModemData_simps [simp]:
  "m_nDirection (msg_SetModemData md m) = m_nDirection m"
  "m_pReqData (msg_SetModemData md m) = m_pReqData m"
  "m_pModemData (msg_SetModemData md m) = md"
  "m_nAsyncMsgReqStatus (msg_SetModemData md m) = m_nAsyncMsgReqStatus m"
  by (simp_all add: msg_SetModemData_def)

text \<open>A complete raw message always decodes, and its token is the one the builder wrote.\<close>

lemma md_decode_request:
  "md_decode (md_new (rcm_bytes h @ ps) tx) =
     Some \<lparr>md_type = ucast (h_type h), md_id = ucast (h_id h),
           md_tok = (if h_type h = RCM_TYPE_REQUEST \<or> h_type h = RCM_TYPE_RESPONSE
                     then h_token h else TOKEN_INVALID),
           md_err = resp_GetErrorCode (md_new (rcm_bytes h @ ps) tx)\<rparr>"
  by (simp add: md_decode_def md_GetType_def md_GetId_def md_GetToken_def rcm_bytes_type
      rcm_bytes_id rcm_bytes_token)

end
