(* ===== verification/Wait_List.thy ===== *)
theory Wait_List
  imports Token_Gen
begin

text \<open>
  \<^verbatim>\<open>sitril/core/waitlist.cpp\<close>: the record of requests that wait for an answer from
  the modem, keyed by token.  \<^verbatim>\<open>std::map\<close> is the sorted association list of the
  prelude.  Every operation holds the list's lock for its whole body, so each is one step.
\<close>

record history_record =
  hr_token :: u32
  hr_src :: u32
  hr_dest :: u32
  hr_result :: u32

record wait_list =
  m_nSize :: int
  m_history :: "(u32 \<times> history_record) list"

text \<open>The constructor with its default token: the other fields are \<^verbatim>\<open>(UINT)-1\<close>.\<close>

definition hr_default :: history_record where
  "hr_default = \<lparr>hr_token = TOKEN_INVALID, hr_src = -1, hr_dest = -1, hr_result = -1\<rparr>"

definition hr_IsValid :: "history_record \<Rightarrow> bool" where
  "hr_IsValid r \<longleftrightarrow> hr_token r \<noteq> TOKEN_INVALID"

definition hr_newInstance :: "u32 \<Rightarrow> u32 \<Rightarrow> u32 \<Rightarrow> u32 \<Rightarrow> history_record" where
  "hr_newInstance src dest tok res =
     (if tok \<noteq> TOKEN_INVALID
      then \<lparr>hr_token = tok, hr_src = src, hr_dest = dest, hr_result = res\<rparr>
      else hr_default)"

definition wl_new :: wait_list where
  "wl_new = \<lparr>m_nSize = 0, m_history = []\<rparr>"

definition wl_Push :: "history_record \<Rightarrow> wait_list \<Rightarrow> wait_list" where
  "wl_Push r w =
     (let tok = hr_token r
      in if tok \<noteq> TOKEN_INVALID
         then w\<lparr>m_history := sm_put tok r (m_history w), m_nSize := m_nSize w + 1\<rparr>
         else w)"

definition wl_Remove :: "u32 \<Rightarrow> wait_list \<Rightarrow> wait_list" where
  "wl_Remove tok w =
     (if sm_find (m_history w) tok \<noteq> None
      then w\<lparr>m_history := sm_erase tok (m_history w), m_nSize := m_nSize w - 1\<rparr>
      else w)"

definition wl_Clear :: "wait_list \<Rightarrow> wait_list" where
  "wl_Clear w = (if m_nSize w > 0 then w\<lparr>m_history := [], m_nSize := 0\<rparr> else w)"

definition wl_Contains :: "u32 \<Rightarrow> wait_list \<Rightarrow> bool" where
  "wl_Contains tok w \<longleftrightarrow> sm_find (m_history w) tok \<noteq> None"

definition wl_Contains_record :: "history_record \<Rightarrow> wait_list \<Rightarrow> bool" where
  "wl_Contains_record r w = wl_Contains (hr_token r) w"

definition wl_Find :: "u32 \<Rightarrow> wait_list \<Rightarrow> history_record" where
  "wl_Find tok w = (case sm_find (m_history w) tok of None \<Rightarrow> hr_default | Some r \<Rightarrow> r)"

section \<open>Invariant\<close>

text \<open>
  Keys increase, each record is stored under its own token, no record carries the invalid token,
  and the counter \<^verbatim>\<open>m_nSize\<close> is at least the number of entries.  Equality does not
  hold: \<^verbatim>\<open>Push\<close> counts an overwritten entry twice.
\<close>

definition wl_inv :: "wait_list \<Rightarrow> bool" where
  "wl_inv w \<longleftrightarrow> sm_wf (m_history w) \<and>
     (\<forall>(k, r)\<in>set (m_history w). k = hr_token r \<and> k \<noteq> TOKEN_INVALID) \<and>
     int (length (m_history w)) \<le> m_nSize w"

lemma length_sm_put: "length (sm_put k v m) \<le> Suc (length m)"
  by (induction k v m rule: sm_put.induct) auto

lemma length_sm_put_fresh: "sm_find m k = None \<Longrightarrow> length (sm_put k v m) = Suc (length m)"
  by (induction k v m rule: sm_put.induct) (auto split: if_splits)

lemma length_sm_put_present:
  "sm_wf m \<Longrightarrow> sm_find m k \<noteq> None \<Longrightarrow> length (sm_put k v m) = length m"
  by (induction k v m rule: sm_put.induct) (fastforce split: if_splits dest: sm_find_in)+

lemma length_sm_erase: "sm_find m k \<noteq> None \<Longrightarrow> Suc (length (sm_erase k m)) = length m"
  by (induction k m rule: sm_erase.induct) (auto split: if_splits)

lemma wl_new_inv [ril_inv]: "wl_inv wl_new"
  by (simp add: wl_inv_def wl_new_def)

lemma wl_Push_inv [ril_inv]: "wl_inv w \<Longrightarrow> wl_inv (wl_Push r w)"
  using set_sm_put [of "hr_token r" r "m_history w"] length_sm_put [of "hr_token r" r "m_history w"]
  by (auto simp: wl_inv_def wl_Push_def Let_def sm_put_wf)

lemma wl_Remove_inv [ril_inv]:
  assumes "wl_inv w"
  shows "wl_inv (wl_Remove t w)"
proof (cases "sm_find (m_history w) t")
  case None
  then show ?thesis using assms by (simp add: wl_Remove_def)
next
  case (Some r)
  then have "Suc (length (sm_erase t (m_history w))) = length (m_history w)"
    by (simp add: length_sm_erase)
  moreover have "set (sm_erase t (m_history w)) \<subseteq> set (m_history w)"
    by (rule set_sm_erase_subset)
  ultimately show ?thesis using assms Some
    by (auto simp: wl_inv_def wl_Remove_def sm_erase_wf)
qed

lemma wl_Clear_inv [ril_inv]: "wl_inv w \<Longrightarrow> wl_inv (wl_Clear w)"
  by (auto simp: wl_inv_def wl_Clear_def)

lemma wl_inv_find:
  "wl_inv w \<Longrightarrow> sm_find (m_history w) t = Some r \<Longrightarrow> hr_token r = t \<and> t \<noteq> TOKEN_INVALID"
  by (drule sm_find_in) (auto simp: wl_inv_def)

lemma wl_Find_valid_iff: "wl_inv w \<Longrightarrow> hr_IsValid (wl_Find t w) \<longleftrightarrow> wl_Contains t w"
  by (cases "sm_find (m_history w) t")
    (auto simp: wl_Find_def wl_Contains_def hr_default_def hr_IsValid_def dest: wl_inv_find)

lemma wl_Find_token: "wl_inv w \<Longrightarrow> wl_Contains t w \<Longrightarrow> hr_token (wl_Find t w) = t"
  by (auto simp: wl_Find_def wl_Contains_def dest: wl_inv_find)

lemma wl_Contains_invalid: "wl_inv w \<Longrightarrow> \<not> wl_Contains TOKEN_INVALID w"
  using wl_inv_find by (fastforce simp: wl_Contains_def)

lemma wl_Find_Push:
  "wl_inv w \<Longrightarrow> hr_IsValid r \<Longrightarrow>
   wl_Find t (wl_Push r w) = (if t = hr_token r then r else wl_Find t w)"
  by (simp add: wl_Find_def wl_Push_def hr_IsValid_def Let_def)

lemma wl_Push_invalid: "\<not> hr_IsValid r \<Longrightarrow> wl_Push r w = w"
  by (simp add: wl_Push_def hr_IsValid_def Let_def)

lemma wl_Find_Remove:
  "wl_inv w \<Longrightarrow> wl_Find t (wl_Remove u w) = (if t = u then hr_default else wl_Find t w)"
  by (auto simp: wl_Find_def wl_Remove_def wl_inv_def sm_find_erase)

lemma wl_Contains_Remove:
  "wl_inv w \<Longrightarrow> wl_Contains t (wl_Remove u w) \<longleftrightarrow> t \<noteq> u \<and> wl_Contains t w"
  by (auto simp: wl_Contains_def wl_Remove_def wl_inv_def sm_find_erase)

lemma wl_Contains_Push:
  "wl_inv w \<Longrightarrow> wl_Contains t (wl_Push r w) \<longleftrightarrow> hr_IsValid r \<and> t = hr_token r \<or> wl_Contains t w"
  by (auto simp: wl_Contains_def wl_Push_def hr_IsValid_def Let_def)

lemma wl_Clear_empty: "wl_inv w \<Longrightarrow> m_history (wl_Clear w) = []"
  by (cases "m_history w") (auto simp: wl_inv_def wl_Clear_def)

section \<open>The interface of a pending-request register\<close>

text \<open>
  The RIL context uses the list as a register: record a request when it is sent, look its record
  up when an answer arrives, and forget it.  Its own lemmas need only these laws.
\<close>

locale pending_register =
  fixes push :: "'r \<Rightarrow> 'w \<Rightarrow> 'w"
    and remove :: "'t \<Rightarrow> 'w \<Rightarrow> 'w"
    and find :: "'t \<Rightarrow> 'w \<Rightarrow> 'r"
    and valid :: "'r \<Rightarrow> bool"
    and tok :: "'r \<Rightarrow> 't"
    and none :: 'r
    and inv :: "'w \<Rightarrow> bool"
  assumes inv_push: "inv w \<Longrightarrow> inv (push r w)"
    and inv_remove: "inv w \<Longrightarrow> inv (remove t w)"
    and find_push: "inv w \<Longrightarrow> valid r \<Longrightarrow> find t (push r w) = (if t = tok r then r else find t w)"
    and find_remove: "inv w \<Longrightarrow> find t (remove u w) = (if t = u then none else find t w)"
    and none_invalid: "\<not> valid none"
begin

lemma find_after_push: "inv w \<Longrightarrow> valid r \<Longrightarrow> find (tok r) (push r w) = r"
  by (simp add: find_push)

lemma consumed_once: "inv w \<Longrightarrow> \<not> valid (find t (remove t w))"
  by (simp add: find_remove none_invalid)

lemma others_kept: "inv w \<Longrightarrow> valid r \<Longrightarrow> t \<noteq> tok r \<Longrightarrow> find t (remove (tok r) (push r w)) = find t w"
  by (simp add: find_remove find_push inv_push)

end

interpretation wlr: pending_register wl_Push wl_Remove wl_Find hr_IsValid hr_token hr_default wl_inv
  by unfold_locales
    (simp_all add: wl_Push_inv wl_Remove_inv wl_Find_Push wl_Find_Remove hr_default_def hr_IsValid_def)

section \<open>Properties\<close>

text \<open>The operations as data, for statements about whole histories of calls.\<close>

datatype wl_op = WPush history_record | WRemove u32 | WClear

fun wl_apply :: "wl_op \<Rightarrow> wait_list \<Rightarrow> wait_list" where
  "wl_apply (WPush r) w = wl_Push r w"
| "wl_apply (WRemove t) w = wl_Remove t w"
| "wl_apply WClear w = wl_Clear w"

lemma wl_apply_inv: "wl_inv w \<Longrightarrow> wl_inv (wl_apply op w)"
  by (cases op) (simp_all add: ril_inv)

lemma fold_wl_apply_inv: "wl_inv w \<Longrightarrow> wl_inv (fold wl_apply ops w)"
  by (induction ops arbitrary: w) (simp_all add: wl_apply_inv)

text \<open>
  After any sequence of \<^verbatim>\<open>Push\<close>, \<^verbatim>\<open>Remove\<close> and \<^verbatim>\<open>Clear\<close> calls
  on a new wait list, every stored record sits under its own token, the invalid token is absent,
  the counter \<^verbatim>\<open>m_nSize\<close> is never below the number of entries, and therefore
  \<^verbatim>\<open>Clear\<close>, which looks at the counter only, really empties the list.
\<close>

theorem wait_list_history_invariant:
  "wl_inv (fold wl_apply ops wl_new) \<and>
   m_history (wl_Clear (fold wl_apply ops wl_new)) = [] \<and>
   \<not> wl_Contains TOKEN_INVALID (fold wl_apply ops wl_new)"
  using fold_wl_apply_inv [OF wl_new_inv, of ops] wl_Clear_empty wl_Contains_invalid by blast

text \<open>
  The counter is not the size: pushing a second record with a token that is already present
  replaces the record and still increments \<^verbatim>\<open>m_nSize\<close>.
\<close>

theorem wait_list_push_overwrite_counts:
  assumes "wl_inv w" and "wl_Contains (hr_token r) w"
  shows "length (m_history (wl_Push r w)) = length (m_history w) \<and>
    m_nSize (wl_Push r w) = m_nSize w + 1 \<and> wl_Find (hr_token r) (wl_Push r w) = r"
proof -
  have tok: "hr_token r \<noteq> TOKEN_INVALID" using assms wl_Contains_invalid by metis
  have "length (sm_put (hr_token r) r (m_history w)) = length (m_history w)"
    using assms by (intro length_sm_put_present) (simp_all add: wl_inv_def wl_Contains_def)
  then show ?thesis using tok by (simp add: wl_Push_def wl_Find_def Let_def)
qed

theorem wait_list_push_overwrite_counts_witness:
  "m_nSize (wl_Push (hr_newInstance 1 1 7 2) (wl_Push (hr_newInstance 5 5 7 9) wl_new)) = 2"
proof -
  let ?w = "wl_Push (hr_newInstance 5 5 7 9) wl_new"
  have inv: "wl_inv ?w" by (intro ril_inv)
  have "wl_Contains (hr_token (hr_newInstance 1 1 7 2)) ?w"
    by (simp add: wl_Contains_def wl_Push_def hr_newInstance_def wl_new_def TOKEN_INVALID_def)
  from wait_list_push_overwrite_counts [OF inv this] show ?thesis
    by (simp add: wl_Push_def hr_newInstance_def wl_new_def TOKEN_INVALID_def)
qed

end
