(* ===== verification/Service.thy ===== *)
theory Service
  imports Ril_Message Wait_List
begin

text \<open>
  \<^verbatim>\<open>sitril/core/service.cpp\<close>: the base class of every RIL service.  A service owns
  four message queues, the request it is working on, a timer list, a pipe that wakes its thread,
  and the register of asynchronous requests.

  Messages live in a heap indexed by addresses, so that deletion and dangling pointers are
  visible: dereferencing or deleting an address that is not allocated sets the flag
  \<open>sv_ub\<close> (undefined behaviour) and is what the safety theorems exclude.  Calls into the RIL
  context and the virtual notification methods are recorded in order in \<open>sv_out\<close>.  What a
  derived class does inside its \<^verbatim>\<open>OnHandle...\<close> methods and notification methods is
  a parameter: a script of calls to the protected interface of \<^verbatim>\<open>Service\<close> and a
  result.  The clock and the outcome of system calls are fixed for the handling of one message.
\<close>

section \<open>State\<close>

datatype service_state = UNAVAILABLE | CREATED | STARTED | DESTROYED

datatype callback =
    OnRadioStateChanged int | OnRadioAvailable | OnRadioNotAvailable | OnRadioOn
  | OnRadioOffOrNotAvailable | OnSimStatusChanged int int | OnImsiUpdated "string option"
  | OnImsiUpdatedAid "string option" "string option" | OnReset | OnVoiceRegistrationStateChanged int
  | OnDataRegistrationStateChanged int | OnDataCallStateChanged int bool | OnServiceStateChanged
  | OnModemStateChanged int | OnModemOnline | OnModemOffline | OnDestroy

datatype out_event =
    OComplete request_data int
  | OTimeout request_data u32
  | OClearGarbage u32
  | OAck nat
  | OUnsol int
  | OSend modem_data u32 u32 bool
  | OSendRaw modem_data bool
  | OModemDump u32
  | OArmTimer u32 int int
  | OCallback callback

record service =
  sv_id :: u32
  sv_state :: service_state
  sv_inited :: bool
  sv_ctx :: bool
  sv_curReqId :: u32
  sv_voice :: int
  sv_data :: int
  sv_radio :: int
  sv_modem :: int
  sv_cur :: "addr option"
  sv_reqQ :: "addr list"
  sv_respQ :: "addr list"
  sv_intQ :: "addr list"
  sv_asyncQ :: "addr list"
  sv_timers :: timer_list
  sv_nr :: u32
  sv_asyncTok :: u32
  sv_hist :: "(u32 \<times> addr) list option"
  sv_asyncTimers :: "(u32 \<times> nat) list"
  sv_pipe :: "direction list option"
  sv_heap :: "addr \<rightharpoonup> message"
  sv_out :: "out_event list"
  sv_ub :: bool

text \<open>The environment of one call: the clock and the outcome of system calls.\<close>

record env =
  e_now :: timeval
  e_send :: bool
  e_pipe :: bool
  e_thread :: bool
  e_timer :: "nat option"
  e_radio :: int
  e_uicc :: int
  e_create :: int
  e_tok :: u32

definition RADIO_STATE_OFF :: int where "RADIO_STATE_OFF = 0"
definition RADIO_STATE_UNAVAILABLE :: int where "RADIO_STATE_UNAVAILABLE = 1"
definition RADIO_STATE_ON :: int where "RADIO_STATE_ON = 10"
definition NOT_REGISTERED :: int where "NOT_REGISTERED = 0"
definition REGISTERED_HOME :: int where "REGISTERED_HOME = 1"
definition REGISTERED_ROAMING :: int where "REGISTERED_ROAMING = 5"
definition MS_OFFLINE :: int where "MS_OFFLINE = 0"
definition MS_ONLINE :: int where "MS_ONLINE = 4"
definition MAX_NR_COUNT :: u32 where "MAX_NR_COUNT = 3"

lemmas radio_states = RADIO_STATE_OFF_def RADIO_STATE_UNAVAILABLE_def RADIO_STATE_ON_def

definition MSG_SYSTEM_RADIO_STATE_CHANGED :: int where
  "MSG_SYSTEM_RADIO_STATE_CHANGED = 0x101"
definition MSG_SYSTEM_VOICE_REGISTRTION_STATE_CHANGED :: int where
  "MSG_SYSTEM_VOICE_REGISTRTION_STATE_CHANGED = 0x102"
definition MSG_SYSTEM_DATA_REGISTRTION_STATE_CHANGED :: int where
  "MSG_SYSTEM_DATA_REGISTRTION_STATE_CHANGED = 0x103"
definition MSG_SYSTEM_SERVICE_TATE_CHANGED :: int where
  "MSG_SYSTEM_SERVICE_TATE_CHANGED = 0x104"
definition MSG_SYSTEM_SIM_STATUS_CHANGED :: int where
  "MSG_SYSTEM_SIM_STATUS_CHANGED = 0x105"
definition MSG_SYSTEM_IMSI_UPDATED :: int where
  "MSG_SYSTEM_IMSI_UPDATED = 0x106"
definition MSG_SYSTEM_RESET :: int where
  "MSG_SYSTEM_RESET = 0x107"
definition MSG_SYSTEM_DATA_CALL_STATE_CHANGED :: int where
  "MSG_SYSTEM_DATA_CALL_STATE_CHANGED = 0x108"
definition MSG_SYSTEM_MODEM_STATE_CHANGED :: int where
  "MSG_SYSTEM_MODEM_STATE_CHANGED = 0x109"

text \<open>The constructor.\<close>

definition sv_new :: "u32 \<Rightarrow> bool \<Rightarrow> service" where
  "sv_new sid ctx =
     \<lparr>sv_id = sid, sv_state = UNAVAILABLE, sv_inited = False, sv_ctx = ctx, sv_curReqId = 0,
      sv_voice = NOT_REGISTERED, sv_data = NOT_REGISTERED, sv_radio = RADIO_STATE_UNAVAILABLE,
      sv_modem = MS_OFFLINE, sv_cur = None, sv_reqQ = [], sv_respQ = [], sv_intQ = [],
      sv_asyncQ = [], sv_timers = tl_init, sv_nr = 0, sv_asyncTok = TOKEN_INVALID, sv_hist = None,
      sv_asyncTimers = [], sv_pipe = None, sv_heap = Map.empty, sv_out = [], sv_ub = False\<rparr>"

section \<open>Memory and effects\<close>

definition sv_emit :: "out_event \<Rightarrow> service \<Rightarrow> service" where
  "sv_emit ev s = s\<lparr>sv_out := sv_out s @ [ev]\<rparr>"

definition sv_fault :: "service \<Rightarrow> service" where
  "sv_fault s = s\<lparr>sv_ub := True\<rparr>"

definition sv_deref :: "addr \<Rightarrow> service \<Rightarrow> message" where
  "sv_deref a s = (case sv_heap s a of Some m \<Rightarrow> m | None \<Rightarrow> msg_default)"

definition sv_touch :: "addr \<Rightarrow> service \<Rightarrow> service" where
  "sv_touch a s = (if sv_heap s a = None then sv_fault s else s)"

definition sv_update :: "addr \<Rightarrow> (message \<Rightarrow> message) \<Rightarrow> service \<Rightarrow> service" where
  "sv_update a f s =
     (case sv_heap s a of None \<Rightarrow> sv_fault s
      | Some m \<Rightarrow> s\<lparr>sv_heap := (sv_heap s)(a \<mapsto> f m)\<rparr>)"

definition sv_delete :: "addr \<Rightarrow> service \<Rightarrow> service" where
  "sv_delete a s =
     (if sv_heap s a = None then sv_fault s else s\<lparr>sv_heap := (sv_heap s)(a := None)\<rparr>)"

text \<open>A call through \<^verbatim>\<open>m_pRilContext\<close> that the source does not guard.\<close>

definition sv_ctx_emit :: "out_event \<Rightarrow> service \<Rightarrow> service" where
  "sv_ctx_emit ev s = (if sv_ctx s then sv_emit ev s else sv_fault s)"

text \<open>\<^verbatim>\<open>RilContext::OnRequestComplete(req, ...)\<close> ignores a \<^verbatim>\<open>NULL\<close> request.\<close>

definition sv_complete :: "request_data option \<Rightarrow> int \<Rightarrow> service \<Rightarrow> service" where
  "sv_complete rq res s = (case rq of None \<Rightarrow> s | Some r \<Rightarrow> sv_emit (OComplete r res) s)"

section \<open>The register of asynchronous requests\<close>

definition hist_Push :: "u32 \<Rightarrow> addr option \<Rightarrow> (u32 \<times> addr) list \<Rightarrow> bool \<times> (u32 \<times> addr) list" where
  "hist_Push tok pm h =
     (case pm of
        None \<Rightarrow> (False, h)
      | Some a \<Rightarrow>
          (if tok \<noteq> TOKEN_INVALID
           then (sm_find h tok = None, sm_insert tok a h) else (False, h)))"

definition hist_GetBegin :: "(u32 \<times> addr) list \<Rightarrow> u32" where
  "hist_GetBegin h = (case h of [] \<Rightarrow> TOKEN_INVALID | (k, _) # _ \<Rightarrow> k)"

definition hist_Remove :: "u32 \<Rightarrow> (u32 \<times> addr) list \<Rightarrow> (u32 \<times> addr) list" where
  "hist_Remove tok h = (if h \<noteq> [] \<and> tok \<noteq> TOKEN_INVALID then sm_erase tok h else h)"

definition hist_Find :: "u32 \<Rightarrow> (u32 \<times> addr) list \<Rightarrow> addr option" where
  "hist_Find tok h = (if h \<noteq> [] \<and> tok \<noteq> TOKEN_INVALID then sm_find h tok else None)"

fun hist_IsReqInQueue :: "service \<Rightarrow> u32 \<Rightarrow> (u32 \<times> addr) list \<Rightarrow> bool" where
  "hist_IsReqInQueue s rid [] = False"
| "hist_IsReqInQueue s rid ((k, a) # h) =
     (case m_pReqData (sv_deref a s) of
        Some r \<Rightarrow> if word_of_int (rq_id r) = rid then True else hist_IsReqInQueue s rid h
      | None \<Rightarrow> hist_IsReqInQueue s rid h)"

text \<open>
  The absolute timeout of a message: start time plus timeout.  C division truncates; the timeouts
  in use are positive, where both agree.
\<close>

definition hist_deadline :: "message \<Rightarrow> timeval" where
  "hist_deadline m =
     \<lparr>tv_sec = tv_sec (m_tAsyncMsgReqStartTv m) + sgn (m_nTimeout m) * (\<bar>m_nTimeout m\<bar> div 1000),
      tv_usec = tv_usec (m_tAsyncMsgReqStartTv m) +
        sgn (m_nTimeout m) * (\<bar>m_nTimeout m\<bar> mod 1000) * 1000\<rparr>"

fun hist_earliest ::
  "service \<Rightarrow> (u32 \<times> addr) list \<Rightarrow> (addr \<times> timeval \<times> u32) option \<Rightarrow> (addr \<times> timeval \<times> u32) option" where
  "hist_earliest s [] best = best"
| "hist_earliest s ((k, a) # h) best =
     (if m_nAsyncMsgReqStatus (sv_deref a s) = ASYNC_SENT2CP
      then let tv = hist_deadline (sv_deref a s) in
        (case best of
           None \<Rightarrow> hist_earliest s h (Some (a, tv, k))
         | Some (b, btv, bk) \<Rightarrow>
             if tv_sec btv > tv_sec tv \<or> tv_sec btv = tv_sec tv \<and> tv_usec btv > tv_usec tv
             then hist_earliest s h (Some (a, tv, k))
             else hist_earliest s h best)
      else hist_earliest s h best)"

definition hist_GetReqMsgForEarlistTimeOut ::
  "service \<Rightarrow> (u32 \<times> addr) list \<Rightarrow> (addr \<times> timeval \<times> u32) option" where
  "hist_GetReqMsgForEarlistTimeOut s h = hist_earliest s h None"

fun sv_delete_all :: "addr list \<Rightarrow> service \<Rightarrow> service" where
  "sv_delete_all [] s = s"
| "sv_delete_all (a # as) s = sv_delete_all as (sv_delete a s)"

definition sv_hist_Clear :: "service \<Rightarrow> service" where
  "sv_hist_Clear s =
     (case sv_hist s of None \<Rightarrow> sv_fault s
      | Some h \<Rightarrow> (sv_delete_all (map snd h) s)\<lparr>sv_hist := Some []\<rparr>)"

section \<open>Queues and the wake-up pipe\<close>

definition sv_ClearMessageQueue :: "service \<Rightarrow> service" where
  "sv_ClearMessageQueue s =
     (sv_delete_all (sv_reqQ s @ sv_respQ s @ sv_intQ s @ sv_asyncQ s) s)
       \<lparr>sv_reqQ := [], sv_respQ := [], sv_intQ := [], sv_asyncQ := []\<rparr>"

text \<open>Reopening the pipe loses the notifications that were not read yet.\<close>

definition sv_OpenMessagePipe :: "env \<Rightarrow> service \<Rightarrow> int \<times> service" where
  "sv_OpenMessagePipe e s =
     (if e_pipe e then (0, s\<lparr>sv_pipe := Some []\<rparr>) else (-1, s\<lparr>sv_pipe := None\<rparr>))"

definition sv_EnQueue :: "addr option \<Rightarrow> service \<Rightarrow> int \<times> service" where
  "sv_EnQueue pm s =
     (case pm of
        None \<Rightarrow> (-1, s)
      | Some a \<Rightarrow>
         (let s = sv_touch a s in
          case m_nDirection (sv_deref a s) of
            REQUEST \<Rightarrow> (0, s\<lparr>sv_reqQ := sv_reqQ s @ [a]\<rparr>)
          | RESPONSE \<Rightarrow> (0, s\<lparr>sv_respQ := sv_respQ s @ [a]\<rparr>)
          | INTERNAL \<Rightarrow> (0, s\<lparr>sv_intQ := sv_intQ s @ [a]\<rparr>)
          | ASYNC_REQUEST \<Rightarrow> (0, s\<lparr>sv_asyncQ := sv_asyncQ s @ [a]\<rparr>)
          | DIR_INVALID \<Rightarrow> (-1, s)))"

definition sv_reqDeQ :: "service \<Rightarrow> addr option \<times> service" where
  "sv_reqDeQ s = (case sv_reqQ s of [] \<Rightarrow> (None, s) | a # as \<Rightarrow> (Some a, s\<lparr>sv_reqQ := as\<rparr>))"

definition sv_respDeQ :: "service \<Rightarrow> addr option \<times> service" where
  "sv_respDeQ s = (case sv_respQ s of [] \<Rightarrow> (None, s) | a # as \<Rightarrow> (Some a, s\<lparr>sv_respQ := as\<rparr>))"

definition sv_internalDeQ :: "service \<Rightarrow> addr option \<times> service" where
  "sv_internalDeQ s = (case sv_intQ s of [] \<Rightarrow> (None, s) | a # as \<Rightarrow> (Some a, s\<lparr>sv_intQ := as\<rparr>))"

definition sv_asycMsgReqDeQ :: "service \<Rightarrow> addr option \<times> service" where
  "sv_asycMsgReqDeQ s =
     (case sv_asyncQ s of [] \<Rightarrow> (None, s) | a # as \<Rightarrow> (Some a, s\<lparr>sv_asyncQ := as\<rparr>))"

definition sv_NotifyNewMessage :: "env \<Rightarrow> direction \<Rightarrow> service \<Rightarrow> int \<times> service" where
  "sv_NotifyNewMessage e d s =
     (case sv_pipe s of
        Some p \<Rightarrow> if e_pipe e then (0, s\<lparr>sv_pipe := Some (p @ [d])\<rparr>) else (-1, s)
      | None \<Rightarrow> (-1, s))"

definition sv_NotifyNextRequestMessage :: "env \<Rightarrow> service \<Rightarrow> service" where
  "sv_NotifyNextRequestMessage e s =
     (let s1 = (case sv_cur s of None \<Rightarrow> s | Some a \<Rightarrow> (sv_delete a s)\<lparr>sv_cur := None\<rparr>)
      in snd (sv_NotifyNewMessage e REQUEST s1))"

section \<open>Timeouts\<close>

definition sv_rearm :: "env \<Rightarrow> addr \<Rightarrow> u32 \<Rightarrow> service \<Rightarrow> service" where
  "sv_rearm e a millis s =
     s\<lparr>sv_timers := tl_put (e_now e) (Some a) millis (tl_erase (Some a) (sv_timers s))\<rparr>"

definition sv_PostponeRequestMessage :: "env \<Rightarrow> u32 \<Rightarrow> service \<Rightarrow> service" where
  "sv_PostponeRequestMessage e millis s =
     (let s1 =
        (case sv_cur s of
           None \<Rightarrow> s
         | Some a \<Rightarrow>
             (let s1 = sv_update a (\<lambda>m. (msg_SetModemData None m)\<lparr>m_nTimeout := 0\<rparr>)
                         (s\<lparr>sv_cur := None\<rparr>);
                  tok = msg_GetToken (sv_deref a s1);
                  s2 = (if sv_ctx s1 \<and> tok \<noteq> TOKEN_INVALID
                        then sv_emit (OClearGarbage tok) s1 else s1);
                  s3 = s2\<lparr>sv_curReqId := 0\<rparr>
              in sv_rearm e a millis s3))
      in sv_NotifyNextRequestMessage e s1)"

definition sv_StartRequestTimeout :: "env \<Rightarrow> service \<Rightarrow> service" where
  "sv_StartRequestTimeout e s =
     (case sv_cur s of
        None \<Rightarrow> s
      | Some a \<Rightarrow>
         (let s1 = (if m_nTimeout (sv_deref a s) \<le> 0
                    then sv_update a (\<lambda>m. m\<lparr>m_nTimeout := 60000\<rparr>) s else sv_touch a s);
              elapse = m_nTimeout (sv_deref a s1)
          in sv_rearm e a (word_of_int elapse) s1))"

definition sv_SetRequestTimeout :: "u32 \<Rightarrow> service \<Rightarrow> int \<times> service" where
  "sv_SetRequestTimeout t s =
     (case sv_cur s of
        None \<Rightarrow> (-1, s)
      | Some a \<Rightarrow> (0, sv_update a (\<lambda>m. m\<lparr>m_nTimeout := to_int32 (uint t)\<rparr>) s))"

definition sv_ResetRequestTimeout :: "env \<Rightarrow> u32 \<Rightarrow> service \<Rightarrow> int \<times> service" where
  "sv_ResetRequestTimeout e t s =
     (let (r, s1) = sv_SetRequestTimeout t s
      in if r < 0 then (-1, s1) else (0, sv_StartRequestTimeout e s1))"

text \<open>\<open>None\<close> is the return value -1: wait without limit.\<close>

definition sv_CalcNextTimeout :: "timeval \<Rightarrow> service \<Rightarrow> timeval option" where
  "sv_CalcNextTimeout now s =
     (if tl_size (sv_timers s) = 0 then None
      else let front = tl_front (sv_timers s); tv = tv_sub (te_timeout front) now
           in if te_msg front = None then Some \<lparr>tv_sec = 0, tv_usec = 0\<rparr> else Some tv)"

section \<open>Requests to the modem and their completion\<close>

definition sv_is_async :: "addr option \<Rightarrow> service \<Rightarrow> bool" where
  "sv_is_async pm s \<longleftrightarrow>
     (case pm of None \<Rightarrow> False | Some a \<Rightarrow> m_nAsyncMsgReqStatus (sv_deref a s) \<noteq> ASYNC_NONE)"

definition sv_touch_opt :: "addr option \<Rightarrow> service \<Rightarrow> service" where
  "sv_touch_opt pm s = (case pm of None \<Rightarrow> s | Some a \<Rightarrow> sv_touch a s)"

definition sv_SendRequest ::
  "env \<Rightarrow> modem_data option \<Rightarrow> u32 \<Rightarrow> u32 \<Rightarrow> addr option \<Rightarrow> service \<Rightarrow> int \<times> service" where
  "sv_SendRequest e pmd t res pm s0 =
     (let s = sv_touch_opt pm s0 in
      case pmd of
        None \<Rightarrow> (-1, s)
      | Some md \<Rightarrow>
         if \<not> sv_ctx s then (-1, s)
         else if \<not> sv_is_async pm s then
           (case sv_cur s of
              None \<Rightarrow> (-1, s)
            | Some a \<Rightarrow>
               (let s1 = sv_update a
                      (\<lambda>m. (msg_SetModemData (Some md) m)\<lparr>m_nTimeout := to_int32 (uint t)\<rparr>) s;
                    s2 = sv_emit (OSend md (sv_id s1) res (e_send e)) s1
                in if e_send e then (0, s2) else (-1, s2)))
         else
           (case pm of
              None \<Rightarrow> (-1, s)
            | Some a \<Rightarrow>
               (let s1 = sv_update a
                      (\<lambda>m. (msg_SetModemData (Some md) m)\<lparr>m_nTimeout := to_int32 (uint t)\<rparr>) s;
                    s2 = sv_emit (OSend md (sv_id s1) res (e_send e)) s1
                in if e_send e then (0, s2\<lparr>sv_asyncTok := md_tok md\<rparr>) else (-1, s2))))"

definition sv_SendRequest_default :: "env \<Rightarrow> modem_data option \<Rightarrow> u32 \<Rightarrow> service \<Rightarrow> int \<times> service" where
  "sv_SendRequest_default e pmd t s =
     (case sv_cur s of
        None \<Rightarrow> (-1, s)
      | Some a \<Rightarrow>
         (let s = sv_touch a s
          in sv_SendRequest e pmd t (word_of_int (m_nMsgId (sv_deref a s))) None s))"

text \<open>The overload with one argument only writes to the channel: nothing waits for an answer.\<close>

definition sv_SendRequest_raw :: "env \<Rightarrow> modem_data option \<Rightarrow> service \<Rightarrow> int \<times> service" where
  "sv_SendRequest_raw e pmd s =
     (case pmd of
        None \<Rightarrow> (-1, s)
      | Some md \<Rightarrow>
         if sv_ctx s then (if e_send e then 0 else -1, sv_emit (OSendRaw md (e_send e)) s) else (0, s))"

definition sv_OnRequestComplete :: "env \<Rightarrow> int \<Rightarrow> addr option \<Rightarrow> service \<Rightarrow> service" where
  "sv_OnRequestComplete e res pm s0 =
     (let s = sv_touch_opt pm s0 in
      if \<not> sv_is_async pm s then
        (let s1 =
           (case sv_cur s of
              None \<Rightarrow> s
            | Some a \<Rightarrow>
               (let s = sv_touch a s;
                    rq = m_pReqData (sv_deref a s);
                    tok = msg_GetToken (sv_deref a s);
                    s1 = (if sv_ctx s then sv_emit (OClearGarbage tok) (sv_complete rq res s) else s)
                in s1\<lparr>sv_timers := tl_erase (Some a) (sv_timers s1)\<rparr>))
         in sv_NotifyNextRequestMessage e (s1\<lparr>sv_curReqId := 0\<rparr>))
      else
        (case pm of None \<Rightarrow> s | Some a \<Rightarrow>
          (let m = sv_deref a s; st = m_nAsyncMsgReqStatus m;
               (reqMsg, rq, tok, s1) =
                 (if m_nDirection m = ASYNC_REQUEST then
                    (if st = ASYNC_SENT2CP
                     then (Some a, m_pReqData m, msg_GetToken m,
                           s\<lparr>sv_hist := map_option (hist_Remove (msg_GetToken m)) (sv_hist s)\<rparr>)
                     else (Some a, m_pReqData m, TOKEN_INVALID, s))
                  else
                    (if st = ASYNC_RESPONSE
                     then (case sv_hist s of
                             None \<Rightarrow> (None, None, msg_GetToken m, s)
                           | Some h \<Rightarrow>
                              (let f = hist_Find (msg_GetToken m) h
                               in (f, (case f of None \<Rightarrow> None | Some b \<Rightarrow> m_pReqData (sv_deref b s)),
                                   msg_GetToken m,
                                   (sv_touch_opt f s)\<lparr>sv_hist := Some (hist_Remove (msg_GetToken m) h)\<rparr>)))
                     else (None, None, TOKEN_INVALID, s)));
               s2 = (if sv_ctx s1 then sv_emit (OClearGarbage tok) (sv_complete rq res s1) else s1)
           in (case reqMsg of None \<Rightarrow> s2 | Some b \<Rightarrow> sv_delete b s2))))"

definition sv_OnUnsolicitedResponse :: "int \<Rightarrow> service \<Rightarrow> service" where
  "sv_OnUnsolicitedResponse uid s = (if sv_ctx s then sv_emit (OUnsol uid) s else s)"

definition sv_OnRequestAck :: "service \<Rightarrow> service" where
  "sv_OnRequestAck s =
     (case sv_cur s of
        None \<Rightarrow> s
      | Some a \<Rightarrow>
         (let s = sv_touch a s in
          if sv_ctx s
          then (case m_pReqData (sv_deref a s) of
                  None \<Rightarrow> sv_fault s | Some r \<Rightarrow> sv_emit (OAck (rq_token r)) s)
          else s))"

section \<open>What derived classes may do\<close>

text \<open>
  A call to the protected interface inside an \<^verbatim>\<open>OnHandle...\<close> method.  The message
  argument is the one the method was called with, or \<^verbatim>\<open>NULL\<close>.  \<open>AFault\<close>
  stands for undefined behaviour in the method itself.
\<close>

datatype api =
    ASend "modem_data option" u32 u32 bool
  | ASendDefault "modem_data option" u32
  | ASendRaw "modem_data option"
  | AComplete int bool
  | APostpone u32
  | ASetTimeout u32
  | AResetTimeout u32
  | AUnsol int
  | AAck
  | AFault

fun sv_api :: "env \<Rightarrow> addr option \<Rightarrow> api \<Rightarrow> service \<Rightarrow> service" where
  "sv_api e pm (ASend md t res usemsg) s =
     snd (sv_SendRequest e md t res (if usemsg then pm else None) s)"
| "sv_api e pm (ASendDefault md t) s = snd (sv_SendRequest_default e md t s)"
| "sv_api e pm (ASendRaw md) s = snd (sv_SendRequest_raw e md s)"
| "sv_api e pm (AComplete res usemsg) s =
     sv_OnRequestComplete e res (if usemsg then pm else None) s"
| "sv_api e pm (APostpone ms) s = sv_PostponeRequestMessage e ms s"
| "sv_api e pm (ASetTimeout t) s = snd (sv_SetRequestTimeout t s)"
| "sv_api e pm (AResetTimeout t) s = snd (sv_ResetRequestTimeout e t s)"
| "sv_api e pm (AUnsol uid) s = sv_OnUnsolicitedResponse uid s"
| "sv_api e pm AAck s = sv_OnRequestAck s"
| "sv_api e pm AFault s = sv_fault s"

fun sv_script :: "env \<Rightarrow> addr option \<Rightarrow> api list \<Rightarrow> service \<Rightarrow> service" where
  "sv_script e pm [] s = s"
| "sv_script e pm (x # xs) s = sv_script e pm xs (sv_api e pm x s)"

type_synonym handler = "env \<Rightarrow> service \<Rightarrow> addr \<Rightarrow> api list \<times> bool"

record handlers =
  h_request :: handler
  h_solicited :: handler
  h_unsolicited :: handler
  h_internal :: handler
  h_timeout :: handler
  h_callback :: "service \<Rightarrow> callback \<Rightarrow> api list"
  h_passRadioOff :: "int \<Rightarrow> bool"
  h_passRadioUnavailable :: "int \<Rightarrow> bool"

definition sv_run :: "env \<Rightarrow> handler \<Rightarrow> addr \<Rightarrow> service \<Rightarrow> bool \<times> service" where
  "sv_run e h a s = (let (xs, ret) = h e s a in (ret, sv_script e (Some a) xs s))"

text \<open>The methods of the base class itself do nothing and return \<^verbatim>\<open>FALSE\<close>.\<close>

definition base_handlers :: handlers where
  "base_handlers =
     \<lparr>h_request = (\<lambda>_ _ _. ([], False)), h_solicited = (\<lambda>_ _ _. ([], False)),
      h_unsolicited = (\<lambda>_ _ _. ([], False)), h_internal = (\<lambda>_ _ _. ([], False)),
      h_timeout = (\<lambda>_ _ _. ([], False)), h_callback = (\<lambda>_ _. []),
      h_passRadioOff = (\<lambda>_. False), h_passRadioUnavailable = (\<lambda>_. False)\<rparr>"

section \<open>Message handlers of the service thread\<close>

definition sv_refused :: "handlers \<Rightarrow> int \<Rightarrow> service \<Rightarrow> bool" where
  "sv_refused H rid s \<longleftrightarrow>
     sv_radio s = RADIO_STATE_UNAVAILABLE \<and> \<not> h_passRadioUnavailable H rid \<or>
     sv_radio s = RADIO_STATE_OFF \<and> \<not> (h_passRadioUnavailable H rid \<or> h_passRadioOff H rid)"

definition sv_HandleRequest :: "env \<Rightarrow> handlers \<Rightarrow> service \<Rightarrow> int \<times> service" where
  "sv_HandleRequest e H s =
     (if sv_cur s = None then
        (case sv_reqDeQ s of
           (None, s1) \<Rightarrow> (-1, s1)
         | (Some a, s1) \<Rightarrow>
            (let s1 = sv_touch a s1 in
             case m_pReqData (sv_deref a s1) of
               None \<Rightarrow> (-1, sv_delete a s1)
             | Some r \<Rightarrow>
                if sv_refused H (rq_id r) s1
                then (0, sv_NotifyNextRequestMessage e
                          (sv_ctx_emit (OComplete r RIL_E_RADIO_NOT_AVAILABLE) s1))
                else
                  (let s2 = s1\<lparr>sv_curReqId := word_of_int (rq_id r), sv_cur := Some a\<rparr>;
                       (ret, s3) = sv_run e (h_request H) a s2
                   in if ret then (0, sv_StartRequestTimeout e s3)
                      else (let s4 = sv_ctx_emit (OComplete r RIL_E_GENERIC_FAILURE) (sv_touch a s3)
                            in (0, sv_NotifyNextRequestMessage e (s4\<lparr>sv_curReqId := 0\<rparr>))))))
      else (0, sv_touch_opt (sv_cur s) s))"

definition sv_HandleResponse :: "env \<Rightarrow> handlers \<Rightarrow> service \<Rightarrow> int \<times> service" where
  "sv_HandleResponse e H s0 =
     (let s = s0\<lparr>sv_nr := 0\<rparr> in
      case sv_respDeQ s of
        (None, s1) \<Rightarrow> (-1, s1)
      | (Some a, s1) \<Rightarrow>
         (let s1 = sv_touch a s1; m = sv_deref a s1 in
          case m_pModemData m of
            None \<Rightarrow> (-1, sv_delete a s1)
          | Some md \<Rightarrow>
             if mdh_IsSolicitedResponse md then
               (let matched =
                  (case sv_cur s1 of
                     Some c \<Rightarrow> msg_GetToken (sv_deref c s1) = msg_GetToken m
                   | None \<Rightarrow> False) \<or> m_nAsyncMsgReqStatus m = ASYNC_RESPONSE
                in if \<not> matched then (-1, sv_delete a s1)
                   else (let (handled, s2) = sv_run e (h_solicited H) a s1;
                             s3 = (if handled then s2
                                   else sv_OnRequestComplete e RIL_E_GENERIC_FAILURE (Some a) s2)
                         in (0, sv_delete a s3)))
             else if mdh_IsUnsolicitedResponse md
             then (0, sv_delete a (snd (sv_run e (h_unsolicited H) a s1)))
             else (0, sv_delete a s1)))"

definition sv_CheckCountsForTimeOut :: "modem_data option \<Rightarrow> service \<Rightarrow> service" where
  "sv_CheckCountsForTimeOut pmd s =
     (case pmd of
        None \<Rightarrow> s
      | Some md \<Rightarrow>
         (let s1 = s\<lparr>sv_nr := sv_nr s + 1\<rparr>
          in if sv_nr s1 > MAX_NR_COUNT then sv_ctx_emit (OModemDump (md_id md)) s1 else s1))"

definition sv_HandleRequestTimeout :: "env \<Rightarrow> handlers \<Rightarrow> service \<Rightarrow> service" where
  "sv_HandleRequestTimeout e H s =
     (let (te, tl) = tl_pop (sv_timers s); s1 = s\<lparr>sv_timers := tl\<rparr> in
      case te_msg te of
        None \<Rightarrow> s1
      | Some a \<Rightarrow>
         if sv_cur s1 = Some a then
           (let s1 = sv_touch a s1; m = sv_deref a s1 in
            case m_pReqData m of
              None \<Rightarrow> s1
            | Some r \<Rightarrow>
               (let tok = msg_GetToken m; pmd = m_pModemData m;
                    (handled, s2) = sv_run e (h_timeout H) a s1
                in if handled then s2
                   else sv_NotifyNextRequestMessage e
                          (sv_ctx_emit (OTimeout r tok) (sv_CheckCountsForTimeOut pmd s2))))
         else
           snd (sv_NotifyNewMessage e REQUEST (snd (sv_EnQueue (Some a) s1))))"

end
