(* ===== verification/Service_Thread.thy ===== *)
theory Service_Thread
  imports Service
begin

text \<open>
  The second half of \<^verbatim>\<open>sitril/core/service.cpp\<close>: system events, asynchronous requests
  with their own timers, the life cycle, and the thread loop of
  \<^verbatim>\<open>sitril/core/servicemonitorrunnable.cpp\<close>.
\<close>

section \<open>Service names\<close>

definition GetServiceName :: "u32 \<Rightarrow> string" where
  "GetServiceName sid =
     (case map_of
        [(0, ''Service''), (1, ''CsService''), (2, ''PsService''), (3, ''SimService''),
         (4, ''MiscService''), (5, ''NetworkService''), (6, ''SmsService''), (7, ''AudioService''),
         (8, ''ImsService''), (9, ''GpsService''), (10, ''WLanService''), (11, ''VSimService''),
         (12, ''StkService''), (13, ''TestService''), (14, ''SupplementaryService''),
         (15, ''EmbmsService'')] (unat sid) of
        Some n \<Rightarrow> n | None \<Rightarrow> ''SERVICE_UNSUPPORTED'')"


section \<open>Radio state\<close>

text \<open>A virtual notification method: the base class does nothing, a derived class runs its script.\<close>

definition sv_notify :: "env \<Rightarrow> handlers \<Rightarrow> callback \<Rightarrow> service \<Rightarrow> service" where
  "sv_notify e H c s = sv_script e None (h_callback H s c) (sv_emit (OCallback c) s)"

definition sv_SetRadioStateUnavailable :: "service \<Rightarrow> service" where
  "sv_SetRadioStateUnavailable s =
     s\<lparr>sv_voice := NOT_REGISTERED, sv_data := NOT_REGISTERED, sv_radio := RADIO_STATE_UNAVAILABLE\<rparr>"

definition sv_SetRadioState :: "env \<Rightarrow> handlers \<Rightarrow> int \<Rightarrow> bool \<Rightarrow> service \<Rightarrow> service" where
  "sv_SetRadioState e H st forceNotify s0 =
     (let old = sv_radio s0;
          s1 = s0\<lparr>sv_radio := st\<rparr>;
          s2 = (if st = RADIO_STATE_UNAVAILABLE then sv_SetRadioStateUnavailable s1 else s1);
          s3 = (if old \<noteq> st \<and> forceNotify then sv_notify e H (OnRadioStateChanged st) s2 else s2);
          s4 = (if st \<noteq> RADIO_STATE_UNAVAILABLE \<and> old = RADIO_STATE_UNAVAILABLE
                then sv_notify e H OnRadioAvailable s3 else s3);
          s5 = (if st = RADIO_STATE_UNAVAILABLE \<and> old \<noteq> RADIO_STATE_UNAVAILABLE
                then sv_notify e H OnRadioNotAvailable s4 else s4);
          s6 = (if st = RADIO_STATE_ON \<and> old \<noteq> RADIO_STATE_ON
                then sv_notify e H OnRadioOn s5 else s5)
      in if (st = RADIO_STATE_OFF \<or> st = RADIO_STATE_ON) \<and> old = RADIO_STATE_UNAVAILABLE
         then sv_notify e H OnRadioOffOrNotAvailable s6 else s6)"

definition IsVoiceNetworkAvailable :: "service \<Rightarrow> bool" where
  "IsVoiceNetworkAvailable s \<longleftrightarrow> sv_voice s = REGISTERED_HOME \<or> sv_voice s = REGISTERED_ROAMING"

definition IsDataNetworkAvailable :: "service \<Rightarrow> bool" where
  "IsDataNetworkAvailable s \<longleftrightarrow> sv_data s = REGISTERED_HOME \<or> sv_data s = REGISTERED_ROAMING"

definition IsRadioNotAvailable :: "service \<Rightarrow> bool" where
  "IsRadioNotAvailable s \<longleftrightarrow> sv_radio s = RADIO_STATE_UNAVAILABLE"

definition IsRadioAvailable :: "service \<Rightarrow> bool" where
  "IsRadioAvailable s \<longleftrightarrow> sv_radio s \<noteq> RADIO_STATE_UNAVAILABLE"

definition IsRadioOn :: "service \<Rightarrow> bool" where
  "IsRadioOn s \<longleftrightarrow> sv_radio s = RADIO_STATE_ON"

definition IsRadioOffOrNotAvailable :: "service \<Rightarrow> bool" where
  "IsRadioOffOrNotAvailable s \<longleftrightarrow> sv_radio s \<noteq> RADIO_STATE_ON"

section \<open>System events\<close>

text \<open>
  \<^verbatim>\<open>RilDataInts::GetInt\<close> does not check its index, and the handler casts the user data
  without checking its class: both are faults.  \<^verbatim>\<open>RilDataStrings::GetString\<close> returns
  \<^verbatim>\<open>NULL\<close> out of range.
\<close>

fun ints_GetInt :: "ril_data \<Rightarrow> nat \<Rightarrow> int option" where
  "ints_GetInt (RilDataInts xs) i = (if i < length xs then Some (xs ! i) else None)"
| "ints_GetInt (RilDataStrings _) i = None"

fun strings_GetString :: "ril_data \<Rightarrow> nat \<Rightarrow> string option option" where
  "strings_GetString (RilDataStrings xs) i = Some (if i < length xs then xs ! i else None)"
| "strings_GetString (RilDataInts _) i = None"

text \<open>After a change of the radio state, a current request that may not run in it is answered.\<close>

definition sv_fail_current :: "env \<Rightarrow> (int \<Rightarrow> bool) \<Rightarrow> service \<Rightarrow> service" where
  "sv_fail_current e pass s =
     (case sv_cur s of
        None \<Rightarrow> s
      | Some a \<Rightarrow>
         (let s = sv_touch a s in
          case m_pReqData (sv_deref a s) of
            None \<Rightarrow> sv_fault s
          | Some r \<Rightarrow> if pass (rq_id r) then s
                      else if sv_ctx s then sv_OnRequestComplete e RIL_E_RADIO_NOT_AVAILABLE None s
                      else sv_fault s))"

definition sv_on_radio :: "env \<Rightarrow> handlers \<Rightarrow> message \<Rightarrow> service \<Rightarrow> service" where
  "sv_on_radio e H m s =
     (let (st, s1) =
        (case m_pUserData m of
           Some d \<Rightarrow> (case ints_GetInt d 0 of
                        Some v \<Rightarrow> (v, s) | None \<Rightarrow> (RADIO_STATE_UNAVAILABLE, sv_fault s))
         | None \<Rightarrow> if sv_ctx s then (if e_uicc e = 0 then RADIO_STATE_OFF else e_radio e, s)
                   else (RADIO_STATE_UNAVAILABLE, sv_fault s));
          s2 = sv_SetRadioState e H st True s1;
          s3 = (if sv_radio s2 = RADIO_STATE_OFF \<and> sv_cur s2 \<noteq> None
                then sv_fail_current e (h_passRadioOff H) s2
                else if sv_radio s2 = RADIO_STATE_UNAVAILABLE \<and> sv_cur s2 \<noteq> None
                then sv_fail_current e (h_passRadioUnavailable H) s2
                else s2)
      in sv_notify e H (OnRadioStateChanged (sv_radio s3)) s3)"

definition sv_on_modem :: "env \<Rightarrow> handlers \<Rightarrow> int \<Rightarrow> service \<Rightarrow> service" where
  "sv_on_modem e H st s =
     (let old = sv_modem s; s1 = s\<lparr>sv_modem := st\<rparr>
      in if old = st then s1
         else let s2 = sv_notify e H (OnModemStateChanged st) s1
              in if st = MS_ONLINE then sv_notify e H OnModemOnline s2
                 else sv_notify e H OnModemOffline s2)"

definition sv_with_ints :: "nat \<Rightarrow> message \<Rightarrow> ((nat \<Rightarrow> int) \<Rightarrow> service \<Rightarrow> service) \<Rightarrow> service \<Rightarrow> service" where
  "sv_with_ints n m f s =
     (case m_pUserData m of
        None \<Rightarrow> s
      | Some d \<Rightarrow>
         if \<forall>i\<in>set [0..<n]. ints_GetInt d i \<noteq> None then f (\<lambda>i. the (ints_GetInt d i)) s
         else sv_fault s)"

definition sv_on_imsi :: "env \<Rightarrow> handlers \<Rightarrow> message \<Rightarrow> service \<Rightarrow> service" where
  "sv_on_imsi e H m s =
     (case m_pUserData m of
        None \<Rightarrow> s
      | Some d \<Rightarrow>
         (case (strings_GetString d 0, strings_GetString d 1) of
            (Some aid, Some imsi) \<Rightarrow>
              sv_notify e H (OnImsiUpdatedAid aid imsi) (sv_notify e H (OnImsiUpdated imsi) s)
          | _ \<Rightarrow> sv_fault s))"

definition sv_system :: "env \<Rightarrow> handlers \<Rightarrow> addr \<Rightarrow> message \<Rightarrow> service \<Rightarrow> service" where
  "sv_system e H a m s =
     (let i = m_nMsgId m in
      if i = MSG_SYSTEM_RADIO_STATE_CHANGED then sv_on_radio e H m s
      else if i = MSG_SYSTEM_SIM_STATUS_CHANGED
      then sv_with_ints 2 m (\<lambda>v. sv_notify e H (OnSimStatusChanged (v 0) (v 1))) s
      else if i = MSG_SYSTEM_IMSI_UPDATED then sv_on_imsi e H m s
      else if i = MSG_SYSTEM_RESET then sv_notify e H OnReset s
      else if i = MSG_SYSTEM_VOICE_REGISTRTION_STATE_CHANGED
      then sv_with_ints 1 m (\<lambda>v s. sv_notify e H (OnVoiceRegistrationStateChanged (v 0))
                                     (s\<lparr>sv_voice := v 0\<rparr>)) s
      else if i = MSG_SYSTEM_DATA_REGISTRTION_STATE_CHANGED
      then sv_with_ints 1 m (\<lambda>v s. sv_notify e H (OnDataRegistrationStateChanged (v 0))
                                     (s\<lparr>sv_data := v 0\<rparr>)) s
      else if i = MSG_SYSTEM_DATA_CALL_STATE_CHANGED
      then sv_with_ints 2 m (\<lambda>v. sv_notify e H (OnDataCallStateChanged (v 0) (v 1 \<noteq> 0))) s
      else if i = MSG_SYSTEM_SERVICE_TATE_CHANGED
      then (if sv_ctx s then sv_notify e H OnServiceStateChanged s else s)
      else if i = MSG_SYSTEM_MODEM_STATE_CHANGED
      then sv_with_ints 1 m (\<lambda>v. sv_on_modem e H (v 0)) s
      else snd (sv_run e (h_internal H) a s))"

definition sv_HandleInternalMessage :: "env \<Rightarrow> handlers \<Rightarrow> service \<Rightarrow> int \<times> service" where
  "sv_HandleInternalMessage e H s =
     (case sv_internalDeQ s of
        (None, s1) \<Rightarrow> (-1, s1)
      | (Some a, s1) \<Rightarrow>
         (let s1 = sv_touch a s1
          in (0, sv_delete a (sv_system e H a (sv_deref a s1) s1))))"

section \<open>Asynchronous requests\<close>

definition sv_AsyncMsgReqDeleteTimer :: "u32 \<Rightarrow> service \<Rightarrow> service" where
  "sv_AsyncMsgReqDeleteTimer tok s = s\<lparr>sv_asyncTimers := sm_erase tok (sv_asyncTimers s)\<rparr>"

text \<open>
  \<^verbatim>\<open>map::insert\<close> keeps an entry that is there.  \<open>e_timer\<close> is the id the kernel gives
  the new timer, \<open>None\<close> when creating or setting it fails.
\<close>

definition sv_StartTimer :: "env \<Rightarrow> u32 \<Rightarrow> int \<Rightarrow> service \<Rightarrow> service" where
  "sv_StartTimer e tok timeout s =
     (case e_timer e of
        None \<Rightarrow> s
      | Some t \<Rightarrow>
         sv_emit (OArmTimer tok (sgn timeout * (\<bar>timeout\<bar> div 1000))
                   (sgn timeout * (\<bar>timeout\<bar> mod 1000) * 1000000))
           (s\<lparr>sv_asyncTimers := sm_insert tok t (sv_asyncTimers s)\<rparr>))"

definition sv_AsyncMsgReqStartTimer :: "env \<Rightarrow> u32 \<Rightarrow> addr option \<Rightarrow> service \<Rightarrow> service" where
  "sv_AsyncMsgReqStartTimer e tok pm s =
     (case pm of
        None \<Rightarrow> s
      | Some a \<Rightarrow> if tok \<noteq> TOKEN_INVALID
                  then sv_StartTimer e tok (m_nTimeout (sv_deref a s)) (sv_touch a s) else s)"

definition sv_AsyncMsgReqInsertHistory :: "u32 \<Rightarrow> addr \<Rightarrow> service \<Rightarrow> service" where
  "sv_AsyncMsgReqInsertHistory tok a s =
     s\<lparr>sv_hist := map_option (\<lambda>h. snd (hist_Push tok (Some a) h)) (sv_hist s)\<rparr>"

definition sv_AsyncMsgReqPreProcessing :: "addr option \<Rightarrow> service \<Rightarrow> service" where
  "sv_AsyncMsgReqPreProcessing pm s =
     (case pm of
        None \<Rightarrow> s
      | Some a \<Rightarrow>
         (let s = sv_touch a s; m = sv_deref a s in
          if m_nDirection m \<noteq> RESPONSE then s
          else let tok = msg_GetToken m in
            (case (m_pModemData m, sv_hist s) of
               (Some md, Some h) \<Rightarrow>
                 if tok \<noteq> TOKEN_INVALID \<and> mdh_IsSolicitedResponse md
                 then (case hist_Find tok h of
                         Some b \<Rightarrow>
                           if m_nAsyncMsgReqStatus (sv_deref b s) = ASYNC_SENT2CP
                           then sv_AsyncMsgReqDeleteTimer tok
                                  (sv_update a (\<lambda>m. m\<lparr>m_nAsyncMsgReqStatus := ASYNC_RESPONSE\<rparr>)
                                    (sv_touch b s))
                           else sv_touch b s
                       | None \<Rightarrow> s)
                 else s
             | _ \<Rightarrow> s)))"

definition sv_async_refused :: "handlers \<Rightarrow> int \<Rightarrow> service \<Rightarrow> bool" where
  "sv_async_refused H rid s \<longleftrightarrow>
     sv_radio s = RADIO_STATE_OFF \<and> \<not> h_passRadioOff H rid \<or>
     sv_radio s = RADIO_STATE_UNAVAILABLE \<and> \<not> h_passRadioUnavailable H rid"

text \<open>
  The log line of the refusal reads the socket id through the context before the context is tested.
\<close>

definition sv_HandleAsycMsgRequest :: "env \<Rightarrow> handlers \<Rightarrow> service \<Rightarrow> int \<times> service" where
  "sv_HandleAsycMsgRequest e H s =
     (case sv_asycMsgReqDeQ s of
        (None, s1) \<Rightarrow> (-1, s1)
      | (Some a, s1) \<Rightarrow>
         (let s1 = sv_touch a s1 in
          case m_pReqData (sv_deref a s1) of
            None \<Rightarrow> (-1, sv_delete a s1)
          | Some r \<Rightarrow>
             if sv_async_refused H (rq_id r) s1
             then (0, sv_delete a (sv_ctx_emit (OComplete r RIL_E_RADIO_NOT_AVAILABLE) s1))
             else
               (let s2 = (sv_update a (\<lambda>m. m\<lparr>m_nAsyncMsgReqStatus := ASYNC_PROCESSING\<rparr>) s1)
                           \<lparr>sv_asyncTok := TOKEN_INVALID\<rparr>;
                    (ret, s3) = sv_run e (h_request H) a s2;
                    s3 = sv_touch a s3
                in if \<not> ret
                   then (0, (sv_delete a (if sv_ctx s3 then sv_emit (OComplete r RIL_E_GENERIC_FAILURE) s3
                                          else s3))\<lparr>sv_asyncTok := TOKEN_INVALID\<rparr>)
                   else (let tok = msg_GetToken (sv_deref a s3);
                             s4 = (if tok \<noteq> TOKEN_INVALID \<and> sv_asyncTok s3 = tok
                                   then sv_AsyncMsgReqStartTimer e tok (Some a)
                                          (sv_AsyncMsgReqInsertHistory tok a
                                            (sv_update a
                                              (\<lambda>m. msg_SetAsyncMsgReqStartTime (e_now e)
                                                 (m\<lparr>m_nAsyncMsgReqStatus := ASYNC_SENT2CP\<rparr>)) s3))
                                   else s3)
                         in (0, s4\<lparr>sv_asyncTok := TOKEN_INVALID\<rparr>)))))"

definition sv_AsyncMsgReqTimerCallback :: "env \<Rightarrow> handlers \<Rightarrow> u32 \<Rightarrow> service \<Rightarrow> service" where
  "sv_AsyncMsgReqTimerCallback e H tok s0 =
     (let s = sv_AsyncMsgReqDeleteTimer tok s0 in
      case sv_hist s of
        None \<Rightarrow> s
      | Some h \<Rightarrow>
         (case hist_Find tok h of
            None \<Rightarrow> s
          | Some a \<Rightarrow>
             (let s = sv_touch a s;
                  fin = (\<lambda>s. sv_delete a (s\<lparr>sv_hist := map_option (hist_Remove tok) (sv_hist s)\<rparr>))
              in case m_pReqData (sv_deref a s) of
                   None \<Rightarrow> fin s
                 | Some r \<Rightarrow>
                    (let (handled, s2) = sv_run e (h_timeout H) a s
                     in if handled then s2
                        else let s3 = sv_touch a s2
                             in fin (sv_ctx_emit (OTimeout r tok)
                                  (sv_CheckCountsForTimeOut (m_pModemData (sv_deref a s3)) s3))))))"

text \<open>The loop runs once for every entry that is there when it starts.\<close>

fun sv_clear_history :: "nat \<Rightarrow> service \<Rightarrow> service" where
  "sv_clear_history 0 s = s"
| "sv_clear_history (Suc n) s =
     (let h = (case sv_hist s of Some h \<Rightarrow> h | None \<Rightarrow> []);
          tok = hist_GetBegin h;
          f = hist_Find tok h;
          s1 = (case f of
                  None \<Rightarrow> s
                | Some a \<Rightarrow>
                   (let s = sv_touch a s in
                    if sv_ctx s
                    then (case m_pReqData (sv_deref a s) of
                            Some r \<Rightarrow> sv_emit (OTimeout r tok) s | None \<Rightarrow> s)
                    else s));
          s2 = sv_AsyncMsgReqDeleteTimer tok s1;
          s3 = s2\<lparr>sv_hist := Some (hist_Remove tok h)\<rparr>;
          s4 = (case f of None \<Rightarrow> s3 | Some a \<Rightarrow> sv_delete a s3)
      in sv_clear_history n s4)"

definition sv_AsycMsgReqClearHistory :: "service \<Rightarrow> service" where
  "sv_AsycMsgReqClearHistory s =
     (case sv_hist s of None \<Rightarrow> s | Some h \<Rightarrow> sv_clear_history (length h) s)"

definition sv_AsycMsgReqClear :: "service \<Rightarrow> service" where
  "sv_AsycMsgReqClear s0 =
     (let s = sv_AsycMsgReqClearHistory s0;
          s1 = (if sv_hist s \<noteq> None then (sv_hist_Clear s)\<lparr>sv_hist := None\<rparr> else s)
      in s1\<lparr>sv_asyncTimers := []\<rparr>)"

definition sv_IsInTransaction :: "u32 \<Rightarrow> service \<Rightarrow> bool" where
  "sv_IsInTransaction rid s \<longleftrightarrow>
     sv_curReqId s \<noteq> 0 \<and> sv_curReqId s = rid \<or>
     (case sv_hist s of Some h \<Rightarrow> h \<noteq> [] \<and> hist_IsReqInQueue s rid h | None \<Rightarrow> False)"

section \<open>Life cycle\<close>

definition sv_Init :: "env \<Rightarrow> service \<Rightarrow> int \<times> service" where
  "sv_Init e s =
     (if sv_inited s then (-1, s)
      else if e_create e < 0 then (-1, s)
      else let s1 = s\<lparr>sv_state := CREATED, sv_hist := Some []\<rparr>;
               (r, s2) = sv_OpenMessagePipe e s1
           in if r < 0 then (-1, s2) else (0, s2\<lparr>sv_inited := True\<rparr>))"

definition sv_Start :: "env \<Rightarrow> service \<Rightarrow> int \<times> service" where
  "sv_Start e s = (if \<not> e_thread e then (-1, s) else (0, s\<lparr>sv_state := STARTED\<rparr>))"

definition sv_Finalize :: "env \<Rightarrow> handlers \<Rightarrow> service \<Rightarrow> int \<times> service" where
  "sv_Finalize e H s =
     (if \<not> sv_inited s then (-1, s)
      else let s1 = sv_AsycMsgReqClear (sv_ClearMessageQueue (s\<lparr>sv_pipe := None\<rparr>));
               s2 = sv_notify e H OnDestroy s1
           in (0, s2\<lparr>sv_state := DESTROYED, sv_inited := False\<rparr>))"

section \<open>The thread of a service\<close>

text \<open>What one turn of the loop of \<^verbatim>\<open>ServiceMonitorRunnable::Run\<close> does with a byte read.\<close>

definition mon_dispatch :: "env \<Rightarrow> handlers \<Rightarrow> direction \<Rightarrow> service \<Rightarrow> service" where
  "mon_dispatch e H d s =
     (case d of
        REQUEST \<Rightarrow> snd (sv_HandleRequest e H s)
      | RESPONSE \<Rightarrow> snd (sv_HandleResponse e H s)
      | INTERNAL \<Rightarrow> snd (sv_HandleInternalMessage e H s)
      | ASYNC_REQUEST \<Rightarrow> snd (sv_HandleAsycMsgRequest e H s)
      | DIR_INVALID \<Rightarrow> s)"

text \<open>
  One turn: the outcome of \<^verbatim>\<open>select\<close> and \<^verbatim>\<open>read\<close> is the argument.
\<close>

datatype wakeup = Readable | ReadAgain | ReadFailed | TimedOut | SelectError

definition mon_turn :: "env \<Rightarrow> handlers \<Rightarrow> wakeup \<Rightarrow> service \<Rightarrow> service" where
  "mon_turn e H w s =
     (case w of
        Readable \<Rightarrow>
          (case sv_pipe s of
             Some (d # ds) \<Rightarrow> mon_dispatch e H d (s\<lparr>sv_pipe := Some ds\<rparr>)
           | _ \<Rightarrow> s)
      | ReadAgain \<Rightarrow> s
      | ReadFailed \<Rightarrow> snd (sv_OpenMessagePipe e s)
      | TimedOut \<Rightarrow> sv_HandleRequestTimeout e H s
      | SelectError \<Rightarrow> s)"

text \<open>
  \<^verbatim>\<open>ServiceMgr::SendMessage\<close> once the service is found: prepare and queue, then wake.
  The second half reads the direction from the message again.
\<close>

definition sv_post_queue :: "addr \<Rightarrow> service \<Rightarrow> service" where
  "sv_post_queue a s = snd (sv_EnQueue (Some a) (sv_AsyncMsgReqPreProcessing (Some a) s))"

definition sv_post_notify :: "env \<Rightarrow> addr \<Rightarrow> service \<Rightarrow> service" where
  "sv_post_notify e a s = snd (sv_NotifyNewMessage e (m_nDirection (sv_deref a s)) (sv_touch a s))"

definition sv_post :: "env \<Rightarrow> addr \<Rightarrow> service \<Rightarrow> service" where
  "sv_post e a s = sv_post_notify e a (sv_post_queue a s)"

end
