(* ===== verification/Service_Inv.thy ===== *)
theory Service_Inv
  imports Service_Thread
begin

text \<open>
  The invariant of a service that serves synchronous requests, and what every operation keeps of
  it: no dangling pointer is used, a queued request always has a wake-up on its way, the request
  being worked on always has a timer, and every accepted request is answered exactly once.
\<close>

section \<open>The invariant\<close>

definition live :: "(message \<Rightarrow> bool) \<Rightarrow> addr \<Rightarrow> service \<Rightarrow> bool" where
  "live P a s \<longleftrightarrow> (case sv_heap s a of None \<Rightarrow> False | Some m \<Rightarrow> P m)"

text \<open>A raw request fits the two kilobytes that the message builders reserve, header included.\<close>

definition fits :: "request_data \<Rightarrow> bool" where
  "fits r \<longleftrightarrow> (case rq_raw r of None \<Rightarrow> True | Some xs \<Rightarrow> length xs \<le> 2036)"

definition req_ok :: "message \<Rightarrow> bool" where
  "req_ok m \<longleftrightarrow>
     m_nDirection m = REQUEST \<and> (case m_pReqData m of None \<Rightarrow> False | Some r \<Rightarrow> fits r) \<and>
     m_nAsyncMsgReqStatus m = ASYNC_NONE"

definition resp_ok :: "message \<Rightarrow> bool" where
  "resp_ok m \<longleftrightarrow> m_nDirection m = RESPONSE \<and> m_nAsyncMsgReqStatus m = ASYNC_NONE"

text \<open>The user data of a system message has the class and the length its handler reads.\<close>

definition user_ints :: "message \<Rightarrow> nat" where
  "user_ints m =
     (let i = m_nMsgId m in
      if i \<in> {MSG_SYSTEM_SIM_STATUS_CHANGED, MSG_SYSTEM_DATA_CALL_STATE_CHANGED} then 2
      else if i \<in> {MSG_SYSTEM_RADIO_STATE_CHANGED, MSG_SYSTEM_VOICE_REGISTRTION_STATE_CHANGED,
        MSG_SYSTEM_DATA_REGISTRTION_STATE_CHANGED, MSG_SYSTEM_MODEM_STATE_CHANGED} then 1 else 0)"

definition user_ok :: "message \<Rightarrow> bool" where
  "user_ok m \<longleftrightarrow>
     (case m_pUserData m of
        None \<Rightarrow> True
      | Some (RilDataInts xs) \<Rightarrow>
          m_nMsgId m \<noteq> MSG_SYSTEM_IMSI_UPDATED \<and> user_ints m \<le> length xs
      | Some (RilDataStrings xs) \<Rightarrow> user_ints m = 0)"

definition int_ok :: "message \<Rightarrow> bool" where
  "int_ok m \<longleftrightarrow>
     m_nDirection m = INTERNAL \<and> m_nAsyncMsgReqStatus m = ASYNC_NONE \<and> user_ok m"

abbreviation timed :: "service \<Rightarrow> addr option list" where
  "timed s \<equiv> tl_msgs (sv_timers s)"

text \<open>The requests a service is responsible for: queued, being worked on, or postponed.\<close>

definition pend :: "service \<Rightarrow> addr set" where
  "pend s = set (sv_reqQ s) \<union> {a. sv_cur s = Some a} \<union> {a. Some a \<in> set (timed s)}"

definition inv :: "service \<Rightarrow> bool" where
  "inv s \<longleftrightarrow>
     \<not> sv_ub s \<and> sv_ctx s \<and> sv_pipe s \<noteq> None \<and> sv_asyncQ s = [] \<and> sv_hist s = Some [] \<and>
     distinct (sv_reqQ s) \<and> distinct (sv_respQ s) \<and> distinct (sv_intQ s) \<and>
     distinct (timed s) \<and> None \<notin> set (timed s) \<and>
     (\<forall>a\<in>set (sv_reqQ s). Some a \<notin> set (timed s) \<and> sv_cur s \<noteq> Some a) \<and>
     (\<forall>a\<in>pend s. live req_ok a s) \<and>
     (\<forall>a\<in>set (sv_respQ s). live resp_ok a s) \<and> (\<forall>a\<in>set (sv_intQ s). live int_ok a s)"

text \<open>No lost wake-up, and no request without a timer.\<close>

definition wake :: "service \<Rightarrow> bool" where
  "wake s \<longleftrightarrow> sv_cur s \<noteq> None \<or> sv_reqQ s = [] \<or>
     (case sv_pipe s of None \<Rightarrow> False | Some p \<Rightarrow> REQUEST \<in> set p)"

definition armed :: "service \<Rightarrow> bool" where
  "armed s \<longleftrightarrow> sv_cur s = None \<or> sv_cur s \<in> set (timed s)"

text \<open>The ledger of a service: the requests it is responsible for and the answers it gave.\<close>

fun answer_of :: "out_event \<Rightarrow> request_data list" where
  "answer_of (OComplete r _) = [r]"
| "answer_of (OTimeout r _) = [r]"
| "answer_of _ = []"

definition answers :: "service \<Rightarrow> request_data multiset" where
  "answers s = mset (concat (map answer_of (sv_out s)))"

definition req_of :: "service \<Rightarrow> addr \<Rightarrow> request_data" where
  "req_of s a = the (m_pReqData (sv_deref a s))"

definition outstanding :: "service \<Rightarrow> request_data multiset" where
  "outstanding s = image_mset (req_of s) (mset_set (pend s))"

definition ledger :: "service \<Rightarrow> request_data multiset" where
  "ledger s = outstanding s + answers s"

text \<open>What a call of the protected interface may change.\<close>

definition evo :: "service \<Rightarrow> service \<Rightarrow> bool" where
  "evo s s' \<longleftrightarrow>
     inv s' \<and> ledger s' = ledger s \<and> pend s' \<subseteq> pend s \<and>
     (\<forall>b. b \<notin> pend s \<longrightarrow> sv_heap s' b = sv_heap s b) \<and>
     sv_reqQ s' = sv_reqQ s \<and> sv_respQ s' = sv_respQ s \<and> sv_intQ s' = sv_intQ s \<and>
     (\<forall>b\<in>pend s'. req_of s' b = req_of s b) \<and>
     (wake s \<longrightarrow> wake s') \<and> (armed s \<longrightarrow> armed s')"

section \<open>Basic lemmas\<close>

lemma finite_timed [simp]: "finite {a. Some a \<in> set xs}"
proof -
  have "{a. Some a \<in> set xs} \<subseteq> the ` set xs" by force
  then show ?thesis by (rule finite_subset) simp
qed

lemma finite_pend [simp]: "finite (pend s)"
proof -
  have "finite {a. sv_cur s = Some a}" by (cases "sv_cur s") auto
  then show ?thesis by (simp add: pend_def)
qed

lemma inv_irrelevant [simp]:
  "inv (s\<lparr>sv_curReqId := x\<rparr>) = inv s" "inv (s\<lparr>sv_nr := x\<rparr>) = inv s"
  "inv (s\<lparr>sv_voice := i\<rparr>) = inv s" "inv (s\<lparr>sv_data := i\<rparr>) = inv s"
  "inv (s\<lparr>sv_radio := i\<rparr>) = inv s" "inv (s\<lparr>sv_modem := i\<rparr>) = inv s"
  by (simp_all add: inv_def pend_def live_def)

lemma pend_irrelevant [simp]:
  "pend (s\<lparr>sv_curReqId := x\<rparr>) = pend s" "pend (s\<lparr>sv_nr := x\<rparr>) = pend s"
  "pend (s\<lparr>sv_voice := i\<rparr>) = pend s" "pend (s\<lparr>sv_data := i\<rparr>) = pend s"
  "pend (s\<lparr>sv_radio := i\<rparr>) = pend s" "pend (s\<lparr>sv_modem := i\<rparr>) = pend s"
  "pend (s\<lparr>sv_pipe := p\<rparr>) = pend s" "pend (s\<lparr>sv_out := out\<rparr>) = pend s"
  "pend (s\<lparr>sv_heap := hp\<rparr>) = pend s" "pend (s\<lparr>sv_respQ := q\<rparr>) = pend s"
  "pend (s\<lparr>sv_intQ := q\<rparr>) = pend s"
  by (simp_all add: pend_def)

lemma ledger_cong:
  assumes "pend s' = pend s" and "answers s' = answers s"
    and "\<And>a. a \<in> pend s \<Longrightarrow> req_of s' a = req_of s a"
  shows "ledger s' = ledger s"
proof -
  have "image_mset (req_of s') (mset_set (pend s)) = image_mset (req_of s) (mset_set (pend s))"
    using assms(3) by (intro image_mset_cong) simp
  then show ?thesis using assms(1,2) by (simp add: ledger_def outstanding_def)
qed

lemma ledger_drop:
  assumes "a \<in> pend s" and "pend s' = pend s - {a}"
    and "answers s' = add_mset (req_of s a) (answers s)"
    and "\<And>b. b \<in> pend s' \<Longrightarrow> req_of s' b = req_of s b"
  shows "ledger s' = ledger s"
proof -
  have "mset_set (pend s) = add_mset a (mset_set (pend s'))"
    using assms(1,2) by (simp add: mset_set.remove)
  moreover have "image_mset (req_of s') (mset_set (pend s')) = image_mset (req_of s) (mset_set (pend s'))"
    using assms(2,4) by (intro image_mset_cong) simp
  ultimately show ?thesis using assms(3) by (simp add: ledger_def outstanding_def)
qed

lemma answers_simps [simp]:
  "answers (s\<lparr>sv_curReqId := x\<rparr>) = answers s" "answers (s\<lparr>sv_nr := x\<rparr>) = answers s"
  "answers (s\<lparr>sv_heap := hp\<rparr>) = answers s" "answers (s\<lparr>sv_cur := c\<rparr>) = answers s"
  "answers (s\<lparr>sv_timers := ts\<rparr>) = answers s" "answers (s\<lparr>sv_pipe := p\<rparr>) = answers s"
  "answers (s\<lparr>sv_reqQ := q\<rparr>) = answers s" "answers (s\<lparr>sv_respQ := q\<rparr>) = answers s"
  "answers (s\<lparr>sv_intQ := q\<rparr>) = answers s"
  "answers (s\<lparr>sv_out := sv_out s @ [ev]\<rparr>) = answers s + mset (answer_of ev)"
  by (simp_all add: answers_def)

lemma evo_refl [simp, intro]: "inv s \<Longrightarrow> evo s s"
  by (simp add: evo_def)

lemma evo_inv [dest]: "evo s s' \<Longrightarrow> inv s'"
  by (simp add: evo_def)

lemma evo_trans [trans]:
  assumes "evo s t" and "evo t u"
  shows "evo s u"
proof -
  have "sv_heap u b = sv_heap s b" if "b \<notin> pend s" for b
  proof -
    have "b \<notin> pend t" using assms(1) that by (auto simp: evo_def)
    then show ?thesis using assms that by (simp add: evo_def)
  qed
  then show ?thesis using assms by (auto simp: evo_def)
qed


section \<open>Primitive effects\<close>

lemma evo_emit:
  assumes "inv s" and "answer_of ev = []"
  shows "evo s (sv_emit ev s)"
proof -
  have "ledger (sv_emit ev s) = ledger s"
    using assms(2) by (intro ledger_cong) (simp_all add: sv_emit_def req_of_def sv_deref_def)
  moreover have "inv (sv_emit ev s)"
    using assms(1) by (simp add: inv_def live_def sv_emit_def pend_def)
  ultimately show ?thesis
    by (simp add: evo_def sv_emit_def wake_def armed_def req_of_def sv_deref_def)
qed

definition keeps :: "(message \<Rightarrow> message) \<Rightarrow> bool" where
  "keeps f \<longleftrightarrow> (\<forall>m. m_nDirection (f m) = m_nDirection m \<and> m_pReqData (f m) = m_pReqData m \<and>
     m_nAsyncMsgReqStatus (f m) = m_nAsyncMsgReqStatus m)"

lemma keeps_req_ok [simp]: "keeps f \<Longrightarrow> req_ok (f m) = req_ok m"
  by (simp add: keeps_def req_ok_def)

lemma pend_live: "inv s \<Longrightarrow> a \<in> pend s \<Longrightarrow> \<exists>m. sv_heap s a = Some m \<and> req_ok m"
  by (fastforce simp: inv_def live_def split: option.splits)

lemma pend_disjoint:
  assumes "inv s" and "a \<in> pend s"
  shows "a \<notin> set (sv_respQ s)" and "a \<notin> set (sv_intQ s)"
proof -
  obtain m where m: "sv_heap s a = Some m" "m_nDirection m = REQUEST"
    using pend_live [OF assms] by (auto simp: req_ok_def)
  show "a \<notin> set (sv_respQ s)" using assms(1) m by (auto simp: inv_def live_def resp_ok_def)
  show "a \<notin> set (sv_intQ s)" using assms(1) m by (auto simp: inv_def live_def int_ok_def)
qed

lemma evo_update:
  assumes "inv s" and "a \<in> pend s" and "keeps f"
  shows "evo s (sv_update a f s)"
proof -
  obtain m where m: "sv_heap s a = Some m" "req_ok m" using pend_live [OF assms(1,2)] by blast
  then have s': "sv_update a f s = s\<lparr>sv_heap := (sv_heap s)(a \<mapsto> f m)\<rparr>"
    by (simp add: sv_update_def)
  have "ledger (sv_update a f s) = ledger s"
    using m assms(3) unfolding s'
    by (intro ledger_cong) (auto simp: req_of_def sv_deref_def keeps_def)
  moreover have "req_of (sv_update a f s) b = req_of s b" for b
    using m assms(3) unfolding s' by (auto simp: req_of_def sv_deref_def keeps_def)
  moreover have "inv (sv_update a f s)"
    using assms(1) pend_disjoint [OF assms(1,2)] m assms(3) unfolding s'
    by (auto simp: inv_def live_def)
  ultimately show ?thesis
    using assms(2) by (auto simp: s' evo_def wake_def armed_def)
qed

lemma inv_cur_pend: "sv_cur s = Some a \<Longrightarrow> a \<in> pend s"
  by (simp add: pend_def)

lemma evo_rearm:
  assumes "inv s" and "sv_cur s = Some a"
  shows "evo s (sv_rearm e a ms s)" and "armed (sv_rearm e a ms s)"
    and "pend (sv_rearm e a ms s) = pend s"
proof -
  have d: "distinct (timed s)" using assms(1) by (simp add: inv_def)
  have T: "set (timed (sv_rearm e a ms s)) = insert (Some a) (set (timed s))"
    using d by (simp add: sv_rearm_def tlq_rearm_set)
  have D: "distinct (timed (sv_rearm e a ms s))"
    using d by (simp add: sv_rearm_def tlq_rearm_distinct)
  have p: "pend (sv_rearm e a ms s) = pend s"
    using T assms(2) by (auto simp: pend_def sv_rearm_def)
  have "ledger (sv_rearm e a ms s) = ledger s"
    using p by (intro ledger_cong) (simp_all add: sv_rearm_def req_of_def sv_deref_def)
  moreover have "inv (sv_rearm e a ms s)"
    using assms p T D by (auto simp: inv_def live_def sv_rearm_def)
  ultimately show "evo s (sv_rearm e a ms s)"
    using p T by (auto simp: evo_def wake_def armed_def sv_rearm_def req_of_def sv_deref_def)
  show "armed (sv_rearm e a ms s)" using T assms(2) by (simp add: armed_def sv_rearm_def)
  show "pend (sv_rearm e a ms s) = pend s" by (rule p)
qed


lemma notify_eq:
  assumes "inv s" and "e_pipe e"
  shows "snd (sv_NotifyNewMessage e d s) = s\<lparr>sv_pipe := Some (the (sv_pipe s) @ [d])\<rparr>"
  using assms by (auto simp: sv_NotifyNewMessage_def inv_def)

lemma evo_notify:
  assumes "inv s" and "e_pipe e"
  shows "evo s (snd (sv_NotifyNewMessage e d s))"
proof -
  let ?t = "s\<lparr>sv_pipe := Some (the (sv_pipe s) @ [d])\<rparr>"
  have "ledger ?t = ledger s" by (intro ledger_cong) (simp_all add: req_of_def sv_deref_def)
  moreover have "inv ?t" using assms(1) by (simp add: inv_def live_def)
  ultimately show ?thesis
    using assms
    by (auto simp: notify_eq evo_def wake_def armed_def req_of_def sv_deref_def split: option.splits)
qed

text \<open>
  The current request has been answered and its timer is gone: \<open>t\<close> is the state in which
  \<^verbatim>\<open>NotifyNextRequestMessage\<close> is then called.
\<close>

definition closing :: "addr \<Rightarrow> service \<Rightarrow> service \<Rightarrow> bool" where
  "closing a s t \<longleftrightarrow>
     sv_cur t = Some a \<and> sv_heap t = sv_heap s \<and> sv_reqQ t = sv_reqQ s \<and>
     sv_respQ t = sv_respQ s \<and> sv_intQ t = sv_intQ s \<and> sv_asyncQ t = sv_asyncQ s \<and>
     sv_hist t = sv_hist s \<and> sv_ub t = sv_ub s \<and> sv_ctx t = sv_ctx s \<and> sv_pipe t = sv_pipe s \<and>
     distinct (timed t) \<and> set (timed t) = set (timed s) - {Some a} \<and>
     answers t = add_mset (req_of s a) (answers s)"

lemma evo_close:
  assumes "inv s" and "sv_cur s = Some a" and "closing a s t" and "e_pipe e"
  shows "evo s (sv_NotifyNextRequestMessage e t)"
    and "sv_cur (sv_NotifyNextRequestMessage e t) = None"
proof -
  have ap: "a \<in> pend s" using assms(2) by (rule inv_cur_pend)
  obtain m where m: "sv_heap s a = Some m" using pend_live [OF assms(1) ap] by blast
  obtain p where p: "sv_pipe s = Some p" using assms(1) by (auto simp: inv_def)
  define u where
    "u = t\<lparr>sv_heap := (sv_heap t)(a := None), sv_cur := None, sv_pipe := Some (p @ [REQUEST])\<rparr>"
  have eq: "sv_NotifyNextRequestMessage e t = u"
    using assms(3,4) m p
    by (simp add: sv_NotifyNextRequestMessage_def sv_delete_def sv_NotifyNewMessage_def closing_def
        u_def)
  have pend: "pend u = pend s - {a}"
    using assms by (auto simp: u_def pend_def closing_def inv_def)
  have rq: "req_of u b = req_of s b" if "b \<in> pend u" for b
  proof -
    have "b \<noteq> a" using that pend by simp
    then show ?thesis using assms(3) by (simp add: u_def req_of_def sv_deref_def closing_def)
  qed
  moreover have "answers u = add_mset (req_of s a) (answers s)"
    using assms(3) by (simp add: u_def closing_def)
  then have "ledger u = ledger s" using ap pend rq by (intro ledger_drop)
  moreover have "inv u"
  proof -
    have "\<forall>b\<in>pend s - {a}. live req_ok b u"
      using assms(1,3) by (simp add: inv_def live_def u_def closing_def)
    then have "\<forall>b\<in>pend u. live req_ok b u" by (simp add: pend)
    moreover have "\<forall>b\<in>set (sv_respQ u). live resp_ok b u" "\<forall>b\<in>set (sv_intQ u). live int_ok b u"
      using assms(1,3) pend_disjoint [OF assms(1) ap] by (auto simp: inv_def live_def u_def closing_def)
    ultimately show ?thesis
      using assms(1,3) by (auto simp: inv_def u_def closing_def)
  qed
  moreover have "sv_heap u b = sv_heap s b" if "b \<notin> pend s" for b
    using that ap assms(3) by (auto simp: u_def closing_def)
  moreover have "wake u" "armed u" by (simp_all add: u_def wake_def armed_def)
  moreover have "sv_reqQ u = sv_reqQ s" "sv_respQ u = sv_respQ s" "sv_intQ u = sv_intQ s"
    using assms(3) by (simp_all add: u_def closing_def)
  ultimately show "evo s (sv_NotifyNextRequestMessage e t)"
    unfolding eq evo_def by (simp add: pend)
  show "sv_cur (sv_NotifyNextRequestMessage e t) = None" by (simp add: eq u_def)
qed

lemma evo_NotifyNext_idle:
  assumes "inv s" and "sv_cur s = None" and "e_pipe e"
  shows "evo s (sv_NotifyNextRequestMessage e s)"
  using assms evo_notify by (simp add: sv_NotifyNextRequestMessage_def)

lemma NotifyNext_curReqId [simp]:
  "sv_NotifyNextRequestMessage e (s\<lparr>sv_curReqId := x\<rparr>) =
     (sv_NotifyNextRequestMessage e s)\<lparr>sv_curReqId := x\<rparr>"
  by (simp add: sv_NotifyNextRequestMessage_def sv_delete_def sv_fault_def sv_NotifyNewMessage_def
      split: option.split)

lemma evo_curReqId [simp]:
  "evo s (t\<lparr>sv_curReqId := x\<rparr>) = evo s t" "evo (s\<lparr>sv_curReqId := x\<rparr>) t = evo s t"
  "evo s (t\<lparr>sv_nr := x\<rparr>) = evo s t" "evo (s\<lparr>sv_nr := x\<rparr>) t = evo s t"
  "evo (s\<lparr>sv_voice := i\<rparr>) t = evo s t" "evo (s\<lparr>sv_data := i\<rparr>) t = evo s t"
  "evo (s\<lparr>sv_radio := i\<rparr>) t = evo s t" "evo (s\<lparr>sv_modem := i\<rparr>) t = evo s t"
  "evo s (t\<lparr>sv_voice := i\<rparr>) = evo s t" "evo s (t\<lparr>sv_data := i\<rparr>) = evo s t"
  "evo s (t\<lparr>sv_radio := i\<rparr>) = evo s t" "evo s (t\<lparr>sv_modem := i\<rparr>) = evo s t"
  by (simp_all add: evo_def ledger_def outstanding_def req_of_def [abs_def] sv_deref_def answers_def
      wake_def armed_def)

lemma curReqId_frame [simp]:
  "ledger (s\<lparr>sv_curReqId := x\<rparr>) = ledger s" "wake (s\<lparr>sv_curReqId := x\<rparr>) = wake s"
  "armed (s\<lparr>sv_curReqId := x\<rparr>) = armed s"
  by (simp_all add: ledger_def outstanding_def req_of_def [abs_def] sv_deref_def answers_def
      wake_def armed_def)


section \<open>The protected interface keeps the invariant\<close>

definition msg_live :: "addr option \<Rightarrow> service \<Rightarrow> bool" where
  "msg_live pm s \<longleftrightarrow>
     (case pm of None \<Rightarrow> True | Some a \<Rightarrow> live (\<lambda>m. m_nAsyncMsgReqStatus m = ASYNC_NONE) a s)"

lemma msg_live_None [simp]: "msg_live None s"
  by (simp add: msg_live_def)

lemma msg_live_sync [simp]:
  "msg_live pm s \<Longrightarrow> sv_touch_opt pm s = s" "msg_live pm s \<Longrightarrow> sv_is_async pm s = False"
  by (auto simp: msg_live_def live_def sv_touch_opt_def sv_touch_def sv_is_async_def sv_deref_def
      split: option.splits)

lemma pend_msg_live: "inv s \<Longrightarrow> a \<in> pend s \<Longrightarrow> msg_live (Some a) s"
  by (auto dest!: pend_live simp: msg_live_def live_def req_ok_def)

lemma touch_pend [simp]: "inv s \<Longrightarrow> a \<in> pend s \<Longrightarrow> sv_touch a s = s"
  by (auto dest!: pend_live simp: sv_touch_def)

lemma pend_req:
  assumes "inv s" and "a \<in> pend s"
  shows "m_pReqData (sv_deref a s) = Some (req_of s a)"
  using pend_live [OF assms] by (auto simp: req_of_def sv_deref_def req_ok_def split: option.splits)

lemma inv_ctx: "inv s \<Longrightarrow> sv_ctx s"
  by (simp add: inv_def)

lemma keeps_send [simp]: "keeps (\<lambda>m. (msg_SetModemData md m)\<lparr>m_nTimeout := t\<rparr>)"
  and keeps_timeout [simp]: "keeps (\<lambda>m. m\<lparr>m_nTimeout := t\<rparr>)"
  by (simp_all add: keeps_def msg_SetModemData_def)

lemma update_frame [simp]:
  "sv_cur (sv_update a f s) = sv_cur s" "sv_timers (sv_update a f s) = sv_timers s"
  "sv_reqQ (sv_update a f s) = sv_reqQ s" "sv_ctx (sv_update a f s) = sv_ctx s"
  "sv_out (sv_update a f s) = sv_out s" "sv_pipe (sv_update a f s) = sv_pipe s"
  "pend (sv_update a f s) = pend s" "sv_radio (sv_update a f s) = sv_radio s"
  by (simp_all add: sv_update_def sv_fault_def pend_def split: option.split)

lemma emit_frame [simp]:
  "sv_cur (sv_emit ev s) = sv_cur s" "sv_timers (sv_emit ev s) = sv_timers s"
  "sv_reqQ (sv_emit ev s) = sv_reqQ s" "sv_ctx (sv_emit ev s) = sv_ctx s"
  "sv_heap (sv_emit ev s) = sv_heap s" "sv_pipe (sv_emit ev s) = sv_pipe s"
  "pend (sv_emit ev s) = pend s" "sv_radio (sv_emit ev s) = sv_radio s"
  by (simp_all add: sv_emit_def)

lemma evo_SendRequest:
  assumes "inv s" and "msg_live pm s"
  shows "evo s (snd (sv_SendRequest e md t res pm s))"
    and "sv_cur (snd (sv_SendRequest e md t res pm s)) = sv_cur s"
    and "sv_timers (snd (sv_SendRequest e md t res pm s)) = sv_timers s"
proof -
  show "evo s (snd (sv_SendRequest e md t res pm s))"
  proof (cases "md = None \<or> sv_cur s = None")
    case True
    then show ?thesis
      using assms by (auto simp: sv_SendRequest_def split: option.splits)
  next
    case False
    then obtain d a where da: "md = Some d" "sv_cur s = Some a" by auto
    let ?s1 = "sv_update a (\<lambda>m. (msg_SetModemData (Some d) m)\<lparr>m_nTimeout := to_int32 (uint t)\<rparr>) s"
    have "evo s ?s1" using assms da by (intro evo_update) (simp_all add: inv_cur_pend)
    also have "evo ?s1 (sv_emit (OSend d (sv_id ?s1) res (e_send e)) ?s1)"
      using calculation by (intro evo_emit) auto
    finally show ?thesis
      using assms da by (cases "e_send e") (simp_all add: sv_SendRequest_def Let_def inv_ctx)
  qed
  show "sv_cur (snd (sv_SendRequest e md t res pm s)) = sv_cur s"
    "sv_timers (snd (sv_SendRequest e md t res pm s)) = sv_timers s"
    using assms(2) by (simp_all add: sv_SendRequest_def Let_def split: option.split)
qed

lemma evo_SendRequest_default:
  assumes "inv s"
  shows "evo s (snd (sv_SendRequest_default e md t s))"
    and "sv_cur (snd (sv_SendRequest_default e md t s)) = sv_cur s"
    and "sv_timers (snd (sv_SendRequest_default e md t s)) = sv_timers s"
  using assms evo_SendRequest [OF assms msg_live_None]
  by (auto simp: sv_SendRequest_default_def inv_cur_pend Let_def split: option.split)

lemma evo_SendRequest_raw:
  assumes "inv s"
  shows "evo s (snd (sv_SendRequest_raw e md s))"
    and "sv_cur (snd (sv_SendRequest_raw e md s)) = sv_cur s"
    and "sv_timers (snd (sv_SendRequest_raw e md s)) = sv_timers s"
  using assms by (auto simp: sv_SendRequest_raw_def intro!: evo_emit split: option.split)

lemma closing_complete:
  assumes "inv s" and "sv_cur s = Some a"
  shows "closing a s
    ((sv_emit (OClearGarbage tok) (sv_emit (OComplete (req_of s a) res) s))
      \<lparr>sv_timers := tl_erase (Some a) (sv_timers s)\<rparr>)"
proof -
  have "distinct (timed s)" using assms(1) by (simp add: inv_def)
  then show ?thesis
    using assms by (simp add: closing_def sv_emit_def tlq.set_erase tlq.erase_distinct answers_def)
qed

lemma evo_OnRequestComplete:
  assumes "inv s" and "msg_live pm s" and "e_pipe e"
  shows "evo s (sv_OnRequestComplete e res pm s)"
    and "sv_cur (sv_OnRequestComplete e res pm s) = None"
proof -
  have "evo s (sv_OnRequestComplete e res pm s) \<and> sv_cur (sv_OnRequestComplete e res pm s) = None"
  proof (cases "sv_cur s")
    case None
    then have "sv_OnRequestComplete e res pm s = (sv_NotifyNextRequestMessage e s)\<lparr>sv_curReqId := 0\<rparr>"
      using assms by (simp add: sv_OnRequestComplete_def)
    moreover have "sv_cur (sv_NotifyNextRequestMessage e s) = None"
      using None assms by (simp add: sv_NotifyNextRequestMessage_def notify_eq)
    ultimately show ?thesis using evo_NotifyNext_idle [OF assms(1) None assms(3)] by simp
  next
    case (Some a)
    let ?t = "\<lambda>tok. (sv_emit (OClearGarbage tok) (sv_emit (OComplete (req_of s a) res) s))
      \<lparr>sv_timers := tl_erase (Some a) (sv_timers s)\<rparr>"
    have "a \<in> pend s" using Some by (rule inv_cur_pend)
    then have "sv_OnRequestComplete e res pm s =
        (sv_NotifyNextRequestMessage e (?t (msg_GetToken (sv_deref a s))))\<lparr>sv_curReqId := 0\<rparr>"
      using assms Some pend_req [OF assms(1)]
      by (simp add: sv_OnRequestComplete_def sv_complete_def inv_ctx)
    then show ?thesis
      using evo_close [OF assms(1) Some closing_complete [OF assms(1) Some] assms(3)] by simp
  qed
  then show "evo s (sv_OnRequestComplete e res pm s)"
    "sv_cur (sv_OnRequestComplete e res pm s) = None" by simp_all
qed


lemma evo_SetRequestTimeout:
  assumes "inv s"
  shows "evo s (snd (sv_SetRequestTimeout t s))"
    and "sv_cur (snd (sv_SetRequestTimeout t s)) = sv_cur s"
    and "sv_timers (snd (sv_SetRequestTimeout t s)) = sv_timers s"
    and "fst (sv_SetRequestTimeout t s) < 0 \<longleftrightarrow> sv_cur s = None"
    and "pend (snd (sv_SetRequestTimeout t s)) = pend s"
  using assms evo_update [OF assms]
  by (auto simp: sv_SetRequestTimeout_def inv_cur_pend split: option.split)

lemma evo_StartRequestTimeout:
  assumes "inv s"
  shows "evo s (sv_StartRequestTimeout e s)" and "armed (sv_StartRequestTimeout e s)"
    and "sv_cur (sv_StartRequestTimeout e s) = sv_cur s"
    and "pend (sv_StartRequestTimeout e s) = pend s"
proof -
  have "evo s (sv_StartRequestTimeout e s) \<and> armed (sv_StartRequestTimeout e s) \<and>
    sv_cur (sv_StartRequestTimeout e s) = sv_cur s \<and> pend (sv_StartRequestTimeout e s) = pend s"
  proof (cases "sv_cur s")
    case None
    then show ?thesis using assms by (simp add: sv_StartRequestTimeout_def armed_def)
  next
    case (Some a)
    define s1 where "s1 = (if m_nTimeout (sv_deref a s) \<le> 0
      then sv_update a (\<lambda>m. m\<lparr>m_nTimeout := 60000\<rparr>) s else sv_touch a s)"
    have ap: "a \<in> pend s" using Some by (rule inv_cur_pend)
    have 1: "evo s s1" using assms ap by (auto simp: s1_def intro!: evo_update)
    have c: "sv_cur s1 = Some a" "pend s1 = pend s" using assms ap Some by (simp_all add: s1_def)
    have "sv_StartRequestTimeout e s = sv_rearm e a (word_of_int (m_nTimeout (sv_deref a s1))) s1"
      using Some by (simp add: sv_StartRequestTimeout_def s1_def Let_def)
    then show ?thesis
      using evo_trans [OF 1 evo_rearm(1) [OF evo_inv [OF 1] c(1)]] c Some
        evo_rearm(2,3) [OF evo_inv [OF 1] c(1)] by simp (simp add: sv_rearm_def)
  qed
  then show "evo s (sv_StartRequestTimeout e s)" "armed (sv_StartRequestTimeout e s)"
    "sv_cur (sv_StartRequestTimeout e s) = sv_cur s"
    "pend (sv_StartRequestTimeout e s) = pend s" by auto
qed

lemma evo_ResetRequestTimeout:
  assumes "inv s"
  shows "evo s (snd (sv_ResetRequestTimeout e t s))" and "armed (snd (sv_ResetRequestTimeout e t s))"
    and "sv_cur (snd (sv_ResetRequestTimeout e t s)) = sv_cur s"
    and "pend (snd (sv_ResetRequestTimeout e t s)) = pend s"
proof -
  obtain r s1 where rs: "sv_SetRequestTimeout t s = (r, s1)" by force
  have 1: "evo s s1" "sv_cur s1 = sv_cur s" "r < 0 \<longleftrightarrow> sv_cur s = None" "pend s1 = pend s"
    using evo_SetRequestTimeout [OF assms, of t] by (simp_all add: rs)
  note 2 = evo_StartRequestTimeout [OF evo_inv [OF 1(1)]]
  show "evo s (snd (sv_ResetRequestTimeout e t s))"
    using 1 evo_trans [OF 1(1) 2(1)] by (simp add: sv_ResetRequestTimeout_def rs)
  show "armed (snd (sv_ResetRequestTimeout e t s))"
    using 1 2 by (simp add: sv_ResetRequestTimeout_def rs armed_def [of s1])
  show "sv_cur (snd (sv_ResetRequestTimeout e t s)) = sv_cur s"
    "pend (snd (sv_ResetRequestTimeout e t s)) = pend s"
    using 1 2 by (simp_all add: sv_ResetRequestTimeout_def rs)
qed

lemma evo_park:
  assumes "inv s" and "sv_cur s = Some a" and "e_pipe e"
  shows "evo s (snd (sv_NotifyNewMessage e REQUEST ((sv_rearm e a ms s)\<lparr>sv_cur := None\<rparr>)))"
    and "pend (snd (sv_NotifyNewMessage e REQUEST ((sv_rearm e a ms s)\<lparr>sv_cur := None\<rparr>))) = pend s"
proof -
  note r = evo_rearm [OF assms(1,2), of e ms]
  let ?r = "sv_rearm e a ms s"
  have c: "sv_cur ?r = Some a" and T: "Some a \<in> set (timed ?r)"
    using assms(2) r(2) by (simp_all add: sv_rearm_def armed_def)
  have pr: "pend ?r = pend s" by (rule r(3))
  have p: "pend (?r\<lparr>sv_cur := None\<rparr>) = pend ?r" using c T by (auto simp: pend_def)
  have i: "inv (?r\<lparr>sv_cur := None\<rparr>)"
    using evo_inv [OF r(1)] p by (auto simp: inv_def live_def)
  have l: "ledger (?r\<lparr>sv_cur := None\<rparr>) = ledger ?r"
    using p by (intro ledger_cong) (simp_all add: req_of_def sv_deref_def)
  note n = evo_notify [OF i assms(3), of REQUEST]
  have w: "wake (snd (sv_NotifyNewMessage e REQUEST (?r\<lparr>sv_cur := None\<rparr>)))"
    "armed (snd (sv_NotifyNewMessage e REQUEST (?r\<lparr>sv_cur := None\<rparr>)))"
    using i assms(3) by (simp_all add: notify_eq wake_def armed_def)
  show "pend (snd (sv_NotifyNewMessage e REQUEST (?r\<lparr>sv_cur := None\<rparr>))) = pend s"
    using i assms(3) p pr by (simp add: notify_eq)
  show "evo s (snd (sv_NotifyNewMessage e REQUEST (?r\<lparr>sv_cur := None\<rparr>)))"
    using n r(1) l w p pr by (auto simp: evo_def req_of_def sv_deref_def)
qed


lemma Postpone_eq:
  assumes "inv s" and "sv_cur s = Some a" and "e_pipe e"
  defines "u \<equiv> sv_update a (\<lambda>m. (msg_SetModemData None m)\<lparr>m_nTimeout := 0\<rparr>) s"
  shows "sv_PostponeRequestMessage e ms s =
    (snd (sv_NotifyNewMessage e REQUEST ((sv_rearm e a ms u)\<lparr>sv_cur := None\<rparr>)))\<lparr>sv_curReqId := 0\<rparr>"
proof -
  obtain m where m: "sv_heap s a = Some m"
    using pend_live [OF assms(1) inv_cur_pend [OF assms(2)]] by blast
  obtain p where p: "sv_pipe s = Some p" using assms(1) by (auto simp: inv_def)
  show ?thesis
    using assms(2,3) m p
    by (simp add: sv_PostponeRequestMessage_def u_def sv_update_def Let_def msg_GetToken_def
        msg_SetModemData_def sv_deref_def sv_rearm_def sv_NotifyNextRequestMessage_def
        sv_NotifyNewMessage_def)
qed

lemma evo_Postpone:
  assumes "inv s" and "e_pipe e"
  shows "evo s (sv_PostponeRequestMessage e ms s)"
    and "sv_cur (sv_PostponeRequestMessage e ms s) = None"
    and "pend (sv_PostponeRequestMessage e ms s) = pend s"
proof -
  have "evo s (sv_PostponeRequestMessage e ms s) \<and> sv_cur (sv_PostponeRequestMessage e ms s) = None
    \<and> pend (sv_PostponeRequestMessage e ms s) = pend s"
  proof (cases "sv_cur s")
    case None
    then show ?thesis
      using assms evo_notify [OF assms, of REQUEST]
      by (simp add: sv_PostponeRequestMessage_def sv_NotifyNextRequestMessage_def notify_eq)
  next
    case (Some a)
    let ?u = "sv_update a (\<lambda>m. (msg_SetModemData None m)\<lparr>m_nTimeout := 0\<rparr>) s"
    have 1: "evo s ?u" using assms Some by (intro evo_update) (simp_all add: inv_cur_pend)
    have c: "sv_cur ?u = Some a" using Some by simp
    note park = evo_park [OF evo_inv [OF 1] c assms(2), of ms]
    have "sv_pipe ?u \<noteq> None" using evo_inv [OF 1] by (simp add: inv_def)
    then have n: "sv_cur (snd (sv_NotifyNewMessage e REQUEST ((sv_rearm e a ms ?u)\<lparr>sv_cur := None\<rparr>))) = None"
      by (simp add: sv_NotifyNewMessage_def split: option.split)
    show ?thesis
      using evo_trans [OF 1 park(1)] park(2) n by (simp add: Postpone_eq [OF assms(1) Some assms(2)])
  qed
  then show "evo s (sv_PostponeRequestMessage e ms s)"
    "sv_cur (sv_PostponeRequestMessage e ms s) = None"
    "pend (sv_PostponeRequestMessage e ms s) = pend s" by auto
qed

section \<open>Scripts of derived classes\<close>

text \<open>
  A script may not pass on its message after completing it, because that frees the message when it
  is the current request.
\<close>

fun uses_msg :: "api \<Rightarrow> bool" where
  "uses_msg (ASend _ _ _ u) = u"
| "uses_msg (AComplete _ u) = u"
| "uses_msg _ = False"

fun closes :: "api \<Rightarrow> bool" where
  "closes (AComplete _ _) = True"
| "closes _ = False"

fun decides :: "api \<Rightarrow> bool" where
  "decides (AComplete _ _) = True"
| "decides (APostpone _) = True"
| "decides (AResetTimeout _) = True"
| "decides AFault = True"
| "decides _ = False"

fun use_ok :: "api list \<Rightarrow> bool" where
  "use_ok [] = True"
| "use_ok (x # xs) =
     (x \<noteq> AFault \<and> (if closes x then list_all (\<lambda>y. \<not> uses_msg y \<and> y \<noteq> AFault) xs else use_ok xs))"

definition sane :: "api list \<Rightarrow> bool" where
  "sane xs \<longleftrightarrow> list_all (\<lambda>x. x \<noteq> AFault) xs"

lemma evo_api:
  assumes "inv s" and "e_pipe e" and "uses_msg x \<Longrightarrow> msg_live pm s" and "x \<noteq> AFault"
  shows "evo s (sv_api e pm x s)"
  using assms
proof (cases x)
  case (AAck)
  then show ?thesis
    using assms pend_req [OF assms(1)]
    by (auto simp: sv_OnRequestAck_def inv_cur_pend intro!: evo_emit split: option.split)
qed (auto intro!: evo_SendRequest evo_SendRequest_default evo_SendRequest_raw evo_OnRequestComplete evo_Postpone evo_SetRequestTimeout
    evo_ResetRequestTimeout evo_emit simp: sv_OnUnsolicitedResponse_def)

lemma api_keeps_pend:
  assumes "inv s" and "e_pipe e" and "\<not> closes x"
    and "uses_msg x \<Longrightarrow> msg_live pm s" and "x \<noteq> AFault"
  shows "pend (sv_api e pm x s) = pend s"
  using assms
proof (cases x)
  case (ASend md t res u)
  then have l: "msg_live (if u then pm else None) s" using assms(4) by simp
  have "evo s (sv_api e pm x s)" using assms by (intro evo_api) auto
  then show ?thesis
    using ASend evo_SendRequest(2,3) [OF assms(1) l] by (simp add: pend_def evo_def)
next
  case (ASendDefault md t)
  then show ?thesis using evo_SendRequest_default [OF assms(1), of e md t] by (simp add: pend_def evo_def)
next
  case (ASendRaw md)
  then show ?thesis using evo_SendRequest_raw [OF assms(1), of e md] by (simp add: pend_def evo_def)
next
  case AAck
  then show ?thesis
    using assms(1) pend_req [OF assms(1)]
    by (auto simp: sv_OnRequestAck_def inv_cur_pend split: option.split)
qed (auto simp: sv_OnUnsolicitedResponse_def evo_Postpone evo_SetRequestTimeout
    evo_ResetRequestTimeout)


lemma api_passive:
  assumes "inv s" and "\<not> decides x" and "uses_msg x \<Longrightarrow> msg_live pm s"
  shows "sv_cur (sv_api e pm x s) = sv_cur s" and "sv_timers (sv_api e pm x s) = sv_timers s"
proof -
  have "sv_cur (sv_api e pm x s) = sv_cur s \<and> sv_timers (sv_api e pm x s) = sv_timers s"
  proof (cases x)
    case (ASend md t res u)
    then have "msg_live (if u then pm else None) s" using assms(3) by simp
    then show ?thesis using ASend evo_SendRequest(2,3) [OF assms(1)] by simp
  next
    case AAck
    then show ?thesis
      using assms(1) pend_req [OF assms(1)]
      by (auto simp: sv_OnRequestAck_def inv_cur_pend split: option.split)
  qed (use assms in \<open>auto simp: sv_OnUnsolicitedResponse_def evo_SetRequestTimeout
      evo_SendRequest_default evo_SendRequest_raw\<close>)
  then show "sv_cur (sv_api e pm x s) = sv_cur s" "sv_timers (sv_api e pm x s) = sv_timers s"
    by auto
qed

lemma api_decides_armed:
  assumes "inv s" and "e_pipe e" and "decides x" and "uses_msg x \<Longrightarrow> msg_live pm s" and "x \<noteq> AFault"
  shows "armed (sv_api e pm x s)"
  using assms
  by (cases x) (auto simp: evo_ResetRequestTimeout evo_OnRequestComplete evo_Postpone armed_def [of "_ e _ _"]
      armed_def [of "_ e _ _ _"])

text \<open>A message the service does not own stays as it is while a script runs.\<close>

lemma msg_live_evo:
  assumes "evo s t" and "msg_live pm s" and "\<And>a. pm = Some a \<Longrightarrow> a \<notin> pend s"
  shows "msg_live pm t" and "\<And>a. pm = Some a \<Longrightarrow> a \<notin> pend t"
  using assms by (auto simp: msg_live_def live_def evo_def split: option.splits)

lemma evo_script_foreign:
  assumes "inv s" and "e_pipe e" and "msg_live pm s" and "\<And>a. pm = Some a \<Longrightarrow> a \<notin> pend s"
    and "sane xs"
  shows "evo s (sv_script e pm xs s)"
  using assms
proof (induction xs arbitrary: s)
  case (Cons x xs)
  have 1: "evo s (sv_api e pm x s)" using Cons.prems by (intro evo_api) (auto simp: sane_def)
  have "evo (sv_api e pm x s) (sv_script e pm xs (sv_api e pm x s))"
    using 1 Cons.prems(2,5) msg_live_evo [OF 1 Cons.prems(3,4)]
    by (intro Cons.IH) (auto simp: sane_def)
  then show ?case using evo_trans [OF 1] by simp
qed simp

lemma evo_script_quiet:
  assumes "inv s" and "e_pipe e" and "list_all (\<lambda>y. \<not> uses_msg y \<and> y \<noteq> AFault) xs"
  shows "evo s (sv_script e pm xs s)"
  using assms
proof (induction xs arbitrary: s)
  case (Cons x xs)
  have 1: "evo s (sv_api e pm x s)" using Cons.prems by (intro evo_api) auto
  then show ?case using Cons evo_trans [OF 1] by auto
qed simp

lemma evo_script_own:
  assumes "inv s" and "e_pipe e" and "use_ok xs" and "a \<in> pend s"
  shows "evo s (sv_script e (Some a) xs s)"
  using assms
proof (induction xs arbitrary: s)
  case (Cons x xs)
  have l: "msg_live (Some a) s" using Cons.prems by (intro pend_msg_live)
  have 1: "evo s (sv_api e (Some a) x s)" using Cons.prems l by (intro evo_api) auto
  have "evo (sv_api e (Some a) x s) (sv_script e (Some a) xs (sv_api e (Some a) x s))"
  proof (cases "closes x")
    case True
    then show ?thesis using Cons.prems 1 by (intro evo_script_quiet) auto
  next
    case False
    have "pend (sv_api e (Some a) x s) = pend s"
      using Cons.prems False l by (intro api_keeps_pend) auto
    then show ?thesis using Cons.prems False 1 by (intro Cons.IH) auto
  qed
  then show ?case using evo_trans [OF 1] by simp
qed simp

lemma script_passive:
  assumes "inv s" and "e_pipe e" and "list_all (\<lambda>x. \<not> decides x) xs" and "a \<in> pend s"
  shows "sv_cur (sv_script e (Some a) xs s) = sv_cur s"
    and "sv_timers (sv_script e (Some a) xs s) = sv_timers s"
proof -
  have "sv_cur (sv_script e (Some a) xs s) = sv_cur s \<and>
    sv_timers (sv_script e (Some a) xs s) = sv_timers s"
    using assms
  proof (induction xs arbitrary: s)
    case (Cons x xs)
    have l: "msg_live (Some a) s" using Cons.prems by (intro pend_msg_live)
    have x: "\<not> closes x" "x \<noteq> AFault" using Cons.prems by (cases x; auto)+
    then have "evo s (sv_api e (Some a) x s)" using Cons.prems l by (intro evo_api) auto
    then have i: "inv (sv_api e (Some a) x s)" by (rule evo_inv)
    have p: "pend (sv_api e (Some a) x s) = pend s"
      using Cons.prems l x by (intro api_keeps_pend) auto
    have "sv_cur (sv_api e (Some a) x s) = sv_cur s" "sv_timers (sv_api e (Some a) x s) = sv_timers s"
      using Cons.prems l by (auto intro!: api_passive)
    then show ?case using Cons i p by simp
  qed simp
  then show "sv_cur (sv_script e (Some a) xs s) = sv_cur s"
    "sv_timers (sv_script e (Some a) xs s) = sv_timers s" by auto
qed

lemma passive_use_ok: "list_all (\<lambda>x. \<not> decides x) xs \<Longrightarrow> use_ok xs"
proof (induction xs)
  case (Cons x xs)
  then show ?case by (cases x) auto
qed simp


lemma script_decided:
  assumes "inv s" and "e_pipe e" and "use_ok xs" and "a \<in> pend s" and "list_ex decides xs"
  shows "armed (sv_script e (Some a) xs s)"
  using assms
proof (induction xs arbitrary: s)
  case (Cons x xs)
  let ?t = "sv_api e (Some a) x s"
  have l: "msg_live (Some a) s" using Cons.prems by (intro pend_msg_live)
  have i: "evo s ?t" using Cons.prems l by (intro evo_api) auto
  have p: "pend ?t = pend s" if "\<not> closes x"
    using Cons.prems that l by (intro api_keeps_pend) auto
  have rest: "evo ?t (sv_script e (Some a) xs ?t)"
  proof (cases "closes x")
    case True
    then show ?thesis using Cons.prems i by (intro evo_script_quiet) auto
  next
    case False
    then show ?thesis using Cons.prems i p by (intro evo_script_own) auto
  qed
  show ?case
  proof (cases "decides x")
    case True
    then have "armed ?t" using Cons.prems l by (intro api_decides_armed) auto
    then show ?thesis using rest by (simp add: evo_def)
  next
    case False
    then have "\<not> closes x" by (cases x) auto
    then show ?thesis using Cons False i p by auto
  qed
qed simp

end
