(* ===== verification/Service_Safety.thy ===== *)
theory Service_Safety
  imports Service_Inv
begin

text \<open>
  The handlers of the service thread keep the invariant, for every derived class that honours the
  contract below; the step relation of a service with its clients; and the properties of all
  reachable states.
\<close>

section \<open>The contract of a derived class\<close>

text \<open>
  \<^verbatim>\<open>OnHandleRequest\<close> may return \<^verbatim>\<open>FALSE\<close> only while the request is
  still open, because the caller then answers it.  \<^verbatim>\<open>OnHandleRequestTimeout\<close> returns
  \<^verbatim>\<open>TRUE\<close> exactly when it completed, postponed or re-armed the request.  Neither
  passes on its message after completing it.
\<close>

definition undecided :: "api list \<Rightarrow> bool" where
  "undecided xs \<longleftrightarrow> list_all (\<lambda>x. \<not> decides x) xs"

text \<open>What a handler of the service thread keeps.\<close>

definition sound :: "service \<Rightarrow> service \<Rightarrow> bool" where
  "sound s s' \<longleftrightarrow>
     inv s' \<and> ledger s' = ledger s \<and> (wake s \<longrightarrow> wake s') \<and> (armed s \<longrightarrow> armed s')"

lemma evo_sound: "evo s t \<Longrightarrow> sound s t"
  by (simp add: evo_def sound_def)

lemma sound_trans [trans]: "sound s t \<Longrightarrow> sound t u \<Longrightarrow> sound s u"
  by (simp add: sound_def)

lemma sound_delete:
  assumes "inv s" and "sv_heap s a \<noteq> None" and "a \<notin> pend s" and "a \<notin> set (sv_respQ s)"
    and "a \<notin> set (sv_intQ s)"
  shows "sound s (sv_delete a s)"
proof -
  have eq: "sv_delete a s = s\<lparr>sv_heap := (sv_heap s)(a := None)\<rparr>"
    using assms(2) by (auto simp: sv_delete_def)
  have "ledger (sv_delete a s) = ledger s"
    unfolding eq using assms(3) by (intro ledger_cong) (auto simp: req_of_def sv_deref_def)
  moreover have "inv (sv_delete a s)"
    unfolding eq using assms by (auto simp: inv_def live_def)
  ultimately show ?thesis by (simp add: sound_def eq wake_def armed_def)
qed

text \<open>Taking the first request and making it the current one.\<close>

lemma take_request:
  fixes i :: u32
  assumes "inv s" and "sv_cur s = None" and "sv_reqQ s = a # as"
  defines "t \<equiv> s\<lparr>sv_reqQ := as, sv_curReqId := i, sv_cur := Some a\<rparr>"
  shows "inv t" and "ledger t = ledger s" and "a \<in> pend t" and "Some a \<notin> set (timed t)"
    and "req_of t a = req_of s a"
proof -
  have p: "pend t = pend s" using assms by (auto simp: pend_def)
  show "inv t" using assms p by (auto simp: inv_def live_def)
  show "ledger t = ledger s"
    using p by (intro ledger_cong) (simp_all add: t_def answers_def req_of_def sv_deref_def)
  show "a \<in> pend t" by (simp add: t_def pend_def)
  show "Some a \<notin> set (timed t)" using assms by (auto simp: inv_def)
  show "req_of t a = req_of s a" by (simp add: t_def req_of_def sv_deref_def)
qed

lemma refuse_request:
  fixes res :: int
  assumes "inv s" and "sv_cur s = None" and "sv_reqQ s = a # as" and "e_pipe e"
  defines "t \<equiv> sv_NotifyNextRequestMessage e (sv_emit (OComplete (req_of s a) res) (s\<lparr>sv_reqQ := as\<rparr>))"
  shows "inv t" and "ledger t = ledger s" and "wake t" and "armed t"
proof -
  obtain p where p: "sv_pipe s = Some p" using assms(1) by (auto simp: inv_def)
  have t: "t = s\<lparr>sv_reqQ := as, sv_out := sv_out s @ [OComplete (req_of s a) res],
      sv_pipe := Some (p @ [REQUEST])\<rparr>"
    using assms(2,4) p
    by (simp add: t_def sv_NotifyNextRequestMessage_def sv_NotifyNewMessage_def sv_emit_def)
  have a: "a \<in> pend s" using assms(3) by (simp add: pend_def)
  have pt: "pend t = pend s - {a}"
    using assms(1,2,3) by (auto simp: t pend_def inv_def)
  show "ledger t = ledger s"
    using a pt by (rule ledger_drop) (simp_all add: t answers_def req_of_def sv_deref_def)
  have "\<forall>b\<in>pend s - {a}. live req_ok b t" using assms(1) by (simp add: inv_def live_def t)
  then have "\<forall>b\<in>pend t. live req_ok b t" by (simp add: pt)
  then show "inv t" using assms(1,3) by (simp add: inv_def live_def t)
  show "wake t" "armed t" using assms(2) by (simp_all add: t wake_def armed_def)
qed

lemma closing_emit:
  assumes "inv s" and "sv_cur s = Some a" and "Some a \<notin> set (timed s)"
    and "answer_of ev = [req_of s a]"
  shows "closing a s (sv_emit ev s)"
  using assms by (auto simp: closing_def sv_emit_def inv_def answers_def)

text \<open>Expiry of the earliest timer: of the current request, or of a postponed one.\<close>

lemma ctx_emit [simp]: "inv s \<Longrightarrow> sv_ctx_emit ev s = sv_emit ev s"
  by (simp add: sv_ctx_emit_def inv_ctx)

lemma evo_CheckCounts:
  assumes "inv s"
  shows "evo s (sv_CheckCountsForTimeOut md s)"
    and "sv_cur (sv_CheckCountsForTimeOut md s) = sv_cur s"
    and "sv_timers (sv_CheckCountsForTimeOut md s) = sv_timers s"
  using assms evo_emit [of "s\<lparr>sv_nr := sv_nr s + 1\<rparr>"]
  by (auto simp: sv_CheckCountsForTimeOut_def Let_def split: option.split)

lemma pop_current:
  assumes "inv s" and "mList (sv_timers s) = te # es" and "te_msg te = Some a" and "sv_cur s = Some a"
  defines "t \<equiv> s\<lparr>sv_timers := (sv_timers s)\<lparr>mList := es\<rparr>\<rparr>"
  shows "inv t" and "ledger t = ledger s" and "a \<in> pend t" and "Some a \<notin> set (timed t)"
    and "req_of t b = req_of s b"
proof -
  have T: "timed s = Some a # timed t" using assms(2,3) by (simp add: t_def tl_msgs_def)
  have p: "pend t = pend s" using T assms(4) by (auto simp: t_def pend_def)
  show "inv t" using assms(1) T p by (auto simp: inv_def live_def t_def)
  show "ledger t = ledger s"
    using p by (intro ledger_cong) (simp_all add: t_def req_of_def sv_deref_def)
  show "a \<in> pend t" using assms(4) by (simp add: t_def pend_def)
  show "Some a \<notin> set (timed t)" using assms(1) T by (simp add: inv_def)
  show "req_of t b = req_of s b" by (simp add: t_def req_of_def sv_deref_def)
qed

lemma pop_postponed:
  assumes "inv s" and "mList (sv_timers s) = te # es" and "te_msg te = Some a" and "sv_cur s \<noteq> Some a"
    and "e_pipe e"
  defines "t \<equiv> snd (sv_NotifyNewMessage e REQUEST
                  (snd (sv_EnQueue (Some a) (s\<lparr>sv_timers := (sv_timers s)\<lparr>mList := es\<rparr>\<rparr>))))"
  shows "inv t" and "ledger t = ledger s" and "wake t" and "armed s \<Longrightarrow> armed t"
proof -
  have T: "timed s = Some a # map te_msg es" using assms(2,3) by (simp add: tl_msgs_def)
  then have ap: "a \<in> pend s" by (simp add: pend_def)
  obtain m where m: "sv_heap s a = Some m" "m_nDirection m = REQUEST"
    using pend_live [OF assms(1) ap] by (auto simp: req_ok_def)
  obtain p where p: "sv_pipe s = Some p" using assms(1) by (auto simp: inv_def)
  have t: "t = s\<lparr>sv_timers := (sv_timers s)\<lparr>mList := es\<rparr>, sv_reqQ := sv_reqQ s @ [a],
      sv_pipe := Some (p @ [REQUEST])\<rparr>"
    using m p assms(5)
    by (simp add: t_def sv_EnQueue_def sv_touch_def sv_deref_def sv_NotifyNewMessage_def)
  have T': "timed t = map te_msg es" by (simp add: t tl_msgs_def)
  have pt: "pend t = pend s" unfolding pend_def T T' by (auto simp: t)
  show "ledger t = ledger s"
    using pt by (rule ledger_cong) (simp_all add: t answers_def req_of_def sv_deref_def)
  have "\<forall>b\<in>pend t. live req_ok b t" using assms(1) unfolding pt by (simp add: inv_def live_def t)
  then show "inv t" using assms(1,4) T T' by (auto simp: inv_def live_def t)
  show "wake t" by (simp add: t wake_def)
  show "armed t" if "armed s" using that assms(4) unfolding armed_def T T' by (auto simp: t)
qed

text \<open>A message taken from the response or internal queue, while it is handled and freed.\<close>

definition held :: "addr \<Rightarrow> service \<Rightarrow> bool" where
  "held a s \<longleftrightarrow> inv s \<and> msg_live (Some a) s \<and> a \<notin> pend s \<and> a \<notin> set (sv_respQ s) \<and> a \<notin> set (sv_intQ s)"

lemma held_heap: "held a s \<Longrightarrow> sv_heap s a \<noteq> None"
  by (auto simp: held_def msg_live_def live_def split: option.splits)

lemma held_touch [simp]: "held a s \<Longrightarrow> sv_touch a s = s"
  using held_heap [of a s] by (auto simp: sv_touch_def)

lemma held_evo:
  assumes "held a s" and "evo s t"
  shows "held a t"
proof -
  have "msg_live (Some a) t" "a \<notin> pend t"
    using assms msg_live_evo [OF assms(2), of "Some a"] by (auto simp: held_def)
  then show ?thesis using assms by (simp add: held_def evo_def)
qed

lemma held_sound_delete: "held a s \<Longrightarrow> sound s (sv_delete a s)"
  using held_heap [of a s] by (intro sound_delete) (auto simp: held_def)

lemma held_finish: "held a s \<Longrightarrow> evo s t \<Longrightarrow> sound s (sv_delete a t)"
  by (meson evo_sound held_evo held_sound_delete sound_trans)

lemma held_run: "held a s \<Longrightarrow> e_pipe e \<Longrightarrow> sane (fst (h e s a)) \<Longrightarrow> evo s (snd (sv_run e h a s))"
  by (auto simp: sv_run_def split_beta held_def intro!: evo_script_foreign)

lemma held_complete: "held a s \<Longrightarrow> e_pipe e \<Longrightarrow> evo s (sv_OnRequestComplete e res (Some a) s)"
  by (auto simp: held_def intro!: evo_OnRequestComplete)

lemma take_response:
  assumes "inv s" and "sv_respQ s = a # as"
  shows "held a (s\<lparr>sv_respQ := as\<rparr>)" and "sound s (s\<lparr>sv_respQ := as\<rparr>)"
proof -
  obtain m where m: "sv_heap s a = Some m" "resp_ok m"
    using assms by (auto simp: inv_def live_def split: option.splits)
  have n: "a \<notin> pend s" "a \<notin> set (sv_intQ s)"
    using m pend_live [OF assms(1)] assms(1)
    by (auto simp: req_ok_def resp_ok_def inv_def live_def int_ok_def)
  have i: "inv (s\<lparr>sv_respQ := as\<rparr>)" using assms by (simp add: inv_def live_def)
  then show "held a (s\<lparr>sv_respQ := as\<rparr>)"
    using assms m n by (auto simp: held_def msg_live_def live_def resp_ok_def inv_def)
  have "ledger (s\<lparr>sv_respQ := as\<rparr>) = ledger s"
    by (intro ledger_cong) (simp_all add: req_of_def sv_deref_def)
  then show "sound s (s\<lparr>sv_respQ := as\<rparr>)" using i by (simp add: sound_def wake_def armed_def)
qed

lemma take_internal:
  assumes "inv s" and "sv_intQ s = a # as"
  shows "held a (s\<lparr>sv_intQ := as\<rparr>)" and "sound s (s\<lparr>sv_intQ := as\<rparr>)"
    and "user_ok (sv_deref a (s\<lparr>sv_intQ := as\<rparr>))"
proof -
  obtain m where m: "sv_heap s a = Some m" "int_ok m"
    using assms by (auto simp: inv_def live_def split: option.splits)
  have n: "a \<notin> pend s" "a \<notin> set (sv_respQ s)"
    using m pend_live [OF assms(1)] assms(1)
    by (auto simp: req_ok_def resp_ok_def inv_def live_def int_ok_def)
  have i: "inv (s\<lparr>sv_intQ := as\<rparr>)" using assms by (simp add: inv_def live_def)
  then show "held a (s\<lparr>sv_intQ := as\<rparr>)"
    using assms m n by (auto simp: held_def msg_live_def live_def int_ok_def inv_def)
  have "ledger (s\<lparr>sv_intQ := as\<rparr>) = ledger s"
    by (intro ledger_cong) (simp_all add: req_of_def sv_deref_def)
  then show "sound s (s\<lparr>sv_intQ := as\<rparr>)" using i by (simp add: sound_def wake_def armed_def)
  show "user_ok (sv_deref a (s\<lparr>sv_intQ := as\<rparr>))" using m by (simp add: sv_deref_def int_ok_def)
qed

locale derived_service =
  fixes H :: handlers
  assumes request_use: "live req_ok a s \<Longrightarrow> use_ok (fst (h_request H e s a))"
    and request_open: "\<not> snd (h_request H e s a) \<Longrightarrow> undecided (fst (h_request H e s a))"
    and timeout_use: "use_ok (fst (h_timeout H e s a))"
    and timeout_open: "\<not> snd (h_timeout H e s a) \<Longrightarrow> undecided (fst (h_timeout H e s a))"
    and timeout_done: "snd (h_timeout H e s a) \<Longrightarrow> list_ex decides (fst (h_timeout H e s a))"
    and solicited_sane: "sane (fst (h_solicited H e s a))"
    and unsolicited_sane: "sane (fst (h_unsolicited H e s a))"
    and internal_sane: "sane (fst (h_internal H e s a))"
    and callback_sane: "sane (h_callback H s c)"
begin

lemma handle_response:
  assumes "inv s" and "e_pipe e"
  shows "sound s (snd (sv_HandleResponse e H s))"
proof -
  let ?s = "s\<lparr>sv_nr := 0\<rparr>"
  have s0: "sound s ?s" "inv ?s"
    using assms(1) evo_refl [of s] by (auto simp del: evo_refl intro!: evo_sound)
  show ?thesis
  proof (cases "sv_respQ s")
    case Nil
    then show ?thesis using s0 by (simp add: sv_HandleResponse_def sv_respDeQ_def)
  next
    case (Cons a as)
    then have "sv_respQ ?s = a # as" by simp
    note t = take_response [OF s0(2) this]
    let ?s1 = "?s\<lparr>sv_respQ := as\<rparr>"
    have run: "evo ?s1 (snd (sv_run e (h_solicited H) a ?s1))"
      "evo ?s1 (snd (sv_run e (h_unsolicited H) a ?s1))"
      using t(1) assms(2) solicited_sane unsolicited_sane by (auto intro!: held_run)
    have fin: "sound s (sv_delete a u)" if "evo ?s1 u" for u
      using s0(1) t(2) held_finish [OF t(1) that] sound_trans by blast
    have comp: "evo ?s1 (sv_OnRequestComplete e res (Some a) (snd (sv_run e (h_solicited H) a ?s1)))"
      for res
      using run(1) held_complete [OF held_evo [OF t(1) run(1)] assms(2)] evo_trans by blast
    show ?thesis
      using Cons t(1) fin [OF run(1)] fin [OF run(2)] fin [OF comp] fin [OF evo_refl]
      by (auto simp: sv_HandleResponse_def sv_respDeQ_def Let_def split_beta held_def
          split: option.split)
  qed
qed

text \<open>System events and the notification methods.\<close>

lemma evo_callback:
  assumes "evo s t" and "e_pipe e"
  shows "evo s (sv_notify e H c t)"
proof -
  have 1: "evo t (sv_emit (OCallback c) t)" using assms(1) by (intro evo_emit) auto
  have "evo (sv_emit (OCallback c) t) (sv_notify e H c t)"
    unfolding sv_notify_def using 1 assms(2) callback_sane by (intro evo_script_foreign) auto
  then show ?thesis using assms(1) 1 evo_trans by blast
qed

lemma evo_if: "(b \<Longrightarrow> evo s u) \<Longrightarrow> (\<not> b \<Longrightarrow> evo s t) \<Longrightarrow> evo s (if b then u else t)"
  by simp

lemma evo_SetRadioState:
  assumes "inv s" and "e_pipe e"
  shows "evo s (sv_SetRadioState e H st f s)"
proof -
  have "evo s s" using assms(1) by simp
  then show ?thesis
    unfolding sv_SetRadioState_def Let_def sv_SetRadioStateUnavailable_def
    using assms(2) by (intro evo_if evo_callback) simp_all
qed

lemma evo_fail_current:
  assumes "inv s" and "e_pipe e"
  shows "evo s (sv_fail_current e pass s)"
  using assms pend_req [OF assms(1)]
  by (auto simp: sv_fail_current_def inv_cur_pend inv_ctx evo_OnRequestComplete split: option.split)

lemma user_ints_get:
  assumes "user_ok m" and "m_pUserData m = Some d" and "0 < user_ints m"
  obtains xs where "d = RilDataInts xs" and "user_ints m \<le> length xs"
  using assms by (cases d) (auto simp: user_ok_def)

lemma evo_on_radio:
  assumes "inv s" and "e_pipe e" and "user_ok m" and "m_nMsgId m = MSG_SYSTEM_RADIO_STATE_CHANGED"
  shows "evo s (sv_on_radio e H m s)"
proof -
  have u: "user_ints m = 1"
    using assms(4)
    by (simp add: user_ints_def MSG_SYSTEM_RADIO_STATE_CHANGED_def MSG_SYSTEM_SIM_STATUS_CHANGED_def
        MSG_SYSTEM_DATA_CALL_STATE_CHANGED_def)
  obtain st where st: "(case m_pUserData m of
           Some d \<Rightarrow> (case ints_GetInt d 0 of
                        Some v \<Rightarrow> (v, s) | None \<Rightarrow> (RADIO_STATE_UNAVAILABLE, sv_fault s))
         | None \<Rightarrow> if sv_ctx s then (if e_uicc e = 0 then RADIO_STATE_OFF else e_radio e, s)
                   else (RADIO_STATE_UNAVAILABLE, sv_fault s)) = (st, s)"
  proof (cases "m_pUserData m")
    case None
    then show ?thesis using that inv_ctx [OF assms(1)] by auto
  next
    case (Some d)
    obtain xs where "d = RilDataInts xs" "1 \<le> length xs"
      using user_ints_get [OF assms(3) Some] u by auto
    then show ?thesis using that [of "xs ! 0"] Some by (cases xs) simp_all
  qed
  let ?t = "sv_SetRadioState e H st True s"
  have 1: "evo s ?t" using assms by (intro evo_SetRadioState)
  then have 2: "evo s (sv_fail_current e p ?t)" for p
    using evo_fail_current [OF _ assms(2), of ?t] evo_trans by blast
  show ?thesis
    unfolding sv_on_radio_def st prod.case Let_def
    using assms(2) 1 2 by (intro evo_callback evo_if) simp_all
qed

lemma evo_on_modem:
  assumes "inv s" and "e_pipe e"
  shows "evo s (sv_on_modem e H st s)"
proof -
  have "evo s (s\<lparr>sv_modem := st\<rparr>)" using assms(1) by simp
  then show ?thesis using assms(2) by (simp add: sv_on_modem_def Let_def evo_callback)
qed

lemma evo_with_ints:
  assumes "inv s" and "user_ok m" and "user_ints m = n" and "0 < n" and "\<And>v. evo s (f v s)"
  shows "evo s (sv_with_ints n m f s)"
proof (cases "m_pUserData m")
  case None
  then show ?thesis using assms(1) by (simp add: sv_with_ints_def)
next
  case (Some d)
  obtain xs where "d = RilDataInts xs" "n \<le> length xs"
    using user_ints_get [OF assms(2) Some] assms(3,4) by auto
  then show ?thesis using assms(5) Some by (simp add: sv_with_ints_def)
qed

lemma evo_on_imsi:
  assumes "inv s" and "e_pipe e" and "user_ok m" and "m_nMsgId m = MSG_SYSTEM_IMSI_UPDATED"
  shows "evo s (sv_on_imsi e H m s)"
proof (cases "m_pUserData m")
  case None
  then show ?thesis using assms(1) by (simp add: sv_on_imsi_def)
next
  case (Some d)
  then obtain xs where "d = RilDataStrings xs" using assms(3,4) by (cases d) (auto simp: user_ok_def)
  then show ?thesis using Some assms(1,2) by (simp add: sv_on_imsi_def evo_callback)
qed

lemmas msg_system_ids =
  MSG_SYSTEM_RADIO_STATE_CHANGED_def MSG_SYSTEM_VOICE_REGISTRTION_STATE_CHANGED_def
  MSG_SYSTEM_DATA_REGISTRTION_STATE_CHANGED_def MSG_SYSTEM_SERVICE_TATE_CHANGED_def
  MSG_SYSTEM_SIM_STATUS_CHANGED_def MSG_SYSTEM_IMSI_UPDATED_def MSG_SYSTEM_RESET_def
  MSG_SYSTEM_DATA_CALL_STATE_CHANGED_def MSG_SYSTEM_MODEM_STATE_CHANGED_def

lemma user_ints_ids:
  "m_nMsgId m = MSG_SYSTEM_SIM_STATUS_CHANGED \<Longrightarrow> user_ints m = 2"
  "m_nMsgId m = MSG_SYSTEM_DATA_CALL_STATE_CHANGED \<Longrightarrow> user_ints m = 2"
  "m_nMsgId m = MSG_SYSTEM_VOICE_REGISTRTION_STATE_CHANGED \<Longrightarrow> user_ints m = 1"
  "m_nMsgId m = MSG_SYSTEM_DATA_REGISTRTION_STATE_CHANGED \<Longrightarrow> user_ints m = 1"
  "m_nMsgId m = MSG_SYSTEM_MODEM_STATE_CHANGED \<Longrightarrow> user_ints m = 1"
  by (simp_all add: user_ints_def msg_system_ids)

lemma evo_system:
  assumes "held a s" and "e_pipe e" and "user_ok m"
  shows "evo s (sv_system e H a m s)"
proof -
  have i: "inv s" "evo s s" using assms(1) by (simp_all add: held_def)
  note cb = evo_callback [OF _ assms(2)]
  show ?thesis
    unfolding sv_system_def Let_def
    using i assms(2,3) held_run [where h = "h_internal H", OF assms(1,2) internal_sane]
    by (intro evo_if evo_on_radio evo_on_imsi evo_with_ints evo_on_modem cb)
      (simp_all add: user_ints_ids)
qed

lemma handle_internal:
  assumes "inv s" and "e_pipe e"
  shows "sound s (snd (sv_HandleInternalMessage e H s))"
proof (cases "sv_intQ s")
  case Nil
  then show ?thesis
    using assms(1) by (simp add: sv_HandleInternalMessage_def sv_internalDeQ_def sound_def)
next
  case (Cons a as)
  let ?s = "s\<lparr>sv_intQ := as\<rparr>"
  note t = take_internal [OF assms(1) Cons]
  have "sound ?s (sv_delete a (sv_system e H a (sv_deref a ?s) ?s))"
    using t assms(2) by (intro held_finish evo_system)
  then show ?thesis
    using Cons t(1) sound_trans [OF t(2)]
    by (simp add: sv_HandleInternalMessage_def sv_internalDeQ_def Let_def)
qed

lemma run_request:
  assumes "inv s" and "e_pipe e" and "a \<in> pend s"
  shows "evo s (snd (sv_run e (h_request H) a s))"
proof -
  have "live req_ok a s" using assms(1,3) by (simp add: inv_def)
  then show ?thesis
    using evo_script_own [OF assms(1,2) request_use assms(3)] by (simp add: sv_run_def split_beta)
qed

lemma run_request_open:
  assumes "inv s" and "e_pipe e" and "a \<in> pend s" and "\<not> fst (sv_run e (h_request H) a s)"
  shows "sv_cur (snd (sv_run e (h_request H) a s)) = sv_cur s"
    and "sv_timers (snd (sv_run e (h_request H) a s)) = sv_timers s"
  using script_passive [OF assms(1,2) _ assms(3)] request_open assms(4)
  by (simp_all add: sv_run_def split_beta undecided_def)

lemma handle_request:
  assumes "inv s" and "armed s" and "e_pipe e"
  shows "inv (snd (sv_HandleRequest e H s)) \<and> ledger (snd (sv_HandleRequest e H s)) = ledger s \<and>
    wake (snd (sv_HandleRequest e H s)) \<and> armed (snd (sv_HandleRequest e H s))"
proof (cases "sv_cur s")
  case (Some c)
  then have "sv_touch_opt (sv_cur s) s = s"
    using assms(1) by (simp add: sv_touch_opt_def inv_cur_pend)
  then show ?thesis using assms Some by (simp add: sv_HandleRequest_def wake_def)
next
  case cur: None
  show ?thesis
  proof (cases "sv_reqQ s")
    case Nil
    then show ?thesis using assms cur by (simp add: sv_HandleRequest_def sv_reqDeQ_def wake_def)
  next
    case (Cons a as)
    let ?s1 = "s\<lparr>sv_reqQ := as\<rparr>" and ?r = "req_of s a"
    have ap: "a \<in> pend s" using Cons by (simp add: pend_def)
    have touch: "sv_touch a ?s1 = ?s1"
      using pend_live [OF assms(1) ap] by (auto simp: sv_touch_def)
    have rq: "m_pReqData (sv_deref a ?s1) = Some ?r"
      using pend_req [OF assms(1) ap] by (simp add: sv_deref_def)
    have ctx: "sv_ctx s" using assms(1) by (rule inv_ctx)
    show ?thesis
    proof (cases "sv_refused H (rq_id ?r) ?s1")
      case True
      then have "snd (sv_HandleRequest e H s) = sv_NotifyNextRequestMessage e
          (sv_emit (OComplete ?r RIL_E_RADIO_NOT_AVAILABLE) ?s1)"
        using cur Cons touch rq ctx
        by (simp add: sv_HandleRequest_def sv_reqDeQ_def sv_ctx_emit_def)
      then show ?thesis using refuse_request [OF assms(1) cur Cons assms(3)] by simp
    next
      case False
      define s2 where "s2 = s\<lparr>sv_reqQ := as, sv_curReqId := word_of_int (rq_id ?r), sv_cur := Some a\<rparr>"
      note t = take_request [OF assms(1) cur Cons, of "word_of_int (rq_id ?r)", folded s2_def]
      define s3 where "s3 = snd (sv_run e (h_request H) a s2)"
      have 3: "evo s2 s3" unfolding s3_def using t(1) assms(3) t(3) by (rule run_request)
      have "wake s2" by (simp add: s2_def wake_def)
      then have w3: "wake s3" "inv s3" "ledger s3 = ledger s" using 3 t(2) by (simp_all add: evo_def)
      show ?thesis
      proof (cases "fst (sv_run e (h_request H) a s2)")
        case True
        then have "snd (sv_HandleRequest e H s) = sv_StartRequestTimeout e s3"
          using False cur Cons touch rq
          by (simp add: sv_HandleRequest_def sv_reqDeQ_def s3_def s2_def Let_def split_beta)
        then show ?thesis
          using evo_StartRequestTimeout [OF w3(2), of e] w3 by (simp add: evo_def)
      next
        case ret: False
        note o = run_request_open [OF t(1) assms(3) t(3) ret, folded s3_def]
        have c3: "sv_cur s3 = Some a" "Some a \<notin> set (timed s3)" using o t(4) by (simp_all add: s2_def)
        have ap3: "a \<in> pend s3" using c3(1) by (rule inv_cur_pend)
        have req3: "req_of s3 a = ?r" using 3 ap3 t(5) by (simp add: evo_def)
        have c: "closing a s3 (sv_emit (OComplete ?r RIL_E_GENERIC_FAILURE) s3)"
          using w3(2) c3 req3 by (intro closing_emit) simp_all
        have "snd (sv_HandleRequest e H s) =
          (sv_NotifyNextRequestMessage e (sv_emit (OComplete ?r RIL_E_GENERIC_FAILURE) s3))
            \<lparr>sv_curReqId := 0\<rparr>"
          using False ret cur Cons touch rq w3(2) ap3
          by (simp add: sv_HandleRequest_def sv_reqDeQ_def s3_def [symmetric] s2_def [symmetric]
              Let_def split_beta sv_ctx_emit_def inv_ctx)
        then show ?thesis
          using evo_close [OF w3(2) c3(1) c assms(3)] w3 by (simp add: evo_def armed_def)
      qed
    qed
  qed
qed

lemma run_timeout:
  assumes "inv s" and "e_pipe e" and "a \<in> pend s"
  shows "evo s (snd (sv_run e (h_timeout H) a s))"
    and "fst (sv_run e (h_timeout H) a s) \<Longrightarrow> armed (snd (sv_run e (h_timeout H) a s))"
    and "\<not> fst (sv_run e (h_timeout H) a s) \<Longrightarrow> sv_cur (snd (sv_run e (h_timeout H) a s)) = sv_cur s"
    and "\<not> fst (sv_run e (h_timeout H) a s) \<Longrightarrow>
      sv_timers (snd (sv_run e (h_timeout H) a s)) = sv_timers s"
  using evo_script_own [OF assms(1,2) timeout_use assms(3)]
    script_decided [OF assms(1,2) timeout_use assms(3) timeout_done]
    script_passive [OF assms(1,2) _ assms(3)] timeout_open
  by (simp_all add: sv_run_def split_beta undecided_def)

lemma handle_timeout:
  assumes "inv s" and "wake s" and "armed s" and "e_pipe e"
  shows "sound s (sv_HandleRequestTimeout e H s)"
proof (cases "mList (sv_timers s)")
  case Nil
  then show ?thesis
    using assms by (simp add: sv_HandleRequestTimeout_def tl_pop_def tl_null_event_def sound_def)
next
  case (Cons te es)
  then have "te_msg te \<noteq> None" using assms(1) by (auto simp: inv_def tl_msgs_def)
  then obtain a where a: "te_msg te = Some a" by auto
  show ?thesis
  proof (cases "sv_cur s = Some a")
    case False
    then show ?thesis
      using pop_postponed [OF assms(1) Cons a False assms(4)] assms(3) Cons a
      by (simp add: sv_HandleRequestTimeout_def tl_pop_def sound_def)
  next
    case True
    define s1 where "s1 = s\<lparr>sv_timers := (sv_timers s)\<lparr>mList := es\<rparr>\<rparr>"
    note t = pop_current [OF assms(1) Cons a True, folded s1_def]
    define s2 where "s2 = snd (sv_run e (h_timeout H) a s1)"
    note r = run_timeout [OF t(1) assms(4) t(3), folded s2_def]
    have "wake s1" using True by (simp add: s1_def wake_def)
    then have w2: "inv s2" "wake s2" "ledger s2 = ledger s" using r(1) t(2) by (simp_all add: evo_def)
    have rq: "m_pReqData (sv_deref a s1) = Some (req_of s1 a)" using t(1,3) by (rule pend_req)
    have unf: "sv_HandleRequestTimeout e H s =
      (if fst (sv_run e (h_timeout H) a s1) then s2
       else sv_NotifyNextRequestMessage e (sv_ctx_emit (OTimeout (req_of s1 a) (msg_GetToken (sv_deref a s1)))
              (sv_CheckCountsForTimeOut (m_pModemData (sv_deref a s1)) s2)))"
      using Cons a True t(1,3) rq
      by (simp add: sv_HandleRequestTimeout_def tl_pop_def s1_def [symmetric] Let_def split_beta s2_def)
    show ?thesis
    proof (cases "fst (sv_run e (h_timeout H) a s1)")
      case True
      then show ?thesis using unf w2 r(2) by (simp add: sound_def)
    next
      case no: False
      define s3 where "s3 = sv_CheckCountsForTimeOut (m_pModemData (sv_deref a s1)) s2"
      note c = evo_CheckCounts [OF w2(1), of "m_pModemData (sv_deref a s1)", folded s3_def]
      have cur: "sv_cur s3 = Some a" "Some a \<notin> set (timed s3)"
        using r(3,4) [OF no] c t(4) True by (simp_all add: s1_def)
      have "a \<in> pend s3" using cur(1) by (rule inv_cur_pend)
      then have "req_of s3 a = req_of s1 a" using c(1) r(1) by (auto simp: evo_def)
      then have cl: "closing a s3 (sv_emit (OTimeout (req_of s1 a) (msg_GetToken (sv_deref a s1))) s3)"
        using evo_inv [OF c(1)] cur by (intro closing_emit) simp_all
      then show ?thesis
        using unf no evo_close [OF evo_inv [OF c(1)] cur(1) cl assms(4)] c w2
        by (simp add: s3_def [symmetric] sound_def evo_def armed_def)
    qed
  qed
qed

end

text \<open>The base class honours the contract: it declines everything.\<close>

interpretation base: derived_service base_handlers
  by unfold_locales (simp_all add: base_handlers_def undecided_def sane_def)

section \<open>The service and its clients\<close>

text \<open>
  Clients post messages at any time; the thread takes turns.  The second component of the state is
  the multiset of requests that were accepted.  Messages are allocated at an address that is free.
  A failing read makes the thread reopen its pipe, which discards wake-ups; that outcome of the
  system call is left out of the relation, as is a full pipe (\<open>e_pipe\<close>).
\<close>

definition sv_alloc :: "addr \<Rightarrow> message \<Rightarrow> service \<Rightarrow> service" where
  "sv_alloc a m s = s\<lparr>sv_heap := (sv_heap s)(a \<mapsto> m)\<rparr>"

definition sv_boot :: "env \<Rightarrow> u32 \<Rightarrow> service" where
  "sv_boot e sid = snd (sv_Start e (snd (sv_Init e (sv_new sid True))))"

inductive svc_step ::
  "handlers \<Rightarrow> service \<times> request_data multiset \<Rightarrow> service \<times> request_data multiset \<Rightarrow> bool"
  for H :: handlers where
  Post_request: "sv_heap s a = None \<Longrightarrow> e_pipe e \<Longrightarrow> fits r \<Longrightarrow>
     svc_step H (s, acc) (sv_post e a (sv_alloc a (msg_ObtainRequest r svc mid) s), add_mset r acc)"
| Post_response: "sv_heap s a = None \<Longrightarrow> e_pipe e \<Longrightarrow>
     svc_step H (s, acc) (sv_post e a (sv_alloc a (msg_ObtainResponse md svc mid) s), acc)"
| Post_internal: "sv_heap s a = None \<Longrightarrow> e_pipe e \<Longrightarrow> user_ok (msg_ObtainInternal u svc mid) \<Longrightarrow>
     svc_step H (s, acc) (sv_post e a (sv_alloc a (msg_ObtainInternal u svc mid) s), acc)"
| Turn: "e_pipe e \<Longrightarrow> w \<noteq> ReadFailed \<Longrightarrow>
     svc_step H (s, acc) (mon_turn e H w s, acc)"

inductive_simps svc_step_simps: "svc_step H (s, acc) (s', acc')"

inductive svc_reach :: "handlers \<Rightarrow> service \<times> request_data multiset \<Rightarrow> bool" for H :: handlers where
  Boot: "e_pipe e \<Longrightarrow> e_thread e \<Longrightarrow> 0 \<le> e_create e \<Longrightarrow> svc_reach H (sv_boot e sid, {#})"
| Step: "svc_reach H c \<Longrightarrow> svc_step H c c' \<Longrightarrow> svc_reach H c'"

definition good :: "service \<times> request_data multiset \<Rightarrow> bool" where
  "good c \<longleftrightarrow> inv (fst c) \<and> wake (fst c) \<and> armed (fst c) \<and> ledger (fst c) = snd c"

lemma good_boot:
  assumes "e_pipe e" and "0 \<le> e_create e"
  shows "good (sv_boot e sid, {#})"
  using assms
  by (simp add: good_def sv_boot_def sv_Start_def sv_Init_def sv_new_def sv_OpenMessagePipe_def Let_def
      inv_def pend_def tl_msgs_def tl_init_def wake_def armed_def ledger_def outstanding_def answers_def)

lemma fresh_unused:
  assumes "inv s" and "sv_heap s a = None"
  shows "a \<notin> pend s" and "a \<notin> set (sv_respQ s)" and "a \<notin> set (sv_intQ s)"
  using assms by (auto simp: inv_def live_def split: option.splits)

lemma PreProcessing_idle:
  assumes "sv_heap s a = Some m" and "sv_hist s = Some []"
  shows "sv_AsyncMsgReqPreProcessing (Some a) s = s"
  using assms
  by (auto simp: sv_AsyncMsgReqPreProcessing_def sv_touch_def sv_deref_def hist_Find_def Let_def
      split: option.split)

text \<open>The state after a post, for each kind of message.\<close>

lemma post_eq:
  assumes "inv s" and "e_pipe e"
  shows "m_nDirection m = REQUEST \<Longrightarrow> sv_post e a (sv_alloc a m s) =
      (sv_alloc a m s)\<lparr>sv_reqQ := sv_reqQ s @ [a], sv_pipe := Some (the (sv_pipe s) @ [REQUEST])\<rparr>"
    and "m_nDirection m = RESPONSE \<Longrightarrow> sv_post e a (sv_alloc a m s) =
      (sv_alloc a m s)\<lparr>sv_respQ := sv_respQ s @ [a], sv_pipe := Some (the (sv_pipe s) @ [RESPONSE])\<rparr>"
    and "m_nDirection m = INTERNAL \<Longrightarrow> sv_post e a (sv_alloc a m s) =
      (sv_alloc a m s)\<lparr>sv_intQ := sv_intQ s @ [a], sv_pipe := Some (the (sv_pipe s) @ [INTERNAL])\<rparr>"
proof -
  obtain p where p: "sv_pipe s = Some p" using assms(1) by (auto simp: inv_def)
  have "sv_AsyncMsgReqPreProcessing (Some a) (sv_alloc a m s) = sv_alloc a m s"
    using assms(1) by (intro PreProcessing_idle) (simp_all add: sv_alloc_def inv_def)
  note defs = sv_post_def sv_post_queue_def sv_post_notify_def this [unfolded sv_alloc_def] sv_EnQueue_def sv_touch_def sv_deref_def sv_NotifyNewMessage_def Let_def
  show "m_nDirection m = REQUEST \<Longrightarrow> sv_post e a (sv_alloc a m s) =
      (sv_alloc a m s)\<lparr>sv_reqQ := sv_reqQ s @ [a], sv_pipe := Some (the (sv_pipe s) @ [REQUEST])\<rparr>"
    "m_nDirection m = RESPONSE \<Longrightarrow> sv_post e a (sv_alloc a m s) =
      (sv_alloc a m s)\<lparr>sv_respQ := sv_respQ s @ [a], sv_pipe := Some (the (sv_pipe s) @ [RESPONSE])\<rparr>"
    "m_nDirection m = INTERNAL \<Longrightarrow> sv_post e a (sv_alloc a m s) =
      (sv_alloc a m s)\<lparr>sv_intQ := sv_intQ s @ [a], sv_pipe := Some (the (sv_pipe s) @ [INTERNAL])\<rparr>"
    using p assms(2) by (simp_all add: defs sv_alloc_def)
qed

lemma inv_alloc:
  assumes "inv s" and "sv_heap s a = None"
  shows "inv (sv_alloc a m s)" and "ledger (sv_alloc a m s) = ledger s"
    and "wake (sv_alloc a m s) = wake s" and "armed (sv_alloc a m s) = armed s"
    and "pend (sv_alloc a m s) = pend s"
proof -
  note f = fresh_unused [OF assms]
  show "inv (sv_alloc a m s)"
    using assms(1) f by (auto simp: inv_def live_def sv_alloc_def)
  show "ledger (sv_alloc a m s) = ledger s"
    using f by (intro ledger_cong) (auto simp: sv_alloc_def req_of_def sv_deref_def)
qed (simp_all add: sv_alloc_def wake_def armed_def)

lemma post_request_good:
  assumes "good (s, acc)" and "sv_heap s a = None" and "e_pipe e" and "fits r"
  shows "good (sv_post e a (sv_alloc a (msg_ObtainRequest r svc mid) s), add_mset r acc)"
proof -
  let ?m = "msg_ObtainRequest r svc mid"
  let ?t = "sv_post e a (sv_alloc a ?m s)"
  have i: "inv s" using assms(1) by (simp add: good_def)
  note f = fresh_unused [OF i assms(2)]
  have t: "?t = (sv_alloc a ?m s)\<lparr>sv_reqQ := sv_reqQ s @ [a], sv_pipe := Some (the (sv_pipe s) @ [REQUEST])\<rparr>"
    using i assms(3) by (intro post_eq) (simp_all add: msg_ObtainRequest_def)
  have p: "pend ?t = insert a (pend s)" unfolding t by (auto simp: pend_def sv_alloc_def)
  have rq: "req_of ?t a = r" "\<And>b. b \<in> pend s \<Longrightarrow> req_of ?t b = req_of s b"
    using f unfolding t by (auto simp: req_of_def sv_deref_def sv_alloc_def msg_ObtainRequest_def)
  have "image_mset (req_of ?t) (mset_set (pend s)) = image_mset (req_of s) (mset_set (pend s))"
    using rq(2) by (intro image_mset_cong) simp
  moreover have "answers ?t = answers s" unfolding t by (simp add: sv_alloc_def answers_def)
  ultimately have l: "ledger ?t = add_mset r (ledger s)"
    using f rq(1) by (simp add: ledger_def outstanding_def p)
  have "\<forall>b\<in>insert a (pend s). live req_ok b ?t"
    using i assms(4) unfolding t
    by (auto simp: inv_def live_def sv_alloc_def req_ok_def msg_ObtainRequest_def)
  then have "\<forall>b\<in>pend ?t. live req_ok b ?t" by (simp add: p)
  moreover have "\<forall>b\<in>set (sv_respQ s). live resp_ok b ?t" "\<forall>b\<in>set (sv_intQ s). live int_ok b ?t"
    using i f unfolding t by (auto simp: inv_def live_def sv_alloc_def)
  ultimately have "inv ?t"
    using i f unfolding inv_def t by (auto simp: sv_alloc_def pend_def)
  moreover have "wake ?t" "armed ?t"
    using assms(1) unfolding t by (simp_all add: good_def wake_def armed_def sv_alloc_def)
  ultimately show ?thesis using l assms(1) by (simp add: good_def)
qed

lemma post_other_good:
  assumes "good (s, acc)" and "sv_heap s a = None" and "e_pipe e"
  shows "good (sv_post e a (sv_alloc a (msg_ObtainResponse md svc mid) s), acc)"
    and "user_ok (msg_ObtainInternal u svc mid) \<Longrightarrow>
      good (sv_post e a (sv_alloc a (msg_ObtainInternal u svc mid) s), acc)"
proof -
  have i: "inv s" using assms(1) by (simp add: good_def)
  note f = fresh_unused [OF i assms(2)]
  have b: "ledger s = acc" "wake s" "armed s" using assms(1) by (simp_all add: good_def)
  have dm: "m_nDirection (msg_ObtainResponse md svc mid) = RESPONSE"
    by (simp add: msg_ObtainResponse_def)
  have di: "m_nDirection (msg_ObtainInternal u svc mid) = INTERNAL"
    by (simp add: msg_ObtainInternal_def msg_SetUserData_def)
  have key: "good (t, acc)"
    if t: "t = (sv_alloc a m s)\<lparr>sv_respQ := q, sv_intQ := q', sv_pipe := Some (the (sv_pipe s) @ [d])\<rparr>"
      and q: "distinct q" "distinct q'" "\<forall>b\<in>set q. live resp_ok b t" "\<forall>b\<in>set q'. live int_ok b t"
    for t m q q' d
  proof -
    note al = inv_alloc [OF i assms(2), of m]
    have "pend t = pend s" unfolding t by (simp add: al)
    then have "ledger t = ledger (sv_alloc a m s)"
      unfolding t by (intro ledger_cong) (simp_all add: al answers_def req_of_def sv_deref_def)
    moreover have "inv t"
      using al(1,5) q unfolding inv_def \<open>pend t = pend s\<close> by (simp add: t live_def sv_alloc_def)
    moreover have "wake t" "armed t"
      using al(3,4) b unfolding t wake_def armed_def by (auto simp: sv_alloc_def split: option.splits)
    ultimately show ?thesis using al b by (simp add: good_def)
  qed
  have lv: "\<forall>b\<in>set (sv_respQ s). live resp_ok b s" "\<forall>b\<in>set (sv_intQ s). live int_ok b s"
    "distinct (sv_respQ s)" "distinct (sv_intQ s)" using i by (simp_all add: inv_def)
  have "sv_post e a (sv_alloc a (msg_ObtainResponse md svc mid) s) =
      (sv_alloc a (msg_ObtainResponse md svc mid) s)\<lparr>sv_respQ := sv_respQ s @ [a],
        sv_intQ := sv_intQ s, sv_pipe := Some (the (sv_pipe s) @ [RESPONSE])\<rparr>"
    unfolding post_eq(2) [OF i assms(3) dm] by (cases s) (simp add: sv_alloc_def)
  from key [OF this] show "good (sv_post e a (sv_alloc a (msg_ObtainResponse md svc mid) s), acc)"
    using lv f unfolding post_eq(2) [OF i assms(3) dm]
    by (auto simp: sv_alloc_def live_def resp_ok_def msg_ObtainResponse_def)
  have "sv_post e a (sv_alloc a (msg_ObtainInternal u svc mid) s) =
      (sv_alloc a (msg_ObtainInternal u svc mid) s)\<lparr>sv_respQ := sv_respQ s,
        sv_intQ := sv_intQ s @ [a], sv_pipe := Some (the (sv_pipe s) @ [INTERNAL])\<rparr>"
    unfolding post_eq(3) [OF i assms(3) di] by (cases s) (simp add: sv_alloc_def)
  from key [OF this] show "good (sv_post e a (sv_alloc a (msg_ObtainInternal u svc mid) s), acc)"
    if "user_ok (msg_ObtainInternal u svc mid)"
    using lv f that unfolding post_eq(3) [OF i assms(3) di]
    by (auto simp: sv_alloc_def live_def int_ok_def msg_ObtainInternal_def msg_SetUserData_def)
qed

lemma read_pipe:
  assumes "inv s" and "armed s" and "wake s" and "sv_pipe s = Some (d # ds)"
  defines "t \<equiv> s\<lparr>sv_pipe := Some ds\<rparr>"
  shows "inv t" and "ledger t = ledger s" and "armed t" and "d \<noteq> REQUEST \<Longrightarrow> wake t"
proof -
  show "inv t" using assms(1,4) by (simp add: t_def inv_def live_def)
  show "ledger t = ledger s"
    by (intro ledger_cong) (simp_all add: t_def req_of_def sv_deref_def)
  show "armed t" using assms(2) by (simp add: t_def armed_def)
  show "wake t" if "d \<noteq> REQUEST" using that assms(3,4) by (auto simp: t_def wake_def)
qed

lemma dispatch_good:
  assumes "derived_service H" and "good (s, acc)" and "e_pipe e" and "sv_pipe s = Some (d # ds)"
  shows "good (mon_dispatch e H d (s\<lparr>sv_pipe := Some ds\<rparr>), acc)"
proof -
  let ?t = "s\<lparr>sv_pipe := Some ds\<rparr>"
  have g: "inv s" "armed s" "wake s" "ledger s = acc" using assms(2) by (simp_all add: good_def)
  note t = read_pipe [OF g(1-3) assms(4)]
  have s: "sound ?t u \<Longrightarrow> d \<noteq> REQUEST \<Longrightarrow> good (u, acc)" for u
    using t g(4) by (simp add: good_def sound_def)
  show ?thesis
  proof (cases d)
    case REQUEST
    then show ?thesis
      using derived_service.handle_request [OF assms(1) t(1,3) assms(3)] t(2) g(4)
      by (simp add: mon_dispatch_def good_def)
  next
    case ASYNC_REQUEST
    have "sv_asyncQ ?t = []" using g(1) by (simp add: inv_def)
    then show ?thesis
      using s [of ?t] t ASYNC_REQUEST
      by (simp add: mon_dispatch_def sv_HandleAsycMsgRequest_def sv_asycMsgReqDeQ_def sound_def)
  qed (use s [OF derived_service.handle_response [OF assms(1) t(1) assms(3)]]
      s [OF derived_service.handle_internal [OF assms(1) t(1) assms(3)]]
      s [of ?t] t in \<open>auto simp: mon_dispatch_def sound_def\<close>)
qed

lemma turn_good:
  assumes "derived_service H" and "good (s, acc)" and "e_pipe e" and "w \<noteq> ReadFailed"
  shows "good (mon_turn e H w s, acc)"
proof (cases w)
  case Readable
  then show ?thesis
    using assms(2) dispatch_good [OF assms(1-3)]
    by (auto simp: mon_turn_def split: option.split list.split)
next
  case TimedOut
  have g: "inv s" "wake s" "armed s" "ledger s = acc" using assms(2) by (simp_all add: good_def)
  then show ?thesis
    using derived_service.handle_timeout [OF assms(1) g(1-3) assms(3)] TimedOut
    by (simp add: mon_turn_def good_def sound_def)
qed (use assms in \<open>simp_all add: mon_turn_def\<close>)

lemma step_good: "svc_step H c c' \<Longrightarrow> derived_service H \<Longrightarrow> good c \<Longrightarrow> good c'"
  by (induction rule: svc_step.induct)
    (simp_all add: post_request_good post_other_good turn_good)

lemma reach_good: "svc_reach H c \<Longrightarrow> derived_service H \<Longrightarrow> good c"
  by (induction rule: svc_reach.induct) (auto intro: good_boot step_good)

end
