(* ===== verification/Gps_Service.thy ===== *)
theory Gps_Service
  imports Service_Safety
begin

text \<open>
  \<^verbatim>\<open>sitril/core/service/gpsservice.cpp\<close> with its message builder and adapter
  (\<^verbatim>\<open>protocolgpsbuilder.cpp\<close>, \<^verbatim>\<open>protocolgpsadapter.cpp\<close>): a complete derived
  service, and the proof that it honours the contract of the base class.  Log output is not
  modelled.
\<close>

section \<open>Message builder\<close>

text \<open>Pairs of a request id of \<^verbatim>\<open>ril_oem.h\<close> and a message id of \<^verbatim>\<open>sitdef.h\<close>.\<close>

definition agps_request_map :: "(int \<times> int) list" where
  "agps_request_map =
     [(10200, 0xC00), (10201, 0xC01), (10202, 0xC02), (10203, 0xC07), (10204, 0xC0A), (10205, 0xC14),
      (10221, 0xC1A), (10222, 0xC1B), (10223, 0xC1C), (10215, 0xC17), (10216, 0xC20), (10217, 0xC21),
      (10218, 0xC23), (10219, 0xC26), (10225, 0xC27)]"

definition agps_ind_map :: "(int \<times> int) list" where
  "agps_ind_map =
     [(10206, 0xC04), (10207, 0xC06), (10208, 0xC08), (10209, 0xC0C), (10210, 0xC0D), (10211, 0xC10),
      (10212, 0xC11), (10213, 0xC12), (10214, 0xC13), (10224, 0xC2A), (10220, 0xC19)]"

definition agps_result_map :: "(int \<times> int) list" where
  "agps_result_map =
     [(20170, 0xC03), (20171, 0xC05), (20172, 0xC06), (20173, 0xC08), (20174, 0xC09), (20175, 0xC0B),
      (20176, 0xC0E), (20177, 0xC0F), (20178, 0xC11), (20179, 0xC12), (20180, 0xC13), (20187, 0xC14),
      (20188, 0xC29), (20189, 0xC2B), (20190, 0xC28), (20181, 0xC15), (20182, 0xC16), (20183, 0xC22),
      (20184, 0xC24), (20185, 0xC25), (20186, 0xC18)]"

definition MAX_RCM_SIZE :: nat where "MAX_RCM_SIZE = 2048"

text \<open>
  The buffer on the stack: the header, and the payload when the total stays below the size of the
  buffer.  Copying \<open>len\<close> bytes out of it is a fault when it is longer than the buffer.
\<close>

definition agps_buffer :: "u8 list \<Rightarrow> u8 list option \<Rightarrow> u8 list option" where
  "agps_buffer hdr raw =
     (let len = length hdr + (case raw of None \<Rightarrow> 0 | Some xs \<Rightarrow> length xs) in do {
        buf \<leftarrow> arr_blit (replicate MAX_RCM_SIZE 0) 0 hdr;
        buf \<leftarrow> (case raw of
                  Some xs \<Rightarrow> if len < MAX_RCM_SIZE then arr_blit buf (length hdr) xs else Some buf
                | None \<Rightarrow> Some buf);
        if len \<le> MAX_RCM_SIZE then Some (take len buf) else None })"

text \<open>Outer \<open>None\<close>: fault; inner \<open>None\<close>: the builder returns \<^verbatim>\<open>NULL\<close>.\<close>

definition BuildAgpsPDU :: "u32 \<Rightarrow> int \<Rightarrow> u8 list option \<Rightarrow> modem_raw option option" where
  "BuildAgpsPDU tok rid raw =
     (if rid < 0 then Some None
      else case map_of agps_request_map rid of
        None \<Rightarrow> Some None
      | Some pid \<Rightarrow>
         (let len = RCM_HEADER_SIZE + (case raw of None \<Rightarrow> 0 | Some xs \<Rightarrow> length xs) in do {
            bs \<leftarrow> agps_buffer (rcm_bytes (InitRequestHeader_token pid (int len) tok)) raw;
            Some (Some (md_new bs True)) }))"

definition BuildAgpsIndPDU :: "int \<Rightarrow> u8 list option \<Rightarrow> modem_raw option option" where
  "BuildAgpsIndPDU rid raw =
     (if rid < 0 then Some None
      else case map_of agps_ind_map rid of
        None \<Rightarrow> Some None
      | Some pid \<Rightarrow>
         (let len = RCM_IND_HEADER_SIZE + (case raw of None \<Rightarrow> 0 | Some xs \<Rightarrow> length xs) in do {
            bs \<leftarrow> agps_buffer (rcm_ind_bytes (InitIndRequestHeader pid (int len))) raw;
            Some (Some (md_new bs True)) }))"

definition agps_GetResultId :: "modem_data option \<Rightarrow> int" where
  "agps_GetResultId pmd =
     (case pmd of
        None \<Rightarrow> -1
      | Some md \<Rightarrow>
         (case find (\<lambda>(res, sit). uint (md_id md) = sit) agps_result_map of
            Some (res, sit) \<Rightarrow> res | None \<Rightarrow> -1))"

section \<open>The service\<close>

definition TIMEOUT_GPS_DEFAULT :: u32 where "TIMEOUT_GPS_DEFAULT = 5000"

text \<open>Message ids of \<^verbatim>\<open>messageid.h\<close>, as the three switches list them.\<close>

definition gps_request_ids :: "int list" where
  "gps_request_ids =
     [9001, 9003, 9005, 9007, 9009, 9011, 9028, 9030, 9032, 9038, 9040, 9042, 9044, 9046, 9055]"

definition gps_request_ind_ids :: "int list" where
  "gps_request_ind_ids = [9014, 9016, 9017, 9020, 9021, 9024, 9025, 9026, 9027, 9035, 9053]"

definition gps_done_ids :: "int list" where
  "gps_done_ids =
     [9002, 9004, 9006, 9008, 9010, 9012, 9029, 9031, 9033, 9039, 9041, 9043, 9045, 9047, 9056]"

definition gps_unsol_ids :: "int list" where
  "gps_unsol_ids =
     [9013, 9015, 9016, 9017, 9018, 9019, 9022, 9023, 9025, 9026, 9027, 9011, 9034, 9036, 9037, 9048,
      9049, 9050, 9051, 9052, 9054]"

text \<open>A handler is the list of calls it makes and whether it returns zero.\<close>

definition DoAgpsDefaultRequestHandler :: handler where
  "DoAgpsDefaultRequestHandler e s a =
     (let m = sv_deref a s in
      case m_pReqData m of
        None \<Rightarrow> ([], False)
      | Some r \<Rightarrow>
         (case BuildAgpsPDU (e_tok e) (rq_id r) (rq_raw r) of
            None \<Rightarrow> ([AFault], True)
          | Some pr \<Rightarrow>
             (let md = (case pr of None \<Rightarrow> None | Some raw \<Rightarrow> md_decode raw);
                  res = word_of_int (m_nMsgId m + 1)
              in ([ASend md TIMEOUT_GPS_DEFAULT res False],
                  fst (sv_SendRequest e md TIMEOUT_GPS_DEFAULT res None s) \<ge> 0))))"

definition DoAgpsDefaultRequestIndHandler :: handler where
  "DoAgpsDefaultRequestIndHandler e s a =
     (let m = sv_deref a s in
      case m_pReqData m of
        None \<Rightarrow> ([], False)
      | Some r \<Rightarrow>
         (case BuildAgpsIndPDU (rq_id r) (rq_raw r) of
            None \<Rightarrow> ([AFault], True)
          | Some pr \<Rightarrow>
             (let md = (case pr of None \<Rightarrow> None | Some raw \<Rightarrow> md_decode raw)
              in if fst (sv_SendRequest_raw e md s) < 0 then ([ASendRaw md], False)
                 else ([ASendRaw md, AComplete RIL_E_SUCCESS False], True))))"

definition gps_OnHandleRequest :: handler where
  "gps_OnHandleRequest e s a =
     (let i = m_nMsgId (sv_deref a s) in
      if i \<in> set gps_request_ids then DoAgpsDefaultRequestHandler e s a
      else if i \<in> set gps_request_ind_ids then DoAgpsDefaultRequestIndHandler e s a
      else ([], False))"

definition OnAgpsDefaultResponseHandler :: handler where
  "OnAgpsDefaultResponseHandler e s a =
     (case m_pModemData (sv_deref a s) of
        None \<Rightarrow> ([], False)
      | Some md \<Rightarrow>
         ([AComplete (if md_err md = RIL_E_SUCCESS then RIL_E_SUCCESS else RIL_E_GENERIC_FAILURE) False],
          True))"

definition gps_OnHandleSolicitedResponse :: handler where
  "gps_OnHandleSolicitedResponse e s a =
     (if m_nMsgId (sv_deref a s) \<in> set gps_done_ids then OnAgpsDefaultResponseHandler e s a
      else ([], False))"

definition OnAgpsDefaultUnsolRespHandler :: handler where
  "OnAgpsDefaultUnsolRespHandler e s a =
     (let res = agps_GetResultId (m_pModemData (sv_deref a s))
      in (if res \<noteq> -1 then [AUnsol res] else [], True))"

definition gps_OnHandleUnsolicitedResponse :: handler where
  "gps_OnHandleUnsolicitedResponse e s a =
     (if m_nMsgId (sv_deref a s) \<in> set gps_unsol_ids then OnAgpsDefaultUnsolRespHandler e s a
      else ([], False))"

definition gps_handlers :: handlers where
  "gps_handlers = base_handlers
     \<lparr>h_request := gps_OnHandleRequest, h_solicited := gps_OnHandleSolicitedResponse,
      h_unsolicited := gps_OnHandleUnsolicitedResponse\<rparr>"

section \<open>The builder stays inside its buffer\<close>

lemma rcm_ind_bytes_length [simp]: "length (rcm_ind_bytes h) = RCM_IND_HEADER_SIZE"
  by (simp add: rcm_ind_bytes_def u16_bytes_def)

lemma agps_buffer_fits:
  assumes "length hdr + length xs < MAX_RCM_SIZE"
  shows "agps_buffer hdr (Some xs) = Some (hdr @ xs)"
  using assms by (simp add: agps_buffer_def Let_def)

lemma agps_buffer_empty:
  assumes "length hdr < MAX_RCM_SIZE"
  shows "agps_buffer hdr None = Some hdr"
  using assms by (simp add: agps_buffer_def Let_def)

lemma agps_buffer_exact:
  assumes "length hdr + length xs = MAX_RCM_SIZE"
  shows "agps_buffer hdr (Some xs) = Some (hdr @ replicate (length xs) 0)"
  using assms by (auto simp: agps_buffer_def Let_def)

lemma agps_buffer_over:
  assumes "MAX_RCM_SIZE < length hdr + length xs"
  shows "agps_buffer hdr (Some xs) = None"
  using assms by (auto simp: agps_buffer_def Let_def Option.bind_eq_None_conv split: option.splits)

lemma agps_buffer_total:
  assumes "length hdr \<le> 12" and "\<And>xs. raw = Some xs \<Longrightarrow> length xs \<le> 2036"
  shows "agps_buffer hdr raw \<noteq> None"
proof (cases raw)
  case None
  then show ?thesis using assms by (simp add: agps_buffer_empty MAX_RCM_SIZE_def)
next
  case (Some xs)
  then have "length hdr + length xs \<le> MAX_RCM_SIZE" using assms by (simp add: MAX_RCM_SIZE_def)
  then consider "length hdr + length xs < MAX_RCM_SIZE" | "length hdr + length xs = MAX_RCM_SIZE"
    by linarith
  then show ?thesis using Some by cases (simp_all add: agps_buffer_fits agps_buffer_exact)
qed

lemma fits_raw: "fits r \<Longrightarrow> rq_raw r = Some xs \<Longrightarrow> length xs \<le> 2036"
  by (simp add: fits_def)

lemma build_total:
  assumes "fits r"
  shows "BuildAgpsPDU tok rid (rq_raw r) \<noteq> None" and "BuildAgpsIndPDU rid (rq_raw r) \<noteq> None"
proof -
  have "agps_buffer (rcm_bytes h) (rq_raw r) \<noteq> None" for h
    by (rule agps_buffer_total) (simp_all add: fits_raw [OF assms])
  then show "BuildAgpsPDU tok rid (rq_raw r) \<noteq> None"
    by (cases "map_of agps_request_map rid")
      (simp_all add: BuildAgpsPDU_def Let_def Option.bind_eq_None_conv del: not_None_eq)
  have "agps_buffer (rcm_ind_bytes h) (rq_raw r) \<noteq> None" for h
    by (rule agps_buffer_total) (simp_all add: fits_raw [OF assms])
  then show "BuildAgpsIndPDU rid (rq_raw r) \<noteq> None"
    by (cases "map_of agps_ind_map rid")
      (simp_all add: BuildAgpsIndPDU_def Let_def Option.bind_eq_None_conv del: not_None_eq)
qed

interpretation gps: derived_service gps_handlers
proof (unfold_locales, goal_cases)
  case (1 a s e)
  then obtain m r where m: "sv_heap s a = Some m" "m_pReqData m = Some r" "fits r"
    by (auto simp: live_def req_ok_def split: option.splits)
  obtain p q where b: "BuildAgpsPDU (e_tok e) (rq_id r) (rq_raw r) = Some p"
    "BuildAgpsIndPDU (rq_id r) (rq_raw r) = Some q"
    using build_total [OF m(3)] by blast
  then show ?case
    using m
    by (auto simp: gps_handlers_def gps_OnHandleRequest_def DoAgpsDefaultRequestHandler_def
        DoAgpsDefaultRequestIndHandler_def sv_deref_def Let_def)
qed (auto simp: gps_handlers_def base_handlers_def gps_OnHandleRequest_def undecided_def sane_def
    DoAgpsDefaultRequestHandler_def DoAgpsDefaultRequestIndHandler_def
    gps_OnHandleSolicitedResponse_def OnAgpsDefaultResponseHandler_def
    gps_OnHandleUnsolicitedResponse_def OnAgpsDefaultUnsolRespHandler_def Let_def
    split: option.splits if_splits)

section \<open>Properties\<close>

text \<open>
  C36. \<^verbatim>\<open>BuildAgpsPDU\<close> builds a message whose id comes from the table, whose token is
  the generated one and whose parameter is the payload, as long as header and payload together are
  shorter than the buffer.  At exactly the buffer size the payload is silently replaced by zeros,
  and beyond it the message is copied from behind the end of the buffer.
\<close>

theorem agps_pdu_limits:
  assumes "0 \<le> rid" and "map_of agps_request_map rid = Some pid"
  shows "(length xs < 2036 \<longrightarrow>
           (\<exists>md. BuildAgpsPDU tok rid (Some xs) = Some (Some md) \<and>
              md_GetId md = Some (ucast (word_of_int pid :: u16)) \<and> md_GetToken md = Some tok \<and>
              md_GetParameterLength md = length xs \<and> (xs \<noteq> [] \<longrightarrow> md_GetParameter md = Some xs))) \<and>
         (length xs = 2036 \<longrightarrow>
           (\<exists>md. BuildAgpsPDU tok rid (Some xs) = Some (Some md) \<and>
              md_GetParameter md = Some (replicate 2036 0))) \<and>
         (2036 < length xs \<longrightarrow> BuildAgpsPDU tok rid (Some xs) = None)"
proof -
  let ?h = "InitRequestHeader_token pid (int (RCM_HEADER_SIZE + length xs)) tok"
  have b: "BuildAgpsPDU tok rid (Some xs) =
      (case agps_buffer (rcm_bytes ?h) (Some xs) of None \<Rightarrow> None | Some bs \<Rightarrow> Some (Some (md_new bs True)))"
    using assms by (simp add: BuildAgpsPDU_def Let_def split: option.split)
  consider "length xs < 2036" | "length xs = 2036" | "2036 < length xs" by linarith
  then show ?thesis
  proof cases
    case 1
    then have "agps_buffer (rcm_bytes ?h) (Some xs) = Some (rcm_bytes ?h @ xs)"
      by (intro agps_buffer_fits) (simp add: MAX_RCM_SIZE_def)
    then show ?thesis
      using 1 unfolding b md_GetId_def md_GetToken_def md_GetParameterLength_def md_GetParameter_def
      by (simp add: rcm_bytes_id rcm_bytes_token InitRequestHeader_token_def rcm_bytes_type
          md_GetType_def)
  next
    case 2
    then have "agps_buffer (rcm_bytes ?h) (Some xs) = Some (rcm_bytes ?h @ replicate 2036 0)"
      using agps_buffer_exact [of "rcm_bytes ?h" xs] by (simp add: MAX_RCM_SIZE_def)
    then show ?thesis using 2 unfolding b md_GetParameter_def by simp
  next
    case 3
    then show ?thesis using agps_buffer_over [of "rcm_bytes ?h" xs] unfolding b
      by (simp add: MAX_RCM_SIZE_def)
  qed
qed

theorem agps_pdu_limits_witness:
  "map_of agps_request_map 10203 = Some 0xC07 \<and>
   (\<exists>md. BuildAgpsPDU 7 10203 (Some [1, 2, 3]) = Some (Some md) \<and> md_GetParameter md = Some [1, 2, 3])"
proof -
  have "map_of agps_request_map 10203 = Some 0xC07" by (simp add: agps_request_map_def)
  then show ?thesis using agps_pdu_limits [of 10203 "0xC07" "[1, 2, 3]" 7] by auto
qed

end
