(* ===== verification/Service_Properties.thy ===== *)
theory Service_Properties
  imports Gps_Service
begin

text \<open>
  What the service thread guarantees: in every reachable state of a service whose derived class
  honours the contract, and of single operations on every branch; and the situations in which the
  code does not do what it means to.
\<close>

section \<open>A concrete run\<close>

text \<open>
  The GPS service boots, is told that the radio is on, accepts a request, sends it to the modem and
  receives the answer: the states the witnesses below are about.
\<close>

definition demo_env :: env where
  "demo_env = \<lparr>e_now = \<lparr>tv_sec = 100, tv_usec = 0\<rparr>, e_send = True, e_pipe = True, e_thread = True,
     e_timer = Some 1, e_radio = 10, e_uicc = -1, e_create = 0, e_tok = 77\<rparr>"

definition demo_request :: request_data where
  "demo_request = \<lparr>rq_id = 10203, rq_token = 5, rq_raw = Some [1, 2, 3]\<rparr>"

definition demo_boot :: service where
  "demo_boot = sv_boot demo_env 9"

definition demo_radio :: service where
  "demo_radio = mon_turn demo_env gps_handlers Readable
     (sv_post demo_env 1 (sv_alloc 1 (msg_ObtainInternal (Some (RilDataInts [10])) 9 0x101) demo_boot))"

definition demo_queued :: service where
  "demo_queued = sv_post demo_env 1 (sv_alloc 1 (msg_ObtainRequest demo_request 9 9007) demo_radio)"

definition demo_sent :: service where
  "demo_sent = mon_turn demo_env gps_handlers Readable demo_queued"

definition demo_answered :: service where
  "demo_answered = mon_turn demo_env gps_handlers Readable
     (sv_post demo_env 2 (sv_alloc 2
       (msg_ObtainResponse \<lparr>md_type = 1, md_id = 0xC07, md_tok = 77, md_err = 0\<rparr> 9 9008) demo_sent))"

lemma demo_reach:
  shows "svc_reach gps_handlers (demo_sent, {#demo_request#})"
    and "svc_reach gps_handlers (demo_answered, {#demo_request#})"
proof -
  let ?H = gps_handlers
  have 0: "svc_reach ?H (demo_boot, {#})"
    unfolding demo_boot_def by (rule svc_reach.Boot) (simp_all add: demo_env_def)
  have free: "sv_heap demo_boot 1 = None" "sv_heap demo_radio 1 = None" "sv_heap demo_sent 2 = None"
    by code_simp+
  have e: "e_pipe demo_env" by (simp add: demo_env_def)
  have u: "user_ok (msg_ObtainInternal (Some (RilDataInts [10])) 9 0x101)" by code_simp
  have f: "fits demo_request" by (simp add: fits_def demo_request_def)
  have turn: "svc_reach ?H (t, acc) \<Longrightarrow> svc_reach ?H (mon_turn demo_env ?H Readable t, acc)" for t acc
    by (rule svc_reach.Step, assumption, rule svc_step.Turn) (simp_all add: e)
  have "svc_reach ?H
    (sv_post demo_env 1 (sv_alloc 1 (msg_ObtainInternal (Some (RilDataInts [10])) 9 0x101) demo_boot), {#})"
    using 0 free(1) e u by (meson svc_reach.Step svc_step.Post_internal)
  from turn [OF this] have "svc_reach ?H (demo_radio, {#})" by (simp only: demo_radio_def)
  then have "svc_reach ?H (demo_queued, {#demo_request#})"
    unfolding demo_queued_def using free(2) e f by (meson svc_reach.Step svc_step.Post_request)
  from turn [OF this] show 1: "svc_reach ?H (demo_sent, {#demo_request#})"
    by (simp only: demo_sent_def)
  show "svc_reach ?H (demo_answered, {#demo_request#})"
    unfolding demo_answered_def
    by (rule turn, rule svc_reach.Step [OF 1], rule svc_step.Post_response) (simp_all add: free e)
qed

section \<open>Reachable states\<close>







section \<open>Single operations\<close>

text \<open>
  C18. When the timer of the current request expires and the derived class declines, the request is
  answered with a timeout under its token, its message is freed, the next request is announced, and
  the count of consecutive timeouts grows; from the fourth one on, a modem dump is requested first.
\<close>

theorem request_timeout_answers:
  assumes "sv_cur s = Some a" and "sv_heap s a = Some m" and "m_pReqData m = Some r"
    and "mList (sv_timers s) = te # es" and "te_msg te = Some a"
    and "sv_ctx s" and "sv_pipe s = Some p" and "e_pipe e"
    and "\<And>t. h_timeout H e t a = ([], False)"
  shows "let s' = sv_HandleRequestTimeout e H s in
    sv_out s' = sv_out s @
      (case m_pModemData m of
         Some md \<Rightarrow> if sv_nr s + 1 > 3 then [OModemDump (md_id md)] else [] | None \<Rightarrow> []) @
      [OTimeout r (msg_GetToken m)] \<and>
    sv_nr s' = (if m_pModemData m = None then sv_nr s else sv_nr s + 1) \<and>
    sv_cur s' = None \<and> sv_heap s' = (sv_heap s)(a := None) \<and> sv_pipe s' = Some (p @ [REQUEST]) \<and>
    mList (sv_timers s') = es \<and> sv_reqQ s' = sv_reqQ s \<and> sv_ub s' = sv_ub s"
  using assms
  by (simp add: sv_HandleRequestTimeout_def tl_pop_def sv_touch_def sv_deref_def sv_run_def
      sv_NotifyNextRequestMessage_def sv_CheckCountsForTimeOut_def sv_ctx_emit_def sv_emit_def
      sv_delete_def sv_NotifyNewMessage_def MAX_NR_COUNT_def Let_def split: option.split)

theorem request_timeout_answers_witness:
  "sv_out (sv_HandleRequestTimeout demo_env gps_handlers demo_sent) =
     sv_out demo_sent @ [OTimeout demo_request 77]"
proof -
  obtain m where m: "sv_heap demo_sent 1 = Some m" "m_pReqData m = Some demo_request"
    "msg_GetToken m = 77" "m_pModemData m \<noteq> None"
    by (rule that [of "sv_deref 1 demo_sent"]; code_simp)
  have st: "sv_cur demo_sent = Some 1" "sv_pipe demo_sent = Some []" "sv_ctx demo_sent"
    "sv_nr demo_sent = 0"
    by code_simp+
  obtain te where te: "mList (sv_timers demo_sent) = [te]" "te_msg te = Some 1"
    by (rule that [of "tl_front (sv_timers demo_sent)"]; code_simp)
  have e: "e_pipe demo_env" by (simp add: demo_env_def)
  have h: "h_timeout gps_handlers demo_env t 1 = ([], False)" for t
    by (simp add: gps_handlers_def base_handlers_def)
  show ?thesis
    using request_timeout_answers [OF st(1) m(1,2) te(1,2) st(3,2) e h] m(3,4) st(4)
    by (auto simp: Let_def)
qed

text \<open>
  A request that may not run in the current radio state is answered
  \<^verbatim>\<open>RADIO_NOT_AVAILABLE\<close> without reaching the derived class and the next request is
  announced; nothing else changes, so its message stays allocated although nothing points to it any
  more.
\<close>

theorem refused_request_leaks:
  assumes "sv_cur s = None" and "sv_reqQ s = a # as" and "sv_heap s a = Some m"
    and "m_pReqData m = Some r" and "sv_refused H (rq_id r) s"
    and "sv_ctx s" and "sv_pipe s = Some p" and "e_pipe e"
  shows "sv_HandleRequest e H s =
    (0, s\<lparr>sv_reqQ := as, sv_out := sv_out s @ [OComplete r RIL_E_RADIO_NOT_AVAILABLE],
          sv_pipe := Some (p @ [REQUEST])\<rparr>)"
  using assms
  by (simp add: sv_HandleRequest_def sv_reqDeQ_def sv_touch_def sv_deref_def sv_refused_def
      sv_ctx_emit_def sv_emit_def sv_NotifyNextRequestMessage_def sv_NotifyNewMessage_def)

theorem refused_request_leaks_witness:
  "let s = sv_post demo_env 1 (sv_alloc 1 (msg_ObtainRequest demo_request 9 9007) demo_boot);
       s' = snd (sv_HandleRequest demo_env gps_handlers s)
   in sv_out s' = [OComplete demo_request 1] \<and> sv_heap s' 1 = sv_heap s 1 \<and> sv_reqQ s' = []"
proof -
  define s where "s = sv_post demo_env 1 (sv_alloc 1 (msg_ObtainRequest demo_request 9 9007) demo_boot)"
  have st: "sv_cur s = None" "sv_reqQ s = [1]" "sv_ctx s" "sv_pipe s = Some [REQUEST]" "sv_out s = []"
    "sv_refused gps_handlers (rq_id demo_request) s"
    unfolding s_def by code_simp+
  have m: "sv_heap s 1 = Some (sv_deref 1 s)" "m_pReqData (sv_deref 1 s) = Some demo_request"
    unfolding s_def by code_simp+
  have e: "e_pipe demo_env" by (simp add: demo_env_def)
  show ?thesis
    using refused_request_leaks [OF st(1,2) m st(6,3,4) e] st(5)
    unfolding s_def [symmetric] Let_def by (simp add: RIL_E_RADIO_NOT_AVAILABLE_def)
qed

text \<open>
  A solicited answer whose token is not that of the current request (because that request was
  completed or timed out) is freed and otherwise ignored: no handler runs and no request is
  answered.  It still resets the count of consecutive timeouts.
\<close>

theorem stale_response_dropped:
  assumes "sv_respQ s = a # as" and "sv_heap s a = Some m" and "m_pModemData m = Some md"
    and "mdh_IsSolicitedResponse md" and "m_nAsyncMsgReqStatus m \<noteq> ASYNC_RESPONSE"
    and "case sv_cur s of None \<Rightarrow> True | Some c \<Rightarrow> msg_GetToken (sv_deref c s) \<noteq> md_tok md"
  shows "sv_HandleResponse e H s =
    (-1, s\<lparr>sv_nr := 0, sv_respQ := as, sv_heap := (sv_heap s)(a := None)\<rparr>)"
  using assms
  by (auto simp: sv_HandleResponse_def sv_respDeQ_def sv_touch_def sv_deref_def sv_delete_def
      msg_GetToken_def Let_def split: option.splits)

theorem stale_response_dropped_witness:
  "let s = sv_post demo_env 2 (sv_alloc 2
       (msg_ObtainResponse \<lparr>md_type = 1, md_id = 0xC07, md_tok = 12, md_err = 0\<rparr> 9 9008) demo_sent)
   in sv_out (snd (sv_HandleResponse demo_env gps_handlers s)) = sv_out s \<and>
      sv_cur (snd (sv_HandleResponse demo_env gps_handlers s)) = Some 1"
proof -
  define md :: modem_data where "md = \<lparr>md_type = 1, md_id = 0xC07, md_tok = 12, md_err = 0\<rparr>"
  define s where "s = sv_post demo_env 2 (sv_alloc 2 (msg_ObtainResponse md 9 9008) demo_sent)"
  have st: "sv_respQ s = [2]" "sv_cur s = Some 1" "msg_GetToken (sv_deref 1 s) = 77"
    "m_pModemData (sv_deref 2 s) = Some md" "m_nAsyncMsgReqStatus (sv_deref 2 s) \<noteq> ASYNC_RESPONSE"
    unfolding s_def md_def by code_simp+
  have m: "sv_heap s 2 = Some (sv_deref 2 s)"
    unfolding s_def md_def by code_simp
  have md: "mdh_IsSolicitedResponse md" "md_tok md = 12" unfolding md_def by code_simp+
  have "case sv_cur s of None \<Rightarrow> True | Some c \<Rightarrow> msg_GetToken (sv_deref c s) \<noteq> md_tok md"
    using st md by simp
  then show ?thesis
    using stale_response_dropped [OF st(1) m st(4) md(1) st(5)] st(2)
    unfolding md_def [symmetric] s_def [symmetric] Let_def by simp
qed

text \<open>
  \<^verbatim>\<open>SetRadioState\<close> of the base class: the state becomes the new one, losing the
  modem forgets both registrations, and the notifications that a change triggers come in this order
  (with \<^verbatim>\<open>forceNotify\<close>).  \<^verbatim>\<open>OnRadioOffOrNotAvailable\<close> is
  called when the radio becomes available, also when it goes straight to on, and never when it goes
  from on to off.
\<close>

theorem radio_state_notifications:
  "let s' = sv_SetRadioState e base_handlers st True s; old = sv_radio s;
       avail = (\<lambda>x. x \<noteq> RADIO_STATE_UNAVAILABLE)
   in sv_radio s' = st \<and>
      sv_voice s' = (if avail st then sv_voice s else NOT_REGISTERED) \<and>
      sv_data s' = (if avail st then sv_data s else NOT_REGISTERED) \<and>
      sv_out s' = sv_out s @ map OCallback
        ((if old = st then [] else [OnRadioStateChanged st]) @
         (if avail st \<and> \<not> avail old then [OnRadioAvailable] else []) @
         (if \<not> avail st \<and> avail old then [OnRadioNotAvailable] else []) @
         (if st = RADIO_STATE_ON \<and> old \<noteq> RADIO_STATE_ON then [OnRadioOn] else []) @
         (if st \<in> {RADIO_STATE_OFF, RADIO_STATE_ON} \<and> \<not> avail old
          then [OnRadioOffOrNotAvailable] else []))"
proof -
  have n: "sv_notify e base_handlers c t = t\<lparr>sv_out := sv_out t @ [OCallback c]\<rparr>" for c t
    by (simp add: sv_notify_def base_handlers_def sv_emit_def)
  note defs = sv_SetRadioState_def n sv_SetRadioStateUnavailable_def Let_def radio_states
  show ?thesis
    by (cases "sv_radio s = st"; cases "st = RADIO_STATE_UNAVAILABLE"; cases "st = RADIO_STATE_ON";
        cases "st = RADIO_STATE_OFF"; cases "sv_radio s = RADIO_STATE_UNAVAILABLE";
        cases "sv_radio s = RADIO_STATE_ON"; simp add: defs)
qed

section \<open>Where the code falls short\<close>

text \<open>
  A queued message without request data stalls the queue: the thread consumes the wake-up, frees
  the message and stops, with requests still queued, none being worked on and no notification in the
  pipe.
\<close>

theorem missing_request_data_stalls:
  assumes "sv_cur s = None" and "sv_reqQ s = a # b # as" and "sv_heap s a = Some m"
    and "m_pReqData m = None" and "sv_pipe s = Some [REQUEST]"
  shows "let s' = mon_turn e H Readable s in
    sv_reqQ s' = b # as \<and> sv_cur s' = None \<and> sv_pipe s' = Some [] \<and> \<not> wake s'"
  using assms
  by (simp add: mon_turn_def mon_dispatch_def sv_HandleRequest_def sv_reqDeQ_def sv_touch_def
      sv_deref_def sv_delete_def wake_def)

theorem missing_request_data_stalls_witness:
  "let s = demo_boot\<lparr>sv_reqQ := [1, 2], sv_pipe := Some [REQUEST],
             sv_heap := [1 \<mapsto> msg_new 9 9007 REQUEST None None, 2 \<mapsto> msg_ObtainRequest demo_request 9 9007]\<rparr>
   in \<not> wake (mon_turn demo_env gps_handlers Readable s)"
proof -
  have c: "sv_cur demo_boot = None" by code_simp
  show ?thesis
    using missing_request_data_stalls [of "demo_boot\<lparr>sv_reqQ := [1, 2], sv_pipe := Some [REQUEST],
        sv_heap := [1 \<mapsto> msg_new 9 9007 REQUEST None None, 2 \<mapsto> msg_ObtainRequest demo_request 9 9007]\<rparr>"
        1 2 "[]" "msg_new 9 9007 REQUEST None None" demo_env gps_handlers] c
    by (simp add: Let_def)
qed

text \<open>
  \<^verbatim>\<open>ServiceMgr::SendMessage\<close> reads the message again after queueing it: when an
  earlier notification is still in the pipe, the service thread may take, answer and free the message
  in between, and the second half of the post then reads freed memory.
\<close>

theorem send_message_races_with_thread:
  assumes "sv_cur s = None" and "sv_reqQ s = []" and "sv_pipe s = Some (REQUEST # ds)"
    and "sv_radio s = RADIO_STATE_ON" and "sv_ctx s" and "sv_hist s = Some []" and "e_pipe e"
  shows "let s1 = sv_post_queue a (sv_alloc a (msg_ObtainRequest r svc mid) s);
             s2 = mon_turn e base_handlers Readable s1
         in sv_heap s2 a = None \<and> answers s2 = add_mset r (answers s) \<and> sv_ub (sv_post_notify e a s2)"
proof -
  have "sv_post_queue a (sv_alloc a (msg_ObtainRequest r svc mid) s) =
      (sv_alloc a (msg_ObtainRequest r svc mid) s)\<lparr>sv_reqQ := [a]\<rparr>"
    using assms(2,6) PreProcessing_idle [of "sv_alloc a (msg_ObtainRequest r svc mid) s" a]
    by (simp add: sv_post_queue_def sv_EnQueue_def sv_touch_def sv_deref_def sv_alloc_def
        msg_ObtainRequest_def)
  then show ?thesis
    using assms
    by (simp add: mon_turn_def mon_dispatch_def sv_HandleRequest_def sv_reqDeQ_def sv_touch_def
        sv_deref_def sv_alloc_def msg_ObtainRequest_def sv_refused_def radio_states base_handlers_def
        sv_run_def sv_ctx_emit_def sv_emit_def sv_NotifyNextRequestMessage_def sv_delete_def
        sv_NotifyNewMessage_def sv_post_notify_def sv_fault_def answers_def Let_def)
qed

theorem send_message_races_with_thread_witness:
  "sv_ub (sv_post_notify demo_env 1 (mon_turn demo_env base_handlers Readable
     (sv_post_queue 1 (sv_alloc 1 (msg_ObtainRequest demo_request 9 9007)
       (demo_boot\<lparr>sv_radio := RADIO_STATE_ON, sv_pipe := Some [REQUEST]\<rparr>)))))"
proof -
  have st: "sv_cur demo_boot = None" "sv_reqQ demo_boot = []" "sv_ctx demo_boot"
    "sv_hist demo_boot = Some []" by code_simp+
  show ?thesis
    using send_message_races_with_thread [of "demo_boot\<lparr>sv_radio := RADIO_STATE_ON, sv_pipe := Some [REQUEST]\<rparr>"
        "[]" demo_env 1 demo_request 9 9007] st
    by (simp add: Let_def demo_env_def)
qed

text \<open>
  When reading the pipe fails the thread opens a new one, and the notifications that were in the
  old one are gone: queued requests then wait for the next client to post.
\<close>

theorem reopened_pipe_forgets_wakeups:
  assumes "sv_cur s = None" and "sv_reqQ s \<noteq> []" and "e_pipe e"
  shows "let s' = mon_turn e H ReadFailed s in
    sv_reqQ s' = sv_reqQ s \<and> sv_pipe s' = Some [] \<and> \<not> wake s' \<and> mon_turn e H Readable s' = s'"
  using assms by (simp add: mon_turn_def sv_OpenMessagePipe_def wake_def Let_def)

theorem reopened_pipe_forgets_wakeups_witness:
  "sv_reqQ demo_queued = [1] \<and> \<not> wake (mon_turn demo_env gps_handlers ReadFailed demo_queued)"
proof -
  have "sv_cur demo_queued = None" "sv_reqQ demo_queued = [1]" by code_simp+
  then show ?thesis
    using reopened_pipe_forgets_wakeups [of demo_queued demo_env gps_handlers]
    by (simp add: Let_def demo_env_def)
qed

end
