(* ===== verification/Async_Requests.thy ===== *)
theory Async_Requests
  imports Service_Properties
begin

text \<open>
  Requests that do not occupy the service while the modem works on them
  (\<^verbatim>\<open>HandleAsycMsgRequest\<close> and the register \<^verbatim>\<open>CAsyncMsgReqHistory\<close>): their
  registration, completion, expiry and cleanup.
\<close>

section \<open>Sending and completing\<close>

text \<open>
  C16. An asynchronous request whose handler sends a message to the modem is registered under that
  message's token with a timer of its own, marked as sent at the current time, and does not become
  the current request.
\<close>

theorem async_request_registered:
  assumes "sv_asyncQ s = a # as" and "sv_heap s a = Some m" and "m_pReqData m = Some r"
    and "\<not> sv_async_refused H (rq_id r) s"
    and "\<And>t. h_request H e t a = ([ASend (Some md) ms res True], True)"
    and "md_tok md \<noteq> TOKEN_INVALID" and "sv_hist s = Some h" and "sm_find h (md_tok md) = None"
    and "sv_ctx s" and "e_send e" and "e_timer e = Some tid"
  shows "let s' = snd (sv_HandleAsycMsgRequest e H s); t = to_int32 (uint ms) in
    sv_asyncQ s' = as \<and> sv_cur s' = sv_cur s \<and> sv_ub s' = sv_ub s \<and>
    sv_hist s' = Some (sm_put (md_tok md) a h) \<and>
    sv_asyncTimers s' = sm_insert (md_tok md) tid (sv_asyncTimers s) \<and>
    sv_heap s' a = Some (m\<lparr>m_pModemData := Some md, m_nTimeout := t,
      m_nAsyncMsgReqStatus := ASYNC_SENT2CP, m_tAsyncMsgReqStartTv := e_now e\<rparr>) \<and>
    sv_out s' = sv_out s @ [OSend md (sv_id s) res True,
      OArmTimer (md_tok md) (sgn t * (\<bar>t\<bar> div 1000)) (sgn t * (\<bar>t\<bar> mod 1000) * 1000000)]"
proof -
  have "\<not> sv_async_refused H (rq_id r) (s\<lparr>sv_asyncQ := as\<rparr>)"
    using assms(4) by (simp add: sv_async_refused_def)
  then show ?thesis
    using assms
    by (simp add: sv_HandleAsycMsgRequest_def sv_asycMsgReqDeQ_def sv_touch_def sv_deref_def
        sv_update_def sv_run_def sv_SendRequest_def sv_touch_opt_def sv_is_async_def sv_emit_def
        msg_SetModemData_def msg_GetToken_def sv_AsyncMsgReqStartTimer_def
        sv_AsyncMsgReqInsertHistory_def hist_Push_def sm_insert_def sv_StartTimer_def
        msg_SetAsyncMsgReqStartTime_def Let_def)
qed

definition demo_md :: modem_data where
  "demo_md = \<lparr>md_type = 0, md_id = 0x702, md_tok = 77, md_err = 0\<rparr>"

definition demo_scan :: handlers where
  "demo_scan = base_handlers\<lparr>h_request := (\<lambda>e s a. ([ASend (Some demo_md) 180000 5 True], True)),
     h_solicited := (\<lambda>e s a. ([AComplete RIL_E_SUCCESS True], True))\<rparr>"

definition demo_async :: service where
  "demo_async = demo_boot\<lparr>sv_radio := RADIO_STATE_ON, sv_asyncQ := [1],
     sv_heap := [1 \<mapsto> (msg_ObtainRequest demo_request 5 7001)
       \<lparr>m_nDirection := ASYNC_REQUEST, m_nAsyncMsgReqStatus := ASYNC_INITIATED\<rparr>]\<rparr>"

definition demo_async_sent :: service where
  "demo_async_sent = snd (sv_HandleAsycMsgRequest demo_env demo_scan demo_async)"

theorem async_request_registered_witness:
  "sv_hist demo_async_sent = Some [(77, 1)] \<and> sv_asyncTimers demo_async_sent = [(77, 1)] \<and>
   sv_cur demo_async_sent = None"
proof -
  have st: "sv_asyncQ demo_async = [1]" "sv_heap demo_async 1 = Some (sv_deref 1 demo_async)"
    "m_pReqData (sv_deref 1 demo_async) = Some demo_request" "sv_hist demo_async = Some []"
    "sv_ctx demo_async" "sv_asyncTimers demo_async = []" "sv_cur demo_async = None"
    "\<not> sv_async_refused demo_scan (rq_id demo_request) demo_async"
    by code_simp+
  have h: "h_request demo_scan demo_env t 1 = ([ASend (Some demo_md) 180000 5 True], True)" for t
    by (simp add: demo_scan_def)
  have e: "md_tok demo_md \<noteq> TOKEN_INVALID" "sm_find [] (md_tok demo_md) = None" "e_send demo_env"
    "e_timer demo_env = Some 1"
    by (simp_all add: demo_md_def demo_env_def TOKEN_INVALID_def)
  show ?thesis
    using async_request_registered [OF st(1-3,8) h e(1) st(4) e(2) st(5) e(3,4)] st(6,7)
    unfolding demo_async_sent_def [symmetric] Let_def by (simp add: demo_md_def sm_insert_def)
qed

text \<open>
  C11. When the modem's answer for a registered request is posted, its timer is removed and the answer
  is marked; when the handler then completes it, the request is answered, unregistered and freed, the
  answer is freed, and the synchronous request in progress is not touched.
\<close>

theorem async_response_completes:
  fixes svc mid :: int
  assumes "sv_hist s = Some h" and "sm_find h (md_tok md) = Some a" and "md_tok md \<noteq> TOKEN_INVALID"
    and "sv_heap s a = Some m" and "m_nAsyncMsgReqStatus m = ASYNC_SENT2CP"
    and "m_pReqData m = Some r" and "sv_heap s b = None" and "mdh_IsSolicitedResponse md"
    and "sv_respQ s = []" and "sv_ctx s" and "sv_pipe s = Some p" and "e_pipe e"
    and "\<And>t. h_solicited H e t b = ([AComplete res True], True)"
  defines "s1 \<equiv> sv_post e b (sv_alloc b (msg_ObtainResponse md svc mid) s)"
  shows "sv_asyncTimers s1 = sm_erase (md_tok md) (sv_asyncTimers s) \<and>
    (let s' = snd (sv_HandleResponse e H s1) in
      sv_out s' = sv_out s @ [OComplete r res, OClearGarbage (md_tok md)] \<and>
      sv_hist s' = Some (sm_erase (md_tok md) h) \<and> sv_cur s' = sv_cur s \<and>
      sv_timers s' = sv_timers s \<and> sv_heap s' = (sv_heap s)(a := None) \<and> sv_ub s' = sv_ub s)"
proof -
  have ab: "a \<noteq> b" and h: "h \<noteq> []" using assms(2,4,7) by auto
  let ?m = "(msg_ObtainResponse md svc mid)\<lparr>m_nAsyncMsgReqStatus := ASYNC_RESPONSE\<rparr>"
  have s1: "s1 = s\<lparr>sv_heap := (sv_heap s)(b \<mapsto> ?m),
      sv_asyncTimers := sm_erase (md_tok md) (sv_asyncTimers s), sv_respQ := [b],
      sv_pipe := Some (p @ [RESPONSE])\<rparr>"
    using assms(1-12) ab h
    by (simp add: s1_def sv_post_def sv_post_queue_def sv_AsyncMsgReqPreProcessing_def sv_alloc_def
        sv_touch_def sv_deref_def msg_ObtainResponse_def msg_GetToken_def hist_Find_def
        sv_AsyncMsgReqDeleteTimer_def sv_update_def sv_EnQueue_def sv_post_notify_def
        sv_NotifyNewMessage_def Let_def)
  show ?thesis
    unfolding s1 using assms(1-13) ab h
    by (simp add: sv_HandleResponse_def sv_respDeQ_def sv_touch_def sv_deref_def sv_run_def
        sv_OnRequestComplete_def sv_touch_opt_def sv_is_async_def msg_ObtainResponse_def
        msg_GetToken_def hist_Find_def hist_Remove_def sv_complete_def sv_emit_def sv_delete_def
        fun_upd_twist Let_def fun_eq_iff)
qed

theorem async_response_completes_witness:
  "sv_out (snd (sv_HandleResponse demo_env demo_scan
     (sv_post demo_env 2 (sv_alloc 2 (msg_ObtainResponse (demo_md\<lparr>md_type := 1\<rparr>) 5 7002) demo_async_sent))))
   = sv_out demo_async_sent @ [OComplete demo_request 0, OClearGarbage 77]"
proof -
  have st: "sv_hist demo_async_sent = Some [(77, 1)]" "sv_respQ demo_async_sent = []"
    "sv_heap demo_async_sent 1 = Some (sv_deref 1 demo_async_sent)"
    "m_nAsyncMsgReqStatus (sv_deref 1 demo_async_sent) = ASYNC_SENT2CP"
    "m_pReqData (sv_deref 1 demo_async_sent) = Some demo_request" "sv_heap demo_async_sent 2 = None"
    "sv_ctx demo_async_sent" "sv_pipe demo_async_sent = Some []"
    by code_simp+
  have md: "sm_find [(77, 1)] (md_tok (demo_md\<lparr>md_type := 1\<rparr>)) = Some 1"
    "md_tok (demo_md\<lparr>md_type := 1\<rparr>) \<noteq> TOKEN_INVALID" "mdh_IsSolicitedResponse (demo_md\<lparr>md_type := 1\<rparr>)"
    by (simp_all add: demo_md_def TOKEN_INVALID_def mdh_IsSolicitedResponse_def RCM_TYPE_RESPONSE_def)
  have e: "e_pipe demo_env" by (simp add: demo_env_def)
  have h: "h_solicited demo_scan demo_env t 2 = ([AComplete RIL_E_SUCCESS True], True)" for t
    by (simp add: demo_scan_def)
  show ?thesis
    using async_response_completes [OF st(1) md(1,2) st(3-6) md(3) st(2,7,8) e h, of 5 7002]
    by (simp add: Let_def RIL_E_SUCCESS_def demo_md_def)
qed

text \<open>
  A handler that completes an asynchronous request itself frees the message that its caller goes
  on to use: when it then reports success, the caller reads freed memory.
\<close>

theorem async_complete_in_handler_use_after_free:
  assumes "sv_asyncQ s = a # as" and "sv_heap s a = Some m" and "m_pReqData m = Some r"
    and "m_nDirection m = ASYNC_REQUEST" and "\<not> sv_async_refused H (rq_id r) s" and "sv_ctx s"
    and "\<And>t. h_request H e t a = ([AComplete res True], ret)"
  shows "let s' = snd (sv_HandleAsycMsgRequest e H s) in
    OComplete r res \<in> set (sv_out s') \<and> sv_ub s'"
proof -
  have "\<not> sv_async_refused H (rq_id r) (s\<lparr>sv_asyncQ := as\<rparr>)"
    using assms(5) by (simp add: sv_async_refused_def)
  then show ?thesis
    using assms
    by (simp add: sv_HandleAsycMsgRequest_def sv_asycMsgReqDeQ_def sv_touch_def sv_deref_def
        sv_update_def sv_run_def sv_OnRequestComplete_def sv_touch_opt_def sv_is_async_def sv_emit_def
        sv_complete_def sv_delete_def sv_fault_def msg_GetToken_def msg_default_def Let_def)
qed

theorem async_complete_in_handler_use_after_free_witness:
  "sv_ub (snd (sv_HandleAsycMsgRequest demo_env
     (base_handlers\<lparr>h_request := (\<lambda>e s a. ([AComplete 2 True], True))\<rparr>) demo_async))"
proof -
  have st: "sv_asyncQ demo_async = [1]" "sv_heap demo_async 1 = Some (sv_deref 1 demo_async)"
    "m_pReqData (sv_deref 1 demo_async) = Some demo_request"
    "m_nDirection (sv_deref 1 demo_async) = ASYNC_REQUEST" "sv_ctx demo_async"
    "\<not> sv_async_refused (base_handlers\<lparr>h_request := (\<lambda>e s a. ([AComplete 2 True], True))\<rparr>)
       (rq_id demo_request) demo_async"
    by code_simp+
  show ?thesis
    using async_complete_in_handler_use_after_free [OF st(1-4,6,5), of demo_env 2 True]
    by (simp add: Let_def)
qed

section \<open>Expiry and cleanup\<close>

text \<open>When deadline \<open>x\<close> is strictly later than \<open>y\<close>.\<close>

definition later :: "timeval \<Rightarrow> timeval \<Rightarrow> bool" where
  "later x y \<longleftrightarrow> tv_sec x > tv_sec y \<or> tv_sec x = tv_sec y \<and> tv_usec x > tv_usec y"

lemma later_trans: "\<not> later x y \<Longrightarrow> \<not> later y z \<Longrightarrow> \<not> later x z"
  by (auto simp: later_def)

definition sent :: "service \<Rightarrow> (u32 \<times> addr) list \<Rightarrow> (u32 \<times> addr) list" where
  "sent s h = filter (\<lambda>(k, a). m_nAsyncMsgReqStatus (sv_deref a s) = ASYNC_SENT2CP) h"

lemma hist_earliest_best:
  "hist_earliest s h (Some (b, btv, bk)) = Some (a, tv, k) \<Longrightarrow>
   \<not> later tv btv \<and> (\<forall>(j, c)\<in>set (sent s h). \<not> later tv (hist_deadline (sv_deref c s))) \<and>
   ((a, tv, k) = (b, btv, bk) \<or> (k, a) \<in> set (sent s h) \<and> tv = hist_deadline (sv_deref a s))"
proof (induction h arbitrary: b btv bk)
  case Nil
  then show ?case by (simp add: later_def sent_def)
next
  case (Cons x h)
  obtain j c where x: "x = (j, c)" by force
  let ?ctv = "hist_deadline (sv_deref c s)"
  have s: "sent s (x # h) = (if m_nAsyncMsgReqStatus (sv_deref c s) = ASYNC_SENT2CP then [(j, c)] else [])
      @ sent s h" by (simp add: sent_def x)
  show ?case
  proof (cases "m_nAsyncMsgReqStatus (sv_deref c s) = ASYNC_SENT2CP \<and> later btv ?ctv")
    case True
    then have "hist_earliest s h (Some (c, ?ctv, j)) = Some (a, tv, k)"
      using Cons.prems by (simp add: x later_def Let_def)
    note ih = Cons.IH [OF this]
    have "\<not> later ?ctv btv" using True by (auto simp: later_def)
    then have "\<not> later tv btv" using ih later_trans by blast
    then show ?thesis using ih True unfolding s by auto
  next
    case False
    then have "hist_earliest s h (Some (b, btv, bk)) = Some (a, tv, k)"
      using Cons.prems by (auto simp: x later_def Let_def split: if_splits)
    note ih = Cons.IH [OF this]
    show ?thesis
    proof (cases "m_nAsyncMsgReqStatus (sv_deref c s) = ASYNC_SENT2CP")
      case True
      then have "\<not> later tv ?ctv" using False ih later_trans by blast
      then show ?thesis using ih unfolding s by auto
    next
      case unsent: False
      then show ?thesis using ih unfolding s by simp
    qed
  qed
qed

lemma hist_earliest_some: "hist_earliest s h (Some b) \<noteq> None"
  by (induction h arbitrary: b) (auto simp: Let_def split: prod.split)

lemma hist_earliest_first:
  "sent s h = (j, c) # rest \<Longrightarrow>
   \<exists>h'. hist_earliest s h None = hist_earliest s h' (Some (c, hist_deadline (sv_deref c s), j)) \<and>
        sent s h' = rest"
proof (induction h)
  case (Cons x h)
  obtain i d where x: "x = (i, d)" by force
  show ?case
    using Cons by (cases "m_nAsyncMsgReqStatus (sv_deref d s) = ASYNC_SENT2CP") (auto simp: sent_def x Let_def)
qed (simp add: sent_def)

text \<open>
  \<^verbatim>\<open>GetReqMsgForEarlistTimeOut\<close> returns a request that was sent to the modem
  and whose deadline is not later than that of any other such request, with its token and that
  deadline; it returns nothing exactly when no registered request is waiting for the modem.
\<close>

theorem earliest_timeout_is_minimal:
  "case hist_GetReqMsgForEarlistTimeOut s h of
     None \<Rightarrow> sent s h = []
   | Some (a, tv, k) \<Rightarrow>
       (k, a) \<in> set (sent s h) \<and> tv = hist_deadline (sv_deref a s) \<and>
       list_all (\<lambda>(j, b). \<not> later tv (hist_deadline (sv_deref b s))) (sent s h)"
proof (cases "sent s h")
  case Nil
  then have "hist_earliest s h None = None"
    by (induction h) (auto simp: sent_def Let_def split: if_splits prod.splits)
  then show ?thesis using Nil by (simp add: hist_GetReqMsgForEarlistTimeOut_def)
next
  case (Cons x rest)
  obtain j c where x: "x = (j, c)" by force
  obtain h' where f: "hist_earliest s h None = hist_earliest s h' (Some (c, hist_deadline (sv_deref c s), j))"
    "sent s h' = rest" using hist_earliest_first [OF Cons [unfolded x]] by blast
  obtain a tv k where r: "hist_earliest s h None = Some (a, tv, k)"
    using f(1) hist_earliest_some [of s h'] by (metis not_None_eq prod_cases3)
  note b = hist_earliest_best [OF r [unfolded f(1)], unfolded f(2)]
  show ?thesis
    using r b Cons x by (auto simp: hist_GetReqMsgForEarlistTimeOut_def list_all_iff)
qed

lemma clear_history_all:
  assumes "sm_wf h" and "TOKEN_INVALID \<notin> fst ` set h" and "distinct (map snd h)"
    and "\<forall>(k, a)\<in>set h. \<exists>m r. sv_heap s a = Some m \<and> m_pReqData m = Some r"
    and "sv_ctx s" and "sv_hist s = Some h"
  shows "sv_clear_history (length h) s =
    s\<lparr>sv_out := sv_out s @ map (\<lambda>(k, a). OTimeout (req_of s a) k) h,
      sv_asyncTimers := foldl (\<lambda>ts k. sm_erase k ts) (sv_asyncTimers s) (map fst h),
      sv_hist := Some [], sv_heap := (\<lambda>x. if x \<in> snd ` set h then None else sv_heap s x)\<rparr>"
  using assms
proof (induction h arbitrary: s)
  case Nil
  then show ?case by (cases s) simp
next
  case (Cons x h)
  obtain k a where x: "x = (k, a)" by force
  obtain m r where m: "sv_heap s a = Some m" "m_pReqData m = Some r" using Cons.prems(4) x by auto
  have k: "k \<noteq> TOKEN_INVALID" using Cons.prems(2) x by auto
  let ?t = "s\<lparr>sv_out := sv_out s @ [OTimeout r k], sv_asyncTimers := sm_erase k (sv_asyncTimers s),
      sv_hist := Some h, sv_heap := (sv_heap s)(a := None)\<rparr>"
  have step: "sv_clear_history (length (x # h)) s = sv_clear_history (length h) ?t"
    using m k Cons.prems(5,6) x
    by (simp add: Let_def hist_GetBegin_def hist_Find_def hist_Remove_def sv_touch_def sv_deref_def
        sv_emit_def sv_AsyncMsgReqDeleteTimer_def sv_delete_def)
  have other: "b \<noteq> a" if "(j, b) \<in> set h" for j b
    using Cons.prems(3) that x by (force simp: image_iff)
  have rq: "req_of s a = r" using m by (simp add: req_of_def sv_deref_def)
  have rqs: "map (\<lambda>(j, b). OTimeout (req_of ?t b) j) h = map (\<lambda>(j, b). OTimeout (req_of s b) j) h"
    using other by (auto simp: req_of_def sv_deref_def)
  have "sv_clear_history (length h) ?t =
    ?t\<lparr>sv_out := sv_out ?t @ map (\<lambda>(k, a). OTimeout (req_of ?t a) k) h,
      sv_asyncTimers := foldl (\<lambda>ts k. sm_erase k ts) (sv_asyncTimers ?t) (map fst h),
      sv_hist := Some [], sv_heap := (\<lambda>x. if x \<in> snd ` set h then None else sv_heap ?t x)\<rparr>"
  proof (rule Cons.IH)
    show "\<forall>(j, b)\<in>set h. \<exists>m r. sv_heap ?t b = Some m \<and> m_pReqData m = Some r"
      using Cons.prems(4) other by fastforce
  qed (use Cons.prems x in auto)
  then show ?case
    unfolding step rqs using x rq by (auto simp: fun_eq_iff intro!: ext)
qed





end
