(* ===== verification/Ril_Context.thy ===== *)
theory Ril_Context
  imports Async_Requests
begin

text \<open>
  \<^verbatim>\<open>sitril/core/servicemgr.cpp\<close> and \<^verbatim>\<open>sitril/rilcontextwrapper.cpp\<close>: the
  context of one SIM slot.  It routes requests of the framework and data of the modem to its
  services, remembers which service waits for which token, and hands answers back.

  The context holds the state of every service under its id.  What a service asked of the context
  during a turn is the list of events it emitted; \<open>cx_turn\<close> runs the turn and then lets the
  context act on them in order.  A message is allocated in the heap of the service it goes to, at an
  address the caller chooses.  What the payload of an answer changes in the registration and card
  state of the context is not modelled.
\<close>

section \<open>State\<close>

type_synonym route_map = "(int \<times> int \<times> int) list"

datatype app_event =
    AppComplete nat int
  | AppUnsol int
  | AppAck nat
  | ChannelWrite modem_data bool
  | StopRcmMonitoring

record rilctx =
  cx_services :: "(int \<times> service) list"
  cx_requests :: route_map
  cx_oem :: route_map
  cx_inds :: route_map
  cx_async :: "(int \<times> int) list"
  cx_wait :: wait_list
  cx_modem :: int
  cx_calls :: "bool list"
  cx_app :: "app_event list"
  cx_fault :: bool

definition cx_new :: "route_map \<Rightarrow> route_map \<Rightarrow> route_map \<Rightarrow> (int \<times> int) list \<Rightarrow> rilctx" where
  "cx_new req oem inds asy =
     \<lparr>cx_services = [], cx_requests = req, cx_oem = oem, cx_inds = inds, cx_async = asy,
      cx_wait = wl_new, cx_modem = MS_OFFLINE, cx_calls = replicate 9 False, cx_app = [],
      cx_fault = False\<rparr>"

definition RIL_REQUEST_OEM_HOOK_RAW :: int where "RIL_REQUEST_OEM_HOOK_RAW = 59"
definition RIL_OEM_REQUEST_BASE :: int where "RIL_OEM_REQUEST_BASE = 10000"
definition MS_CRASH_EXIT :: int where "MS_CRASH_EXIT = 2"
definition RIL_SERVICE_MISC :: int where "RIL_SERVICE_MISC = 4"
definition MSG_MISC_OEM_FCRASH_MNR_REQ :: int where "MSG_MISC_OEM_FCRASH_MNR_REQ = 5081"
definition RIL_REQUEST_OEM_MODEM_DUMP :: int where "RIL_REQUEST_OEM_MODEM_DUMP = 10100"

text \<open>The table of asynchronous messages, \<^verbatim>\<open>ril_async_message.h\<close>: message to service.\<close>

definition s_AsyncMsgMap :: "(int \<times> int) list" where
  "s_AsyncMsgMap = [(4015, 5), (4017, 5), (4018, 5), (4020, 5)]"

section \<open>Routing\<close>

definition route_of :: "route_map \<Rightarrow> int \<Rightarrow> int \<times> int" where
  "route_of t k = (case sm_find t k of Some v \<Rightarrow> v | None \<Rightarrow> (-1, 0))"

definition route_ok :: "int \<times> int \<Rightarrow> bool" where
  "route_ok v \<longleftrightarrow> fst v > 0 \<and> snd v > 0"

text \<open>Each returns the C result with the two output parameters.\<close>

definition RouteRequest_id :: "rilctx \<Rightarrow> int \<Rightarrow> (int \<times> int) option" where
  "RouteRequest_id cx rid = (if rid \<le> 0 then None else Some (route_of (cx_requests cx) rid))"

definition RouteOemRequest :: "rilctx \<Rightarrow> request_data \<Rightarrow> int \<times> int \<times> int" where
  "RouteOemRequest cx r =
     (let v = route_of (cx_oem cx) (rq_id r) in (if route_ok v then 0 else -1, v))"

definition RouteRequest :: "rilctx \<Rightarrow> request_data \<Rightarrow> int \<times> int \<times> int" where
  "RouteRequest cx r =
     (let rid = rq_id r in
      if rid \<le> 0 then (-1, -1, 0)
      else if rid = RIL_REQUEST_OEM_HOOK_RAW then RouteOemRequest cx r
      else let v = (if rid \<ge> RIL_OEM_REQUEST_BASE then route_of (cx_oem cx) rid
                    else route_of (cx_requests cx) rid)
           in (if route_ok v then 0 else -1, v))"

definition RouteProtocolInd :: "rilctx \<Rightarrow> int \<Rightarrow> int \<times> int \<times> int" where
  "RouteProtocolInd cx i =
     (let v = route_of (cx_inds cx) i in (if route_ok v then 0 else -1, v))"

definition SetRequestMap :: "int \<Rightarrow> int \<Rightarrow> int \<Rightarrow> rilctx \<Rightarrow> rilctx" where
  "SetRequestMap rid svc mid cx = cx\<lparr>cx_requests := sm_put rid (svc, mid) (cx_requests cx)\<rparr>"

definition SetOemRequestMap :: "int \<Rightarrow> int \<Rightarrow> int \<Rightarrow> rilctx \<Rightarrow> rilctx" where
  "SetOemRequestMap rid svc mid cx = cx\<lparr>cx_oem := sm_put rid (svc, mid) (cx_oem cx)\<rparr>"

definition SetProtocolIndMap :: "int \<Rightarrow> int \<Rightarrow> int \<Rightarrow> rilctx \<Rightarrow> rilctx" where
  "SetProtocolIndMap i svc mid cx = cx\<lparr>cx_inds := sm_put i (svc, mid) (cx_inds cx)\<rparr>"

definition IsAsyncMessage :: "rilctx \<Rightarrow> int \<Rightarrow> int \<Rightarrow> bool" where
  "IsAsyncMessage cx svc mid \<longleftrightarrow> sm_find (cx_async cx) mid = Some svc"

section \<open>Services\<close>

definition FindService :: "rilctx \<Rightarrow> int \<Rightarrow> service option" where
  "FindService cx svc = sm_find (cx_services cx) svc"

definition cx_put :: "int \<Rightarrow> service \<Rightarrow> rilctx \<Rightarrow> rilctx" where
  "cx_put svc s cx = cx\<lparr>cx_services := sm_put svc s (cx_services cx)\<rparr>"

definition StartServices :: "env \<Rightarrow> rilctx \<Rightarrow> int \<times> rilctx" where
  "StartServices e cx =
     (if cx_services cx = [] then (-1, cx)
      else (0, cx\<lparr>cx_services :=
        map (\<lambda>(k, s). (k, if sv_state s = CREATED then snd (sv_Start e s) else s)) (cx_services cx)\<rparr>))"

text \<open>\<open>None\<close> is the result -1: the caller still owns the message.\<close>

definition mgr_SendMessage :: "env \<Rightarrow> addr \<Rightarrow> message \<Rightarrow> rilctx \<Rightarrow> rilctx option" where
  "mgr_SendMessage e a m cx =
     (case FindService cx (m_nSvcId m) of
        None \<Rightarrow> None
      | Some s \<Rightarrow> Some (cx_put (m_nSvcId m) (sv_post e a (sv_alloc a m s)) cx))"

text \<open>A broadcast puts a copy into every service, in the order of their ids.\<close>

definition mgr_enqueue_copy :: "env \<Rightarrow> addr \<Rightarrow> message \<Rightarrow> int \<Rightarrow> service \<Rightarrow> service" where
  "mgr_enqueue_copy e a m k s =
     (let s1 = snd (sv_EnQueue (Some a) (sv_alloc a ((msg_Clone m)\<lparr>m_nSvcId := k\<rparr>) s))
      in sv_post_notify e a s1)"

definition mgr_BroadcastMessage :: "env \<Rightarrow> addr \<Rightarrow> message \<Rightarrow> rilctx \<Rightarrow> rilctx" where
  "mgr_BroadcastMessage e a m cx =
     cx\<lparr>cx_services := map (\<lambda>(k, s). (k, mgr_enqueue_copy e a m k s)) (cx_services cx)\<rparr>"

definition BroadcastSystemMessage ::
  "env \<Rightarrow> addr \<Rightarrow> int \<Rightarrow> ril_data option \<Rightarrow> rilctx \<Rightarrow> rilctx" where
  "BroadcastSystemMessage e a mid d cx = mgr_BroadcastMessage e a (msg_ObtainSystem mid d) cx"

section \<open>Towards the framework and the modem\<close>

definition cx_emit :: "app_event \<Rightarrow> rilctx \<Rightarrow> rilctx" where
  "cx_emit ev cx = cx\<lparr>cx_app := cx_app cx @ [ev]\<rparr>"

definition cx_OnRequestComplete :: "request_data option \<Rightarrow> int \<Rightarrow> rilctx \<Rightarrow> rilctx" where
  "cx_OnRequestComplete rq res cx =
     (case rq of None \<Rightarrow> cx | Some r \<Rightarrow> cx_emit (AppComplete (rq_token r) res) cx)"

definition RecordRequestHistory :: "u32 \<Rightarrow> u32 \<Rightarrow> u32 \<Rightarrow> u32 \<Rightarrow> rilctx \<Rightarrow> rilctx" where
  "RecordRequestHistory src dest tok res cx =
     (let r = hr_newInstance src dest tok res
      in if hr_IsValid r then cx\<lparr>cx_wait := wl_Push r (cx_wait cx)\<rparr> else cx)"

definition RemoveRequestHistory :: "u32 \<Rightarrow> rilctx \<Rightarrow> rilctx" where
  "RemoveRequestHistory tok cx = cx\<lparr>cx_wait := wl_Remove tok (cx_wait cx)\<rparr>"

definition ClearGarbage :: "u32 \<Rightarrow> rilctx \<Rightarrow> rilctx" where
  "ClearGarbage tok cx = (if tok \<noteq> TOKEN_INVALID then RemoveRequestHistory tok cx else cx)"

definition IsInRequestWaitHistory :: "u32 \<Rightarrow> rilctx \<Rightarrow> bool" where
  "IsInRequestWaitHistory tok cx = hr_IsValid (wl_Find tok (cx_wait cx))"

definition cx_OnRequestTimeout :: "request_data option \<Rightarrow> u32 \<Rightarrow> rilctx \<Rightarrow> rilctx" where
  "cx_OnRequestTimeout rq tok cx =
     (let cx1 = (if hr_IsValid (wl_Find tok (cx_wait cx)) then RemoveRequestHistory tok cx else cx)
      in cx_OnRequestComplete rq RIL_E_INTERNAL_ERR cx1)"

text \<open>\<open>ok\<close> is the outcome of the write to the channel.\<close>

definition cx_Send :: "modem_data \<Rightarrow> u32 \<Rightarrow> u32 \<Rightarrow> bool \<Rightarrow> rilctx \<Rightarrow> rilctx" where
  "cx_Send md dest res ok cx =
     (let cx1 = cx_emit (ChannelWrite md ok) (RecordRequestHistory dest dest (md_tok md) res cx)
      in if ok then cx1 else RemoveRequestHistory (md_tok md) cx1)"

text \<open>The forced modem dump is a request to the service for miscellaneous requests.\<close>

definition modem_dump_message :: message where
  "modem_dump_message = msg_ObtainRequest
     \<lparr>rq_id = RIL_REQUEST_OEM_MODEM_DUMP, rq_token = 0, rq_raw = None\<rparr>
     RIL_SERVICE_MISC MSG_MISC_OEM_FCRASH_MNR_REQ"

definition cx_act :: "env \<Rightarrow> addr \<Rightarrow> rilctx \<Rightarrow> out_event \<Rightarrow> rilctx" where
  "cx_act e a cx ev =
     (case ev of
        OComplete r res \<Rightarrow> cx_OnRequestComplete (Some r) res cx
      | OTimeout r tok \<Rightarrow> cx_OnRequestTimeout (Some r) tok cx
      | OClearGarbage tok \<Rightarrow> ClearGarbage tok cx
      | OAck t \<Rightarrow> cx_emit (AppAck t) cx
      | OUnsol i \<Rightarrow> cx_emit (AppUnsol i) cx
      | OSend md dest res ok \<Rightarrow> cx_Send md dest res ok cx
      | OSendRaw md ok \<Rightarrow> cx_emit (ChannelWrite md ok) cx
      | OModemDump _ \<Rightarrow>
          (case mgr_SendMessage e a modem_dump_message cx of Some cx' \<Rightarrow> cx' | None \<Rightarrow> cx)
      | OArmTimer _ _ _ \<Rightarrow> cx
      | OCallback _ \<Rightarrow> cx)"

text \<open>One turn of a service's thread, and what it makes the context do.\<close>

definition cx_turn :: "env \<Rightarrow> addr \<Rightarrow> handlers \<Rightarrow> int \<Rightarrow> wakeup \<Rightarrow> rilctx \<Rightarrow> rilctx" where
  "cx_turn e a H svc w cx =
     (case FindService cx svc of
        None \<Rightarrow> cx
      | Some s \<Rightarrow>
         (let s' = mon_turn e H w s
          in foldl (cx_act e a) (cx_put svc s' cx) (drop (length (sv_out s)) (sv_out s'))))"

text \<open>
  \<^verbatim>\<open>Finalize\<close> and the destructor of a service; what they report still reaches the
  context.
\<close>

definition sv_destroy :: "env \<Rightarrow> handlers \<Rightarrow> service \<Rightarrow> service" where
  "sv_destroy e H s = sv_AsycMsgReqClear (sv_ClearMessageQueue (snd (sv_Finalize e H s)))"

definition cx_destroy :: "env \<Rightarrow> addr \<Rightarrow> handlers \<Rightarrow> service \<Rightarrow> rilctx \<Rightarrow> rilctx" where
  "cx_destroy e a H s cx =
     foldl (cx_act e a) cx (drop (length (sv_out s)) (sv_out (sv_destroy e H s)))"

definition AddService ::
  "env \<Rightarrow> addr \<Rightarrow> handlers \<Rightarrow> int \<Rightarrow> service option \<Rightarrow> rilctx \<Rightarrow> int \<times> rilctx" where
  "AddService e a H svc ps cx =
     (case ps of
        None \<Rightarrow> (-1, cx)
      | Some s \<Rightarrow>
         if svc \<le> 0 then (-1, cx)
         else let cx1 = (case FindService cx svc of None \<Rightarrow> cx | Some cur \<Rightarrow> cx_destroy e a H cur cx)
              in (0, cx_put svc (snd (sv_Init e s)) cx1))"

definition mgr_Finalize :: "env \<Rightarrow> addr \<Rightarrow> handlers \<Rightarrow> rilctx \<Rightarrow> rilctx" where
  "mgr_Finalize e a H cx =
     (foldl (\<lambda>c (k, s). cx_destroy e a H s c) cx (cx_services cx))\<lparr>cx_services := []\<rparr>"

section \<open>Entry points of the context\<close>

text \<open>
  \<^verbatim>\<open>SendMessage(RequestData *)\<close>.  When the service does not exist the message is deleted
  together with the request it owns, and the request is used again.
\<close>

definition cx_SendRequestData :: "env \<Rightarrow> addr \<Rightarrow> request_data option \<Rightarrow> rilctx \<Rightarrow> int \<times> rilctx" where
  "cx_SendRequestData e a rq cx =
     (case rq of
        None \<Rightarrow> (-1, cx)
      | Some r \<Rightarrow>
         (case RouteRequest cx r of
            (rc, svc, mid) \<Rightarrow>
              if rc < 0 then (-1, cx)
              else
                (let m = msg_ObtainRequest r svc mid;
                     m = (if IsAsyncMessage cx svc mid
                          then m\<lparr>m_nDirection := ASYNC_REQUEST, m_nAsyncMsgReqStatus := ASYNC_INITIATED\<rparr>
                          else m)
                 in (case mgr_SendMessage e a m cx of
                       Some cx' \<Rightarrow> (0, cx')
                     | None \<Rightarrow>
                         (0, cx_OnRequestComplete (Some r) RIL_E_REQUEST_NOT_SUPPORTED (cx\<lparr>cx_fault := True\<rparr>))))))"

text \<open>The argument \<open>rq\<close> is what the request parser made of the call, \<open>None\<close> if it failed.\<close>

definition cx_OnRequest :: "env \<Rightarrow> addr \<Rightarrow> int \<Rightarrow> nat \<Rightarrow> request_data option \<Rightarrow> rilctx \<Rightarrow> rilctx" where
  "cx_OnRequest e a rid tok rq cx =
     (if rid < 0 then cx_emit (AppComplete tok RIL_E_REQUEST_NOT_SUPPORTED) cx
      else (case cx_SendRequestData e a rq cx of
              (rc, cx1) \<Rightarrow>
                if rc < 0 then cx_emit (AppComplete tok RIL_E_REQUEST_NOT_SUPPORTED) cx1 else cx1))"

text \<open>
  \<^verbatim>\<open>SendMessage(ModemData *)\<close>.  The ids in a record are unsigned; a record that is not
  found leaves the service at -1, which no service has.
\<close>

definition cx_SendModemData :: "env \<Rightarrow> addr \<Rightarrow> modem_data \<Rightarrow> rilctx \<Rightarrow> int \<times> rilctx" where
  "cx_SendModemData e a md cx =
     (if mdh_IsSolicitedResponse md then
        (let r = wl_Find (md_tok md) (cx_wait cx);
             (svc, mid) = (if hr_IsValid r then (to_int32 (uint (hr_dest r)), to_int32 (uint (hr_result r)))
                           else (-1, 0));
             cx1 = RemoveRequestHistory (md_tok md) cx
         in (case mgr_SendMessage e a (msg_ObtainResponse md svc mid) cx1 of
               Some cx2 \<Rightarrow> (0, cx2) | None \<Rightarrow> (0, cx1)))
      else if mdh_IsUnsolicitedResponse md then
        (case RouteProtocolInd cx (uint (md_id md)) of
           (rc, svc, mid) \<Rightarrow>
             if rc \<noteq> 0 then (-1, cx)
             else (case mgr_SendMessage e a (msg_ObtainResponse md svc mid) cx of
                     Some cx2 \<Rightarrow> (0, cx2) | None \<Rightarrow> (0, cx)))
      else (-1, cx))"

text \<open>\<open>None\<close>: decoding the header reads outside the data.\<close>

definition ProcessModemData :: "env \<Rightarrow> addr \<Rightarrow> u8 list \<Rightarrow> rilctx \<Rightarrow> rilctx option" where
  "ProcessModemData e a bs cx =
     (if bs = [] then Some cx
      else do { md \<leftarrow> md_decode (md_new bs False); Some (snd (cx_SendModemData e a md cx)) })"

text \<open>The second broadcast reuses an address, after the first copies were allocated: it takes its own.\<close>

definition cx_OnModemStateChanged :: "env \<Rightarrow> addr \<Rightarrow> addr \<Rightarrow> int \<Rightarrow> rilctx \<Rightarrow> rilctx" where
  "cx_OnModemStateChanged e a b st cx =
     (let old = cx_modem cx; cx1 = cx\<lparr>cx_modem := st\<rparr> in
      if old = st then cx1
      else
        (let cx2 = (if st = MS_CRASH_EXIT then cx_emit StopRcmMonitoring cx1 else cx1);
             cx3 = BroadcastSystemMessage e a MSG_SYSTEM_MODEM_STATE_CHANGED (Some (RilDataInts [st])) cx2
         in if old = MS_ONLINE \<and> st \<noteq> MS_ONLINE
            then BroadcastSystemMessage e b MSG_SYSTEM_RESET None cx3 else cx3))"

text \<open>
  The data call list of an unsolicited response: pairs of a connection id and whether it is active.
  The id indexes an array of nine flags without a check.
\<close>

fun call_flags :: "(int \<times> bool) list \<Rightarrow> bool list \<Rightarrow> bool list option" where
  "call_flags [] fs = Some fs"
| "call_flags ((cid, act) # cs) fs =
     (if cid < 0 then None else do { fs' \<leftarrow> arr_set fs (nat cid) act; call_flags cs fs' })"

fun call_broadcast ::
  "env \<Rightarrow> (nat \<Rightarrow> addr) \<Rightarrow> bool list \<Rightarrow> nat list \<Rightarrow> rilctx \<Rightarrow> rilctx" where
  "call_broadcast e al fs [] cx = cx"
| "call_broadcast e al fs (i # is) cx =
     (if cx_calls cx ! i \<noteq> fs ! i
      then call_broadcast e al fs is
             (BroadcastSystemMessage e (al i) MSG_SYSTEM_DATA_CALL_STATE_CHANGED
                (Some (RilDataInts [int i, if fs ! i then 1 else 0]))
                (cx\<lparr>cx_calls := (cx_calls cx)[i := fs ! i]\<rparr>))
      else call_broadcast e al fs is cx)"

definition cx_DataCallListChanged ::
  "env \<Rightarrow> (nat \<Rightarrow> addr) \<Rightarrow> (int \<times> bool) list \<Rightarrow> rilctx \<Rightarrow> rilctx option" where
  "cx_DataCallListChanged e al calls cx = do {
     fs \<leftarrow> call_flags calls (replicate 9 False);
     Some (call_broadcast e al fs [1..<9] cx) }"

section \<open>Lemmas\<close>

lemma cx_Send_wait:
  "cx_wait (cx_Send md dest res ok cx) =
     (let w = (if md_tok md = TOKEN_INVALID then cx_wait cx
               else wl_Push (hr_newInstance dest dest (md_tok md) res) (cx_wait cx))
      in if ok then w else wl_Remove (md_tok md) w)"
  by (simp add: cx_Send_def cx_emit_def RecordRequestHistory_def RemoveRequestHistory_def
      hr_newInstance_def hr_IsValid_def hr_default_def Let_def)

lemma cx_Send_services [simp]: "cx_services (cx_Send md dest res ok cx) = cx_services cx"
  by (simp add: cx_Send_def cx_emit_def RecordRequestHistory_def RemoveRequestHistory_def Let_def)

lemma FindService_put [simp]:
  "FindService (cx_put k s cx) j = (if j = k then Some s else FindService cx j)"
  by (simp add: FindService_def cx_put_def)

lemma sm_find_map: "sm_find (map (\<lambda>(k, s). (k, f k s)) m) j = map_option (f j) (sm_find m j)"
  by (induction m j rule: sm_find.induct) auto

section \<open>Properties\<close>

text \<open>
  C5. An answer of the modem goes to the service that sent the request with its token, as the
  response message that service asked for, and to no other service; the record is consumed, so that a
  second answer with the same token reaches nobody.
\<close>

theorem response_reaches_its_sender:
  assumes "wl_inv (cx_wait cx)" and "md_tok md \<noteq> TOKEN_INVALID"
    and "svc = to_int32 (uint dest)" and "FindService cx svc = Some s" and "svc \<noteq> -1"
    and "FindService cx (-1) = None"
    and "mdh_IsSolicitedResponse md'" and "md_tok md' = md_tok md"
  shows "let cx1 = cx_Send md dest res True cx;
             cx2 = snd (cx_SendModemData e a md' cx1)
         in FindService cx2 svc =
              Some (sv_post e a (sv_alloc a (msg_ObtainResponse md' svc (to_int32 (uint res))) s)) \<and>
            (\<forall>k. k = svc \<or> FindService cx2 k = FindService cx k) \<and>
            \<not> IsInRequestWaitHistory (md_tok md) cx2 \<and> cx_SendModemData e b md' cx2 = (0, cx2)"
proof -
  let ?r = "hr_newInstance dest dest (md_tok md) res"
  let ?w = "wl_Push ?r (cx_wait cx)"
  define cx1 where "cx1 = cx_Send md dest res True cx"
  have r: "hr_IsValid ?r" "hr_token ?r = md_tok md" "hr_dest ?r = dest" "hr_result ?r = res"
    using assms(2) by (simp_all add: hr_newInstance_def hr_IsValid_def)
  have w: "cx_wait cx1 = ?w" "wl_inv ?w"
    using assms(1,2) by (simp_all add: cx1_def cx_Send_wait ril_inv)
  have f: "wl_Find (md_tok md') (cx_wait cx1) = ?r"
    using wlr.find_after_push [OF assms(1) r(1)] r(2) w assms(8) by simp
  have gone: "\<not> hr_IsValid (wl_Find (md_tok md') (wl_Remove (md_tok md') ?w))"
    using wlr.consumed_once [OF w(2)] .
  have again: "wl_Remove (md_tok md') (wl_Remove (md_tok md') ?w) = wl_Remove (md_tok md') ?w"
    using wl_Find_valid_iff [OF wl_Remove_inv [OF w(2)]] gone
    by (simp add: wl_Remove_def [of _ "wl_Remove _ _"] wl_Contains_def)
  have svc: "FindService cx1 k = FindService cx k" for k by (simp add: cx1_def FindService_def)
  define cx2 where "cx2 = cx_put svc
    (sv_post e a (sv_alloc a (msg_ObtainResponse md' svc (to_int32 (uint res))) s))
    (RemoveRequestHistory (md_tok md') cx1)"
  have s: "FindService (RemoveRequestHistory t c) k = FindService c k" for t c k
    by (simp add: FindService_def RemoveRequestHistory_def)
  have 2: "snd (cx_SendModemData e a md' cx1) = cx2"
    using assms(3,4,7) f r svc
    by (simp add: cx_SendModemData_def Let_def mgr_SendMessage_def s cx2_def msg_ObtainResponse_def)
  have wait2: "cx_wait cx2 = wl_Remove (md_tok md') ?w"
    by (simp add: cx2_def cx_put_def RemoveRequestHistory_def w)
  have same: "RemoveRequestHistory (md_tok md') cx2 = cx2"
    using wait2 again by (simp add: RemoveRequestHistory_def)
  have none: "FindService cx2 (-1) = None" using assms(5,6) svc by (auto simp: cx2_def s)
  have "cx_SendModemData e b md' cx2 = (0, cx2)"
    using assms(7) gone wait2 none
    by (simp add: cx_SendModemData_def Let_def mgr_SendMessage_def same msg_ObtainResponse_def)
  moreover have "FindService cx2 svc =
      Some (sv_post e a (sv_alloc a (msg_ObtainResponse md' svc (to_int32 (uint res))) s))"
    "\<forall>k. k = svc \<or> FindService cx2 k = FindService cx k"
    by (simp_all add: cx2_def s svc)
  moreover have "\<not> IsInRequestWaitHistory (md_tok md) cx2"
    using gone wait2 assms(8) by (simp add: IsInRequestWaitHistory_def)
  ultimately show ?thesis unfolding cx1_def [symmetric] Let_def 2 by blast
qed

definition demo_ctx :: rilctx where
  "demo_ctx = cx_put 9 demo_sent (cx_put 3 demo_boot (cx_new [] [(10203, 9, 9007)] [] s_AsyncMsgMap))"

theorem response_reaches_its_sender_witness:
  "\<not> IsInRequestWaitHistory 77 (snd (cx_SendModemData demo_env 2 (demo_md\<lparr>md_type := 1\<rparr>)
     (cx_Send demo_md 9 9008 True demo_ctx)))"
proof -
  have w: "wl_inv (cx_wait demo_ctx)"
    by (simp add: demo_ctx_def cx_put_def cx_new_def wl_new_inv)
  have f: "FindService demo_ctx 9 = Some demo_sent" "FindService demo_ctx (-1) = None"
    by (simp_all add: demo_ctx_def) (simp add: FindService_def cx_new_def)
  have m: "md_tok demo_md \<noteq> TOKEN_INVALID" "md_tok demo_md = 77"
    "mdh_IsSolicitedResponse (demo_md\<lparr>md_type := 1\<rparr>)" "md_tok (demo_md\<lparr>md_type := 1\<rparr>) = md_tok demo_md"
    by (simp_all add: demo_md_def TOKEN_INVALID_def mdh_IsSolicitedResponse_def RCM_TYPE_RESPONSE_def)
  have svc: "9 = to_int32 (uint (9 :: u32))" by (simp add: to_int32_def)
  show ?thesis
    using response_reaches_its_sender [OF w m(1) svc f(1) _ f(2) m(3,4), where res = 9008 and e = demo_env
        and a = 2] m(2)
    by (simp add: Let_def)
qed

text \<open>
  A request that could not be written to the channel leaves no record behind: its token is
  unknown afterwards and every other record is as before.
\<close>

theorem failed_send_forgets_request:
  assumes "wl_inv (cx_wait cx)"
  shows "let cx' = cx_Send md dest res False cx in
    wl_inv (cx_wait cx') \<and> \<not> IsInRequestWaitHistory (md_tok md) cx' \<and>
    (\<forall>t. t = md_tok md \<or> wl_Find t (cx_wait cx') = wl_Find t (cx_wait cx)) \<and>
    cx_services cx' = cx_services cx \<and> cx_app cx' = cx_app cx @ [ChannelWrite md False]"
proof -
  let ?w = "if md_tok md = TOKEN_INVALID then cx_wait cx
    else wl_Push (hr_newInstance dest dest (md_tok md) res) (cx_wait cx)"
  have i: "wl_inv ?w" using assms by (simp add: ril_inv)
  have v: "md_tok md \<noteq> TOKEN_INVALID \<Longrightarrow> hr_IsValid (hr_newInstance dest dest (md_tok md) res) \<and>
      hr_token (hr_newInstance dest dest (md_tok md) res) = md_tok md"
    by (simp add: hr_newInstance_def hr_IsValid_def)
  have others: "\<forall>t. t = md_tok md \<or> wl_Find t (wl_Remove (md_tok md) ?w) = wl_Find t (cx_wait cx)"
    using wlr.find_remove [OF i] wlr.find_push [OF assms] v by auto
  have w: "cx_wait (cx_Send md dest res False cx) = wl_Remove (md_tok md) ?w"
    by (simp add: cx_Send_wait)
  have app: "cx_app (cx_Send md dest res False cx) = cx_app cx @ [ChannelWrite md False]"
    by (simp add: cx_Send_def cx_emit_def RecordRequestHistory_def RemoveRequestHistory_def Let_def)
  show ?thesis
    using others wl_Remove_inv [OF i] wlr.consumed_once [OF i] app w
    unfolding Let_def IsInRequestWaitHistory_def w by simp
qed

theorem failed_send_forgets_request_witness:
  "\<not> IsInRequestWaitHistory 77 (cx_Send demo_md 9 9008 False demo_ctx)"
proof -
  have w: "wl_inv (cx_wait demo_ctx)"
    by (simp add: demo_ctx_def cx_put_def cx_new_def wl_new_inv)
  show ?thesis
    using failed_send_forgets_request [OF w, of demo_md 9 9008] by (simp add: Let_def demo_md_def)
qed

text \<open>
  A broadcast reaches every service exactly once: each gets one more internal message, a fresh copy
  that carries its own id, at the end of its queue, and one wake-up for it.
\<close>

theorem broadcast_reaches_every_service:
  assumes "FindService cx k = Some s" and "sv_heap s a = None" and "sv_pipe s = Some p" and "e_pipe e"
  shows "FindService (BroadcastSystemMessage e a mid d cx) k =
    Some (s\<lparr>sv_heap := (sv_heap s)(a \<mapsto> (msg_ObtainSystem mid d)\<lparr>m_nSvcId := k\<rparr>),
            sv_intQ := sv_intQ s @ [a], sv_pipe := Some (p @ [INTERNAL])\<rparr>)"
proof -
  have c: "msg_Clone (msg_ObtainSystem mid d) = msg_ObtainSystem mid d"
    by (simp add: msg_Clone_def msg_ObtainSystem_def msg_SetUserData_def msg_new_def)
  have dir: "m_nDirection (msg_ObtainSystem mid d) = INTERNAL"
    by (simp add: msg_ObtainSystem_def msg_SetUserData_def)
  have "FindService (BroadcastSystemMessage e a mid d cx) k =
      Some (mgr_enqueue_copy e a (msg_ObtainSystem mid d) k s)"
    using assms(1)
    by (simp add: BroadcastSystemMessage_def mgr_BroadcastMessage_def FindService_def sm_find_map)
  also have "mgr_enqueue_copy e a (msg_ObtainSystem mid d) k s =
      s\<lparr>sv_heap := (sv_heap s)(a \<mapsto> (msg_ObtainSystem mid d)\<lparr>m_nSvcId := k\<rparr>),
        sv_intQ := sv_intQ s @ [a], sv_pipe := Some (p @ [INTERNAL])\<rparr>"
    using assms(3,4) dir
    by (simp add: mgr_enqueue_copy_def c sv_EnQueue_def sv_alloc_def sv_touch_def sv_deref_def
        sv_post_notify_def sv_NotifyNewMessage_def Let_def)
  finally show ?thesis .
qed

theorem broadcast_reaches_every_service_witness:
  "(\<exists>s. FindService (BroadcastSystemMessage demo_env 5 MSG_SYSTEM_RESET None demo_ctx) 3 = Some s \<and>
     sv_intQ s = [5])"
proof -
  have st: "FindService demo_ctx 3 = Some demo_boot" by (simp add: demo_ctx_def)
  have b: "sv_heap demo_boot 5 = None" "sv_pipe demo_boot = Some []" "sv_intQ demo_boot = []"
    by code_simp+
  have e: "e_pipe demo_env" by (simp add: demo_env_def)
  show ?thesis
    using broadcast_reaches_every_service [OF st b(1,2) e, of MSG_SYSTEM_RESET None] b(3) by simp
qed

text \<open>
  C15. Every request of the framework is either answered at once with
  \<^verbatim>\<open>REQUEST_NOT_SUPPORTED\<close>, exactly once, or posted to the one service its route names
  and to no other, in the asynchronous queue exactly when its message is in the asynchronous table.
  When the route names a service that was never added, the answer uses the request after it was
  freed with its message.
\<close>

theorem request_routed_or_refused:
  assumes "0 \<le> rid" and "e_pipe e"
  shows "let cx' = cx_OnRequest e a rid tok rq cx; refused = cx_app cx @ [AppComplete tok RIL_E_REQUEST_NOT_SUPPORTED] in
    case rq of
      None \<Rightarrow> cx' = cx\<lparr>cx_app := refused\<rparr>
    | Some r \<Rightarrow>
       (case RouteRequest cx r of (rc, svc, mid) \<Rightarrow>
          if rc < 0 then cx' = cx\<lparr>cx_app := refused\<rparr>
          else (case FindService cx svc of
            None \<Rightarrow> cx_fault cx' \<and> cx_services cx' = cx_services cx \<and>
                    cx_app cx' = cx_app cx @ [AppComplete (rq_token r) RIL_E_REQUEST_NOT_SUPPORTED]
          | Some s \<Rightarrow> cx_app cx' = cx_app cx \<and> cx_fault cx' = cx_fault cx \<and>
              (\<forall>k. k = svc \<or> FindService cx' k = FindService cx k) \<and>
              (case FindService cx' svc of None \<Rightarrow> False | Some s' \<Rightarrow>
                 sv_reqQ s' = sv_reqQ s @ (if IsAsyncMessage cx svc mid then [] else [a]) \<and>
                 sv_asyncQ s' = sv_asyncQ s @ (if IsAsyncMessage cx svc mid then [a] else []))))"
proof (cases rq)
  case None
  then show ?thesis using assms by (simp add: cx_OnRequest_def cx_SendRequestData_def cx_emit_def)
next
  case (Some r)
  obtain rc svc mid where rt: "RouteRequest cx r = (rc, svc, mid)" by (metis prod_cases3)
  show ?thesis
  proof (cases "rc < 0")
    case True
    then show ?thesis
      using assms Some rt by (simp add: cx_OnRequest_def cx_SendRequestData_def cx_emit_def)
  next
    case False
    let ?m = "if IsAsyncMessage cx svc mid
      then (msg_ObtainRequest r svc mid)\<lparr>m_nDirection := ASYNC_REQUEST, m_nAsyncMsgReqStatus := ASYNC_INITIATED\<rparr>
      else msg_ObtainRequest r svc mid"
    show ?thesis
    proof (cases "FindService cx svc")
      case None
      then show ?thesis
        using assms(1) Some rt False
        by (simp add: cx_OnRequest_def cx_SendRequestData_def mgr_SendMessage_def msg_ObtainRequest_def
            cx_OnRequestComplete_def cx_emit_def Let_def)
    next
      case s: (Some s)
      have svc: "m_nSvcId ?m = svc" by (simp add: msg_ObtainRequest_def)
      have dir: "m_nDirection ?m = (if IsAsyncMessage cx svc mid then ASYNC_REQUEST else REQUEST)"
        by (simp add: msg_ObtainRequest_def)
      have pre: "sv_AsyncMsgReqPreProcessing (Some a) (sv_alloc a ?m s) = sv_alloc a ?m s"
        using dir by (simp add: sv_AsyncMsgReqPreProcessing_def sv_touch_def sv_deref_def sv_alloc_def)
      have q: "sv_reqQ (sv_post e a (sv_alloc a ?m s)) =
          sv_reqQ s @ (if IsAsyncMessage cx svc mid then [] else [a]) \<and>
        sv_asyncQ (sv_post e a (sv_alloc a ?m s)) =
          sv_asyncQ s @ (if IsAsyncMessage cx svc mid then [a] else [])"
        using dir unfolding sv_post_def sv_post_queue_def pre
        by (cases "sv_pipe s") (simp_all add: sv_EnQueue_def sv_touch_def sv_deref_def sv_alloc_def
            sv_post_notify_def sv_NotifyNewMessage_def Let_def split: if_splits)
      have "cx_OnRequest e a rid tok rq cx = cx_put svc (sv_post e a (sv_alloc a ?m s)) cx"
        using assms(1) Some rt False s svc
        by (simp add: cx_OnRequest_def cx_SendRequestData_def mgr_SendMessage_def Let_def)
      then show ?thesis
        using Some rt False s q by (simp add: Let_def) (simp add: cx_put_def)
    qed
  qed
qed

theorem request_routed_or_refused_witness:
  "cx_app (cx_OnRequest demo_env 4 10999 5 (Some \<lparr>rq_id = 10999, rq_token = 5, rq_raw = None\<rparr>) demo_ctx) =
     [AppComplete 5 RIL_E_REQUEST_NOT_SUPPORTED]"
proof -
  let ?r = "\<lparr>rq_id = 10999, rq_token = 5, rq_raw = None\<rparr> :: request_data"
  have rt: "RouteRequest demo_ctx ?r = (-1, -1, 0)" and a: "cx_app demo_ctx = []"
    by (simp_all add: demo_ctx_def cx_put_def cx_new_def RouteRequest_def RIL_REQUEST_OEM_HOOK_RAW_def
        RIL_OEM_REQUEST_BASE_def route_of_def route_ok_def)
  have e: "e_pipe demo_env" by (simp add: demo_env_def)
  show ?thesis
    using request_routed_or_refused [of 10999 demo_env 4 5 "Some ?r" demo_ctx] rt a e
    by (simp add: Let_def)
qed

text \<open>
  Postponing a request never tells the context to forget its token, although the code asks for it:
  the modem data is dropped before its token is read, so the token it reads is always the invalid one.
  The record stays in the wait list until the modem answers.
\<close>

theorem postpone_keeps_stale_record:
  "sv_out (sv_PostponeRequestMessage e ms s) = sv_out s"
proof -
  have n: "sv_out (sv_NotifyNextRequestMessage e t) = sv_out t" for t
    by (simp add: sv_NotifyNextRequestMessage_def sv_NotifyNewMessage_def sv_delete_def sv_fault_def
        Let_def split: option.split)
  have t: "msg_GetToken (sv_deref a (sv_update a (\<lambda>m. (msg_SetModemData None m)\<lparr>m_nTimeout := 0\<rparr>) t))
      = TOKEN_INVALID" for a t
    by (simp add: sv_update_def sv_deref_def sv_fault_def msg_GetToken_def msg_SetModemData_def
        msg_default_def split: option.split)
  show ?thesis
    by (simp add: sv_PostponeRequestMessage_def n t sv_rearm_def Let_def split: option.split)
qed

lemma call_flags_None_iff:
  "call_flags cs fs = None \<longleftrightarrow> (\<exists>(cid, act)\<in>set cs. cid < 0 \<or> int (length fs) \<le> cid)"
proof (induction cs arbitrary: fs)
  case (Cons c cs)
  obtain cid act where c: "c = (cid, act)" by force
  show ?case
  proof (cases "cid < 0 \<or> int (length fs) \<le> cid")
    case True
    then show ?thesis by (auto simp: c arr_set_def)
  next
    case False
    then have "nat cid < length fs" by auto
    then show ?thesis using Cons.IH [of "fs[nat cid := act]"] False by (auto simp: c arr_set_def)
  qed
qed simp

lemma call_flags_length: "call_flags cs fs = Some fs' \<Longrightarrow> length fs' = length fs"
  by (induction cs arbitrary: fs)
    (auto simp: arr_set_def split: if_splits bind_splits)

lemma call_broadcast_flags:
  assumes "length fs = length (cx_calls cx)" and "\<forall>i\<in>set is. i < length fs"
  shows "length (cx_calls (call_broadcast e al fs is cx)) = length fs \<and>
    (\<forall>i<length fs. cx_calls (call_broadcast e al fs is cx) ! i =
       (if i \<in> set is then fs ! i else cx_calls cx ! i))"
  using assms
proof (induction "is" arbitrary: cx)
  case (Cons j js)
  let ?t = "BroadcastSystemMessage e (al j) MSG_SYSTEM_DATA_CALL_STATE_CHANGED
                (Some (RilDataInts [int j, if fs ! j then 1 else 0]))
                (cx\<lparr>cx_calls := (cx_calls cx)[j := fs ! j]\<rparr>)"
  have c: "cx_calls ?t = (cx_calls cx)[j := fs ! j]"
    by (simp add: BroadcastSystemMessage_def mgr_BroadcastMessage_def)
  show ?case
  proof (cases "cx_calls cx ! j \<noteq> fs ! j")
    case True
    have "length fs = length (cx_calls ?t)" using c Cons.prems(1) by simp
    from Cons.IH [OF this] show ?thesis using True c Cons.prems by (auto simp: nth_list_update)
  next
    case False
    then show ?thesis using Cons.IH [OF Cons.prems(1)] Cons.prems by auto
  qed
qed simp

text \<open>
  A data call list is processed inside its array of flags exactly when every connection id lies
  between 0 and 8; then the flags 1 to 8 become the last reported state of each connection (inactive
  when it is not in the list).
\<close>

theorem data_call_list_bounds:
  assumes "length (cx_calls cx) = 9"
  shows "(cx_DataCallListChanged e al calls cx = None \<longleftrightarrow> (\<exists>(cid, act)\<in>set calls. cid < 0 \<or> 8 < cid)) \<and>
    (\<forall>fs cx'. call_flags calls (replicate 9 False) = Some fs \<and>
       cx_DataCallListChanged e al calls cx = Some cx' \<longrightarrow>
       (\<forall>i. 1 \<le> i \<and> i < 9 \<longrightarrow> cx_calls cx' ! i = fs ! i))"
proof
  have "call_flags calls (replicate 9 False) = None \<longleftrightarrow>
      (\<exists>(cid, act)\<in>set calls. cid < 0 \<or> 9 \<le> cid)"
    by (simp add: call_flags_None_iff)
  also have "\<dots> \<longleftrightarrow> (\<exists>(cid, act)\<in>set calls. cid < 0 \<or> 8 < cid)" by (rule bex_cong) auto
  finally show "cx_DataCallListChanged e al calls cx = None \<longleftrightarrow>
      (\<exists>(cid, act)\<in>set calls. cid < 0 \<or> 8 < cid)"
    by (cases "call_flags calls (replicate 9 False)") (simp_all add: cx_DataCallListChanged_def)
  show "\<forall>fs cx'. call_flags calls (replicate 9 False) = Some fs \<and>
       cx_DataCallListChanged e al calls cx = Some cx' \<longrightarrow>
       (\<forall>i. 1 \<le> i \<and> i < 9 \<longrightarrow> cx_calls cx' ! i = fs ! i)"
  proof (intro allI impI)
    fix fs cx' i
    assume a: "call_flags calls (replicate 9 False) = Some fs \<and>
       cx_DataCallListChanged e al calls cx = Some cx'" and i: "1 \<le> i \<and> i < (9 :: nat)"
    then have "length fs = 9" using call_flags_length [of calls "replicate 9 False" fs] by simp
    then show "cx_calls cx' ! i = fs ! i"
      using a i assms call_broadcast_flags [of fs cx "[1..<9]" e al]
      by (auto simp: cx_DataCallListChanged_def)
  qed
qed

theorem data_call_list_bounds_witness:
  "cx_DataCallListChanged demo_env (\<lambda>i. i + 10) [(9, True)] demo_ctx = None"
proof -
  have "length (cx_calls demo_ctx) = 9" by (simp add: demo_ctx_def cx_put_def cx_new_def)
  from data_call_list_bounds [OF this, of demo_env "\<lambda>i. i + 10" "[(9, True)]"] show ?thesis by simp
qed

end
