(* ===== verification/Service_Refinement.thy ===== *)
theory Service_Refinement
  imports Async_Requests "HOL-Library.Sublist"
begin

text \<open>
  The contract of a service, and that the detailed model refines it: a server that takes requests and
  answers each of them once, in any order.  Queues, tokens, timers, the heap, the radio state and the
  code of the derived class are not visible in the abstract server.
\<close>

section \<open>The abstract server\<close>

text \<open>The requests that are open and the answers that were given.\<close>

type_synonym server = "request_data multiset \<times> request_data multiset"

inductive server_step :: "server \<Rightarrow> server \<Rightarrow> bool" where
  Accept: "server_step (opened, done') (add_mset r opened, done')"
| Answer: "r \<in># opened \<Longrightarrow> server_step (opened, done') (opened - {#r#}, add_mset r done')"

inductive_simps server_step_simps: "server_step (op, dn) (op', dn')"

definition server_of :: "service \<Rightarrow> server" where
  "server_of s = (outstanding s, answers s)"

text \<open>A server that answered more, and owns the rest of what it owned, got there by answering.\<close>

lemma answer_many:
  "server_step\<^sup>*\<^sup>* (opened + m, dn) (opened, dn + m)"
proof (induction m arbitrary: dn)
  case (add r m)
  have "server_step (opened + add_mset r m, dn) (opened + m, add_mset r dn)"
    using Answer [of r "opened + add_mset r m" dn] by simp
  with add.IH [of "add_mset r dn"] show ?case by (simp add: converse_rtranclp_into_rtranclp)
qed simp

lemma answers_only:
  assumes "op + dn = op' + dn'" and "dn \<subseteq># dn'"
  shows "server_step\<^sup>*\<^sup>* (op, dn) (op', dn')"
proof -
  define m where "m = dn' - dn"
  have dn': "dn' = dn + m" using assms(2) by (simp add: m_def)
  then have "op = op' + m" using assms(1) by (simp add: ac_simps)
  then show ?thesis using answer_many [of op' m dn] dn' by simp
qed

lemma accept_and_answer:
  assumes "add_mset r (op + dn) = op' + dn'" and "dn \<subseteq># dn'"
  shows "server_step\<^sup>*\<^sup>* (op, dn) (op', dn')"
proof -
  have "server_step\<^sup>*\<^sup>* (add_mset r op, dn) (op', dn')"
    using assms by (intro answers_only) simp_all
  with server_step.Accept [of op dn r] show ?thesis by (rule converse_rtranclp_into_rtranclp)
qed

section \<open>Answers are never taken back\<close>

text \<open>
  Every operation only appends to the outputs.  The rules are conditional rewrite rules, so that the
  simplifier walks through the composition of an operation from the outside in.
\<close>

named_theorems grows \<open>the outputs of an operation extend those before it\<close>

abbreviation since :: "out_event list \<Rightarrow> service \<Rightarrow> bool" where
  "since xs s \<equiv> prefix xs (sv_out s)"

lemma since_emit [grows]: "since xs s \<Longrightarrow> since xs (sv_emit ev s)"
  by (simp add: sv_emit_def prefix_order.trans)

lemma since_basic [grows]:
  "since xs s \<Longrightarrow> since xs (sv_fault s)"
  "since xs s \<Longrightarrow> since xs (sv_touch a s)"
  "since xs s \<Longrightarrow> since xs (sv_update a f s)"
  "since xs s \<Longrightarrow> since xs (sv_delete a s)"
  "since xs s \<Longrightarrow> since xs (sv_touch_opt pm s)"
  "since xs s \<Longrightarrow> since xs (sv_rearm e a ms s)"
  by (simp_all add: sv_fault_def sv_touch_def sv_update_def sv_delete_def sv_touch_opt_def
      sv_rearm_def split: option.split)

lemma since_emitting [grows]:
  "since xs s \<Longrightarrow> since xs (sv_ctx_emit ev s)"
  "since xs s \<Longrightarrow> since xs (sv_complete rq res s)"
  by (simp_all add: sv_ctx_emit_def sv_complete_def grows split: option.split)

lemma since_queue [grows]:
  "since xs s \<Longrightarrow> since xs (snd (sv_NotifyNewMessage e d s))"
  "since xs s \<Longrightarrow> since xs (snd (sv_EnQueue pm s))"
  "since xs s \<Longrightarrow> since xs (snd (sv_reqDeQ s))"
  "since xs s \<Longrightarrow> since xs (snd (sv_respDeQ s))"
  "since xs s \<Longrightarrow> since xs (snd (sv_internalDeQ s))"
  "since xs s \<Longrightarrow> since xs (snd (sv_OpenMessagePipe e s))"
  by (simp_all add: sv_NotifyNewMessage_def sv_EnQueue_def sv_reqDeQ_def sv_respDeQ_def
      sv_internalDeQ_def sv_OpenMessagePipe_def grows Let_def split: option.split direction.split list.split)

lemma since_next [grows]: "since xs s \<Longrightarrow> since xs (sv_NotifyNextRequestMessage e s)"
  by (auto simp: sv_NotifyNextRequestMessage_def grows Let_def intro!: grows split: option.split)

lemma since_timeouts [grows]:
  "since xs s \<Longrightarrow> since xs (sv_PostponeRequestMessage e ms s)"
  "since xs s \<Longrightarrow> since xs (sv_StartRequestTimeout e s)"
  "since xs s \<Longrightarrow> since xs (snd (sv_SetRequestTimeout t s))"
  by (auto simp: sv_PostponeRequestMessage_def sv_StartRequestTimeout_def sv_SetRequestTimeout_def
      Let_def intro!: grows split: option.split)

lemma since_reset [grows]: "since xs s \<Longrightarrow> since xs (snd (sv_ResetRequestTimeout e t s))"
  using since_timeouts(3) [of xs s t]
  by (auto simp: sv_ResetRequestTimeout_def intro!: grows split: prod.split)

lemma since_send [grows]:
  "since xs s \<Longrightarrow> since xs (snd (sv_SendRequest e md t res pm s))"
  "since xs s \<Longrightarrow> since xs (snd (sv_SendRequest_default e md t s))"
  "since xs s \<Longrightarrow> since xs (snd (sv_SendRequest_raw e md s))"
proof -
  show s: "since xs (snd (sv_SendRequest e md t res pm s))" if "since xs s" for res pm s
    using that by (auto simp: sv_SendRequest_def Let_def intro!: grows split: option.split)
  show "since xs s \<Longrightarrow> since xs (snd (sv_SendRequest_default e md t s))"
    by (auto simp: sv_SendRequest_default_def Let_def intro!: s grows split: option.split)
  show "since xs s \<Longrightarrow> since xs (snd (sv_SendRequest_raw e md s))"
    by (auto simp: sv_SendRequest_raw_def intro!: grows split: option.split)
qed

lemma since_if: "(b \<Longrightarrow> since xs s) \<Longrightarrow> (\<not> b \<Longrightarrow> since xs t) \<Longrightarrow> since xs (if b then s else t)"
  by simp

lemma since_upd:
  "since xs s \<Longrightarrow> since xs (s\<lparr>sv_curReqId := i\<rparr>)"
  "since xs s \<Longrightarrow> since xs (s\<lparr>sv_timers := ts\<rparr>)"
  "since xs s \<Longrightarrow> since xs (s\<lparr>sv_hist := h\<rparr>)"
  by simp_all

lemma since_complete [grows]:
  assumes "since xs s"
  shows "since xs (sv_OnRequestComplete e res pm s)"
proof -
  have t: "since xs (sv_touch_opt pm s)" using assms by (rule grows)
  show ?thesis
  proof (cases "sv_is_async pm (sv_touch_opt pm s)")
    case False
    then show ?thesis
      using t by (auto simp: sv_OnRequestComplete_def Let_def intro!: grows split: option.split)
  next
    case True
    then obtain a where pm: "pm = Some a" by (cases pm) (simp_all add: sv_is_async_def)
    show ?thesis
      using True t unfolding sv_OnRequestComplete_def pm Let_def
      by (cases "sv_hist (sv_touch_opt (Some a) s)")
        (simp_all add: grows split: option.split)
  qed
qed

lemma since_messages [grows]:
  "since xs s \<Longrightarrow> since xs (sv_OnUnsolicitedResponse u s)"
  "since xs s \<Longrightarrow> since xs (sv_OnRequestAck s)"
  by (auto simp: sv_OnUnsolicitedResponse_def sv_OnRequestAck_def Let_def intro!: grows split: option.split)

lemma since_api [grows]: "since xs s \<Longrightarrow> since xs (sv_api e pm x s)"
  by (cases x) (auto intro!: grows)

lemma since_script [grows]: "since xs s \<Longrightarrow> since xs (sv_script e pm ys s)"
  by (induction ys arbitrary: s) (simp_all add: grows)

lemma since_run [grows]: "since xs s \<Longrightarrow> since xs (snd (sv_run e h a s))"
  by (simp add: sv_run_def grows split: prod.split)

lemma since_notify [grows]: "since xs s \<Longrightarrow> since xs (sv_notify e H c s)"
  by (simp add: sv_notify_def grows)

lemma since_radio [grows]: "since xs s \<Longrightarrow> since xs (sv_SetRadioState e H st f s)"
  by (auto simp: sv_SetRadioState_def sv_SetRadioStateUnavailable_def Let_def intro!: grows)

lemma since_events [grows]:
  "since xs s \<Longrightarrow> since xs (sv_fail_current e pass s)"
  "since xs s \<Longrightarrow> since xs (sv_on_modem e H st s)"
  "since xs s \<Longrightarrow> since xs (sv_on_imsi e H m s)"
  by (auto simp: sv_fail_current_def sv_on_modem_def sv_on_imsi_def Let_def intro!: grows split: option.split)

lemma since_on_radio [grows]:
  assumes "since xs s"
  shows "since xs (sv_on_radio e H m s)"
proof -
  let ?p = "case m_pUserData m of
      Some d \<Rightarrow> (case ints_GetInt d 0 of
                   Some v \<Rightarrow> (v, s) | None \<Rightarrow> (RADIO_STATE_UNAVAILABLE, sv_fault s))
    | None \<Rightarrow> if sv_ctx s then (if e_uicc e = 0 then RADIO_STATE_OFF else e_radio e, s)
              else (RADIO_STATE_UNAVAILABLE, sv_fault s)"
  obtain st t where p: "?p = (st, t)" by force
  then have "since xs t" using assms by (auto simp: grows split: option.splits if_splits)
  then show ?thesis unfolding sv_on_radio_def p by (simp add: Let_def grows)
qed

lemma since_with_ints:
  "since xs s \<Longrightarrow> (\<And>v t. since xs t \<Longrightarrow> since xs (f v t)) \<Longrightarrow> since xs (sv_with_ints n m f s)"
  by (auto simp: sv_with_ints_def intro!: grows split: option.split)

lemma since_system [grows]:
  assumes "since xs s"
  shows "since xs (sv_system e H a m s)"
proof -
  note ints = since_with_ints [OF assms]
  have "since xs (sv_with_ints 2 m (\<lambda>v. sv_notify e H (OnSimStatusChanged (v 0) (v 1))) s)"
    "since xs (sv_with_ints 1 m (\<lambda>v s. sv_notify e H (OnVoiceRegistrationStateChanged (v 0))
       (s\<lparr>sv_voice := v 0\<rparr>)) s)"
    "since xs (sv_with_ints 1 m (\<lambda>v s. sv_notify e H (OnDataRegistrationStateChanged (v 0))
       (s\<lparr>sv_data := v 0\<rparr>)) s)"
    "since xs (sv_with_ints 2 m (\<lambda>v. sv_notify e H (OnDataCallStateChanged (v 0) (v 1 \<noteq> 0))) s)"
    "since xs (sv_with_ints 1 m (\<lambda>v. sv_on_modem e H (v 0)) s)"
    by (rule ints; simp add: grows)+
  then show ?thesis using assms by (simp add: sv_system_def Let_def grows)
qed

lemma since_handlers [grows]:
  "since xs s \<Longrightarrow> since xs (snd (sv_HandleRequest e H s))"
  "since xs s \<Longrightarrow> since xs (snd (sv_HandleResponse e H s))"
  "since xs s \<Longrightarrow> since xs (snd (sv_HandleInternalMessage e H s))"
proof -
  show "since xs s \<Longrightarrow> since xs (snd (sv_HandleRequest e H s))"
    by (auto simp: sv_HandleRequest_def sv_reqDeQ_def Let_def split_beta
        intro!: grows split: option.split list.split)
  show "since xs s \<Longrightarrow> since xs (snd (sv_HandleResponse e H s))"
    by (auto simp: sv_HandleResponse_def sv_respDeQ_def Let_def split_beta intro!: grows
        split: option.split list.split)
  show "since xs s \<Longrightarrow> since xs (snd (sv_HandleInternalMessage e H s))"
    by (auto simp: sv_HandleInternalMessage_def sv_internalDeQ_def Let_def intro!: grows
        split: option.split list.split)
qed

lemma since_timeout [grows]:
  "since xs s \<Longrightarrow> since xs (sv_CheckCountsForTimeOut pmd s)"
  "since xs s \<Longrightarrow> since xs (sv_HandleRequestTimeout e H s)"
proof -
  show c: "since xs (sv_CheckCountsForTimeOut pmd s)" if "since xs s" for pmd s
    using that by (auto simp: sv_CheckCountsForTimeOut_def Let_def intro!: grows split: option.split)
  show "since xs s \<Longrightarrow> since xs (sv_HandleRequestTimeout e H s)"
    by (auto simp: sv_HandleRequestTimeout_def Let_def split_beta intro!: grows c
        split: option.split)
qed

lemma since_turn:
  assumes "sv_asyncQ s = []"
  shows "since (sv_out s) (mon_turn e H w s)"
proof -
  have "since (sv_out s) (mon_dispatch e H d (s\<lparr>sv_pipe := q\<rparr>))" for d q
    using assms
    by (cases d) (simp_all add: mon_dispatch_def grows sv_HandleAsycMsgRequest_def sv_asycMsgReqDeQ_def)
  then show ?thesis
    by (auto simp: mon_turn_def grows split: wakeup.split option.split list.split)
qed

lemma since_post: "since (sv_out s) (sv_post e a (sv_alloc a m s))"
proof -
  have "since xs s \<Longrightarrow> since xs (sv_AsyncMsgReqPreProcessing pm s)" for xs pm s
    by (auto simp: sv_AsyncMsgReqPreProcessing_def sv_AsyncMsgReqDeleteTimer_def Let_def
        intro!: grows split: option.split)
  then have "since (sv_out s) (sv_AsyncMsgReqPreProcessing (Some a) (sv_alloc a m s))"
    by (simp add: sv_alloc_def)
  then show ?thesis by (simp add: sv_post_def sv_post_queue_def sv_post_notify_def grows)
qed

lemma since_answers: "since (sv_out s) t \<Longrightarrow> answers s \<subseteq># answers t"
  by (auto simp: prefix_def answers_def)

section \<open>The refinement\<close>

lemma step_refines:
  assumes "svc_step H c c'" and "derived_service H" and "good c"
  shows "server_step\<^sup>*\<^sup>* (server_of (fst c)) (server_of (fst c'))"
proof -
  have g: "good c'" using assms by (rule step_good)
  have led: "outstanding (fst d) + answers (fst d) = snd d" if "good d" for d
    using that by (simp add: good_def ledger_def)
  have mono: "answers (fst c) \<subseteq># answers (fst c')"
  proof -
    have "sv_asyncQ (fst c) = []" using assms(3) by (simp add: good_def inv_def)
    then have "since (sv_out (fst c)) (fst c')"
      using assms(1) by (auto elim!: svc_step.cases simp: since_post since_turn)
    then show ?thesis by (rule since_answers)
  qed
  consider r where "snd c' = add_mset r (snd c)" | "snd c' = snd c"
    using assms(1) by (auto elim!: svc_step.cases)
  then show ?thesis
  proof cases
    case 1
    then show ?thesis
      using accept_and_answer [of r "outstanding (fst c)" "answers (fst c)"] led [OF g] led [OF assms(3)] mono
      by (simp add: server_of_def)
  next
    case 2
    then show ?thesis
      using answers_only led [OF g] led [OF assms(3)] mono by (simp add: server_of_def)
  qed
qed

lemma reach_refines:
  assumes "svc_reach H c" and "derived_service H"
  shows "server_step\<^sup>*\<^sup>* ({#}, {#}) (server_of (fst c))"
  using assms
proof (induction rule: svc_reach.induct)
  case (Boot e sid)
  then have "good (sv_boot e sid, {#})" by (intro good_boot) simp_all
  then show ?case by (simp add: good_def ledger_def server_of_def)
next
  case (Step c c')
  then show ?case using step_refines [OF Step.hyps(2)] reach_good [OF Step.hyps(1)] by (meson rtranclp_trans)
qed



end
