(* ===== verification/Gsm_Text.thy ===== *)
theory Gsm_Text
  imports Ril_Prelude
begin

text \<open>
  The text conversions of \<^verbatim>\<open>sitril/util/util.cpp\<close>: packing of GSM 7 bit septets into
  octets and back, the GSM default alphabet, UCS2 and UTF-8, the data coding schemes of
  unstructured supplementary services (USSD), and the USSD builder of
  \<^verbatim>\<open>protocolcallbuilder.cpp\<close> that composes them.

  Buffers are lists of their full size; an access outside is \<open>None\<close>.  Source pointers are the
  memory that may be read, with the number of valid elements as a separate argument.
\<close>

section \<open>Packing septets into octets\<close>

text \<open>
  The loop of \<^verbatim>\<open>packing_gsm7bit\<close>, with source and destination index.  Every eighth
  septet is skipped because it travels in the high bits of the octet before.
\<close>

function pack_loop :: "u8 list \<Rightarrow> nat \<Rightarrow> nat \<Rightarrow> nat \<Rightarrow> u8 list \<Rightarrow> (nat \<times> u8 list) option" where
  "pack_loop src n si di dest =
     (if si < n then do {
        let si = (if si mod 8 = 7 then si + 1 else si);
        let shift = si mod 8;
        x \<leftarrow> arr_get src si;
        dest \<leftarrow> arr_set dest di (drop_bit shift x);
        dest \<leftarrow> (if si + 1 < n then do {
                    y \<leftarrow> arr_get src (si + 1);
                    arr_set dest di (dest ! di OR push_bit (7 - shift) y) }
                  else Some dest);
        pack_loop src n (si + 1) (di + 1) dest }
      else Some (di, dest))"
  by pat_completeness auto
termination by (relation "measure (\<lambda>(src, n, si, di, dest). n - si)") auto

declare pack_loop.simps [simp del]

definition packing_gsm7bit :: "u8 list \<Rightarrow> nat \<Rightarrow> u8 list \<Rightarrow> (nat \<times> u8 list) option" where
  "packing_gsm7bit src n dest = do {
     (di, dest) \<leftarrow> pack_loop src n 0 0 dest;
     dest \<leftarrow> (if n mod 8 = 7 then do { x \<leftarrow> arr_get dest (di - 1); arr_set dest (di - 1) (x OR 0x1A) }
               else Some dest);
     Some (if n mod 8 = 0 then n * 7 div 8 else n * 7 div 8 + 1, dest) }"

text \<open>The loop of \<^verbatim>\<open>unpacking_gsm7bit\<close>.\<close>

function unpack_loop :: "u8 list \<Rightarrow> nat \<Rightarrow> nat \<Rightarrow> nat \<Rightarrow> u8 list \<Rightarrow> (nat \<times> u8 list) option" where
  "unpack_loop src n si di dest =
     (if si < n then do {
        let shift = si mod 7;
        x \<leftarrow> arr_get src si;
        y \<leftarrow> arr_get dest di;
        dest \<leftarrow> arr_set dest di (y OR (push_bit shift x AND 0x7F));
        dest \<leftarrow> arr_set dest (di + 1) (drop_bit (7 - shift) x);
        unpack_loop src n (si + 1) (if 7 - shift = 1 then di + 2 else di + 1) dest }
      else Some (di, dest))"
  by pat_completeness auto
termination by (relation "measure (\<lambda>(src, n, si, di, dest). n - si)") auto

declare unpack_loop.simps [simp del]

definition unpacking_gsm7bit :: "u8 list \<Rightarrow> nat \<Rightarrow> u8 list \<Rightarrow> (nat \<times> u8 list) option" where
  "unpacking_gsm7bit src n dest = unpack_loop src n 0 0 dest"

section \<open>Reference: streams of bits\<close>

text \<open>
  3GPP TS 23.038 packs septets by writing their seven bits one after another, least significant bit
  first, into the octets.
\<close>

definition septet_bit :: "u8 list \<Rightarrow> nat \<Rightarrow> bool" where
  "septet_bit xs p \<longleftrightarrow> p < 7 * length xs \<and> bit (xs ! (p div 7)) (p mod 7)"

definition octet_bit :: "u8 list \<Rightarrow> nat \<Rightarrow> bool" where
  "octet_bit bs p \<longleftrightarrow> p < 8 * length bs \<and> bit (bs ! (p div 8)) (p mod 8)"

text \<open>A septet: an octet below 128.\<close>

definition septet :: "u8 \<Rightarrow> bool" where
  "septet x \<longleftrightarrow> \<not> bit x 7"

lemma u8_bit_less: "bit (x :: u8) i \<Longrightarrow> i < 8"
  using bit_imp_le_length [of x i] by simp

lemma septet_high: "septet x \<Longrightarrow> bit x i \<Longrightarrow> i < 7"
  using u8_bit_less [of x i] by (cases "i = 7") (auto simp: septet_def)

section \<open>What the packing loop computes\<close>

text \<open>The index of the septet that octet \<open>d\<close> starts in, and the octet.\<close>

abbreviation pack_src :: "nat \<Rightarrow> nat" where
  "pack_src d \<equiv> d + d div 7"

definition pack_octet :: "u8 list \<Rightarrow> nat \<Rightarrow> nat \<Rightarrow> u8" where
  "pack_octet src n d =
     drop_bit (d mod 7) (src ! pack_src d) OR
     (if pack_src d + 1 < n then push_bit (7 - d mod 7) (src ! (pack_src d + 1)) else 0)"

lemma div_mod_split: obtains q r where "d = 7 * q + r" "r < (7 :: nat)"
proof
  show "d = 7 * (d div 7) + d mod 7" by simp
  show "d mod 7 < 7" by simp
qed

lemma pack_src_eq: "r < 7 \<Longrightarrow> pack_src (7 * q + r) = 8 * q + r"
  by simp

lemma pack_src_mod: "pack_src d mod 8 = d mod 7"
proof -
  obtain q r where d: "d = 7 * q + r" "r < 7" by (rule div_mod_split)
  show ?thesis unfolding d(1) pack_src_eq [OF d(2)] using d(2) by simp
qed

lemma pack_src_Suc:
  "pack_src (Suc d) = (if (pack_src d + 1) mod 8 = 7 then pack_src d + 2 else pack_src d + 1)"
proof -
  obtain q r where d: "d = 7 * q + r" "r < 7" by (rule div_mod_split)
  show ?thesis
  proof (cases "r = 6")
    case True
    then have "Suc d = 7 * (q + 1) + 0" using d by simp
    then have "pack_src (Suc d) = 8 * (q + 1) + 0" using pack_src_eq [of 0 "q + 1"] by simp
    moreover have "pack_src d = 8 * q + 6" using True d by simp
    moreover have "(8 * q + 6 + 1) mod 8 = (7 :: nat)" by simp
    ultimately show ?thesis by simp
  next
    case False
    then have r: "Suc r < 7" using d by simp
    then have "pack_src (Suc d) = 8 * q + Suc r" using pack_src_eq [OF r, of q] d by simp
    moreover have "pack_src d = 8 * q + r" using d by simp
    moreover have "(8 * q + r + 1) mod 8 \<noteq> 7" using r by simp
    ultimately show ?thesis by simp
  qed
qed

text \<open>The number of octets the loop writes.\<close>

definition pack_count :: "nat \<Rightarrow> nat" where
  "pack_count n = 7 * (n div 8) + n mod 8 + (if n mod 8 = 0 \<and> 0 < n then 1 else 0)"

lemma pack_count_Suc: "pack_src d + 1 < n \<longleftrightarrow> Suc d < pack_count n"
proof -
  obtain q r where d: "d = 7 * q + r" "r < 7" by (rule div_mod_split)
  define k t where "k = n div 8" and "t = n mod 8"
  have n: "n = 8 * k + t" "t < 8" by (simp_all add: k_def t_def)
  have "Suc (7 * q + r) < 7 * k + t + (if t = 0 \<and> 0 < n then 1 else 0) \<longleftrightarrow> 8 * q + r + 1 < 8 * k + t"
    using d(2) n by (cases "q < k"; cases "q = k") auto
  then show ?thesis
    unfolding d(1) pack_src_eq [OF d(2)] pack_count_def k_def [symmetric] t_def [symmetric] using n by simp
qed

lemma pack_count_0: "0 < n \<longleftrightarrow> 0 < pack_count n"
  by (auto simp: pack_count_def)

text \<open>The source index at the head of the loop, before the skip.\<close>

definition pack_head :: "nat \<Rightarrow> nat" where
  "pack_head d = (if d = 0 then 0 else pack_src (d - 1) + 1)"

lemma pack_head_skip:
  "(if pack_head d mod 8 = 7 then pack_head d + 1 else pack_head d) = pack_src d"
proof (cases d)
  case (Suc e)
  then show ?thesis using pack_src_Suc [of e] by (simp add: pack_head_def)
qed (simp add: pack_head_def)

lemma pack_head_less: "pack_head d < n \<longleftrightarrow> d < pack_count n"
  using pack_count_0 pack_count_Suc [of "d - 1" n] by (cases d) (simp_all add: pack_head_def)

lemma pack_head_Suc: "pack_head (Suc d) = Suc (pack_src d)"
  by (simp add: pack_head_def)

lemma upd_twice: "i < length xs \<Longrightarrow> (xs[i := v])[i := (xs[i := v]) ! i OR w] = xs[i := v OR w]"
  by simp

lemma pack_loop_run:
  assumes "\<forall>d<pack_count n. pack_src d < length src" and "n \<le> length src"
    and "pack_count n \<le> length dest" and "d \<le> pack_count n"
  shows "pack_loop src n (pack_head d) d dest =
    Some (pack_count n, take d dest @ map (pack_octet src n) [d..<pack_count n] @ drop (pack_count n) dest)"
  using assms
proof (induction "pack_count n - d" arbitrary: d dest)
  case 0
  then have "d = pack_count n" by simp
  then show ?case
    using pack_head_less [of d n] by (subst pack_loop.simps) simp
next
  case (Suc k)
  then have d: "d < pack_count n" by simp
  let ?dest = "dest[d := pack_octet src n d]"
  have i: "pack_src d < length src" and dl: "d < length dest" using Suc.prems d by auto
  have step: "pack_loop src n (pack_head d) d dest = pack_loop src n (pack_head (d + 1)) (d + 1) ?dest"
  proof (cases "pack_src d + 1 < n")
    case True
    then have "pack_src d + 1 < length src" using Suc.prems by simp
    then show ?thesis
      using True i dl d pack_head_less [of d n] upd_twice [OF dl]
      by (subst pack_loop.simps) (simp add: Let_def pack_head_skip pack_head_Suc pack_src_mod pack_octet_def)
  next
    case False
    then show ?thesis
      using i dl d pack_head_less [of d n]
      by (subst pack_loop.simps) (simp add: Let_def pack_head_skip pack_head_Suc pack_src_mod pack_octet_def)
  qed
  have "take (d + 1) ?dest = take d dest @ [pack_octet src n d]"
    using dl take_Suc_update [of d dest] by simp
  moreover have "[d..<pack_count n] = d # [d + 1..<pack_count n]" using d upt_conv_Cons by simp
  moreover have "drop (pack_count n) ?dest = drop (pack_count n) dest" using d by simp
  ultimately show ?case
    using Suc.hyps(1) [of "d + 1" ?dest] Suc.hyps(2) Suc.prems d step by simp
qed

text \<open>Bit \<open>i\<close> of octet \<open>d\<close> is bit \<open>8 * d + i\<close> of the stream of septets.\<close>

lemma stream_index:
  assumes "i < 8"
  shows "(8 * d + i) div 7 = (if d mod 7 + i < 7 then pack_src d else pack_src d + 1)"
    and "(8 * d + i) mod 7 = (if d mod 7 + i < 7 then d mod 7 + i else d mod 7 + i - 7)"
proof -
  obtain q r where d: "d = 7 * q + r" "r < 7" by (rule div_mod_split)
  have dm: "d mod 7 = r" and ps: "pack_src d = 8 * q + r" using d by simp_all
  have e: "8 * d + i = 7 * (8 * q + r) + (r + i)" using d by simp
  have "(8 * d + i) div 7 = 8 * q + r + (r + i) div 7" unfolding e by (rule div_mult_self4) simp
  moreover have "(8 * d + i) mod 7 = (r + i) mod 7" unfolding e by (rule mod_mult_self4)
  moreover have less: "r + i - 7 < 7" using assms d(2) by simp
  moreover have "(r + i) div 7 = (if r + i < 7 then 0 else 1)"
    and "(r + i) mod 7 = (if r + i < 7 then r + i else r + i - 7)"
    using assms d(2) less by (simp_all add: div_if mod_if)
  ultimately show "(8 * d + i) div 7 = (if d mod 7 + i < 7 then pack_src d else pack_src d + 1)"
    and "(8 * d + i) mod 7 = (if d mod 7 + i < 7 then d mod 7 + i else d mod 7 + i - 7)"
    unfolding dm ps by simp_all
qed

lemma bit_pack_octet:
  assumes "\<forall>x\<in>set (take n src). septet x" and "n \<le> length src" and "i < 8" and "pack_src d < n"
  shows "bit (pack_octet src n d) i \<longleftrightarrow> septet_bit (take n src) (8 * d + i)"
proof -
  define r s where "r = d mod 7" and "s = pack_src d"
  have sp: "k < 7" if "j < n" "bit (src ! j) k" for j k
  proof -
    have "take n src ! j \<in> set (take n src)" using that(1) assms(2) by (intro nth_mem) simp
    then show ?thesis using that assms(1) septet_high [of "src ! j" k] by simp
  qed
  have r: "r < 7" by (simp add: r_def)
  have idx: "(8 * d + i) div 7 = (if r + i < 7 then s else s + 1)"
    "(8 * d + i) mod 7 = (if r + i < 7 then r + i else r + i - 7)"
    using stream_index [OF assms(3), of d] unfolding r_def s_def .
  have rng: "8 * d + i < 7 * n \<longleftrightarrow> (8 * d + i) div 7 < n"
    by (simp add: div_less_iff_less_mult mult.commute)
  have rhs: "septet_bit (take n src) (8 * d + i) \<longleftrightarrow>
      (if r + i < 7 then bit (src ! s) (r + i) else s + 1 < n \<and> bit (src ! (s + 1)) (r + i - 7))"
    using assms(2,4) rng idx unfolding s_def [symmetric] septet_bit_def by (auto simp: min_def)
  have lhs: "bit (pack_octet src n d) i \<longleftrightarrow> bit (src ! s) (r + i) \<or>
      s + 1 < n \<and> 7 - r \<le> i \<and> bit (src ! (s + 1)) (i - (7 - r))"
    using assms(3) unfolding pack_octet_def r_def [symmetric] s_def [symmetric]
    by (auto simp: bit_or_iff bit_drop_bit_eq bit_push_bit_iff)
  show ?thesis
  proof (cases "r + i < 7")
    case True
    then have "\<not> 7 - r \<le> i" by simp
    then show ?thesis using True lhs rhs by simp
  next
    case False
    then have "\<not> bit (src ! s) (r + i)" using sp [of s "r + i"] assms(4) unfolding s_def by blast
    moreover have "i - (7 - r) = r + i - 7" "7 - r \<le> i" using False r by simp_all
    ultimately show ?thesis using False lhs rhs by simp
  qed
qed

section \<open>What the unpacking loop computes\<close>

text \<open>The index of the septet that octet \<open>i\<close> starts in, and septet \<open>q\<close> of the result.\<close>

definition unpack_septet :: "u8 list \<Rightarrow> nat \<Rightarrow> u8" where
  "unpack_septet src q =
     (if q mod 8 = 0 then 0 else drop_bit (8 - q mod 8) (src ! (q - q div 8 - 1))) OR
     (if q mod 8 = 7 then 0 else push_bit (q mod 8) (src ! (q - q div 8)) AND 0x7F)"

lemma bit_0x7F: "bit (0x7F :: u8) j \<longleftrightarrow> j < 7"
proof -
  have e: "(0x7F :: u8) = mask 7" by (simp add: mask_eq_exp_minus_1)
  show ?thesis unfolding e by (auto simp: bit_mask_iff)
qed

lemma septet_index:
  fixes q j :: nat
  assumes "j < 7"
  shows "(7 * q + j) div 8 = (if j < q mod 8 then q - q div 8 - 1 else q - q div 8)"
    and "(7 * q + j) mod 8 = (if j < q mod 8 then 8 - q mod 8 + j else j - q mod 8)"
proof -
  define k r :: nat where "k = q div 8" and "r = q mod 8"
  have q: "q = 8 * k + r" and r: "r < 8" by (simp_all add: k_def r_def)
  show "(7 * q + j) div 8 = (if j < q mod 8 then q - q div 8 - 1 else q - q div 8)"
  proof (cases "j < r")
    case True
    have e: "7 * q + j = 8 * (7 * k + r - 1) + (8 - r + j)" using q True r by simp
    have "(7 * q + j) div 8 = 7 * k + r - 1 + (8 - r + j) div 8" unfolding e by (rule div_mult_self4) simp
    then show ?thesis using True r q unfolding k_def [symmetric] r_def [symmetric] by simp
  next
    case False
    have e: "7 * q + j = 8 * (7 * k + r) + (j - r)" using q False r by simp
    have "(7 * q + j) div 8 = 7 * k + r + (j - r) div 8" unfolding e by (rule div_mult_self4) simp
    then show ?thesis using False r q assms unfolding k_def [symmetric] r_def [symmetric] by simp
  qed
  show "(7 * q + j) mod 8 = (if j < q mod 8 then 8 - q mod 8 + j else j - q mod 8)"
  proof (cases "j < r")
    case True
    have e: "7 * q + j = 8 * (7 * k + r - 1) + (8 - r + j)" using q True r by simp
    have "(7 * q + j) mod 8 = (8 - r + j) mod 8" unfolding e by (rule mod_mult_self4)
    then show ?thesis using True r unfolding r_def [symmetric] by simp
  next
    case False
    have e: "7 * q + j = 8 * (7 * k + r) + (j - r)" using q False r by simp
    have "(7 * q + j) mod 8 = (j - r) mod 8" unfolding e by (rule mod_mult_self4)
    then show ?thesis using False assms unfolding r_def [symmetric] by simp
  qed
qed

lemma bit_unpack_septet:
  assumes "j < 7" and "7 * q + j < 8 * length src"
  shows "bit (unpack_septet src q) j \<longleftrightarrow> octet_bit src (7 * q + j)"
proof -
  define r where "r = q mod 8"
  have r: "r < 8" by (simp add: r_def)
  have lhs: "bit (unpack_septet src q) j \<longleftrightarrow>
      r \<noteq> 0 \<and> bit (src ! (q - q div 8 - 1)) (8 - r + j) \<or>
      r \<noteq> 7 \<and> r \<le> j \<and> bit (src ! (q - q div 8)) (j - r)"
    using assms(1) bit_0x7F [of j] unfolding unpack_septet_def r_def [symmetric]
    by (auto simp: bit_or_iff bit_and_iff bit_drop_bit_eq bit_push_bit_iff)
  show ?thesis
  proof (cases "j < r")
    case True
    then show ?thesis
      using lhs assms septet_index [OF assms(1), of q] unfolding r_def octet_bit_def by auto
  next
    case False
    then have "\<not> bit (src ! (q - q div 8 - 1)) (8 - r + j)"
      using u8_bit_less [of "src ! (q - q div 8 - 1)" "8 - r + j"] r by auto
    then show ?thesis
      using lhs False r assms septet_index [OF assms(1), of q] unfolding r_def octet_bit_def by auto
  qed
qed

text \<open>The bits of a septet that come from the octet before it.\<close>

definition unpack_low :: "u8 list \<Rightarrow> nat \<Rightarrow> u8" where
  "unpack_low src q = (if q mod 8 = 0 then 0 else drop_bit (8 - q mod 8) (src ! (q - q div 8 - 1)))"

definition unpack_inv :: "u8 list \<Rightarrow> nat \<Rightarrow> u8 list \<Rightarrow> bool" where
  "unpack_inv src si dest \<longleftrightarrow>
     (\<forall>q<pack_src si. dest ! q = unpack_septet src q) \<and>
     (pack_src si < length dest \<longrightarrow> dest ! pack_src si = unpack_low src (pack_src si)) \<and>
     (\<forall>q. pack_src si < q \<and> q < length dest \<longrightarrow> dest ! q = 0)"

text \<open>One round of the loop, in the middle of a group of seven octets and at its end.\<close>

lemma unpack_round:
  assumes "unpack_inv src si dest" and "pack_src si + 1 < length dest"
  defines "dest' \<equiv> (dest[pack_src si := dest ! pack_src si OR (push_bit (si mod 7) (src ! si) AND 0x7F)])
    [pack_src si + 1 := drop_bit (7 - si mod 7) (src ! si)]"
  shows "unpack_inv src (Suc si) dest'"
    and "pack_src (Suc si) = (if 7 - si mod 7 = 1 then pack_src si + 2 else pack_src si + 1)"
proof -
  obtain k r where si: "si = 7 * k + r" and r: "r < 7" by (rule div_mod_split)
  let ?q = "8 * k + r"
  have q: "pack_src si = ?q" "si mod 7 = r" "?q mod 8 = r" "?q - ?q div 8 = si" using si r by simp_all
  have old: "\<forall>p<?q. dest ! p = unpack_septet src p" "dest ! ?q = unpack_low src ?q"
    "\<forall>p. ?q < p \<and> p < length dest \<longrightarrow> dest ! p = 0"
    using assms(1,2) unfolding unpack_inv_def q(1) by simp_all
  have U: "unpack_septet src ?q = dest ! ?q OR (push_bit r (src ! si) AND 0x7F)"
    using old(2) r q(3,4) unfolding unpack_septet_def unpack_low_def by simp
  have d: "dest' = (dest[?q := unpack_septet src ?q])[?q + 1 := drop_bit (7 - r) (src ! si)]"
    unfolding dest'_def q U ..
  have len: "?q + 1 < length dest" using assms(2) q(1) by simp
  have "unpack_inv src (Suc si) dest' \<and>
      pack_src (Suc si) = (if 7 - si mod 7 = 1 then pack_src si + 2 else pack_src si + 1)"
  proof (cases "r = 6")
    case True
    have S: "pack_src (Suc si) = ?q + 2" using si True by simp
    have "unpack_septet src (?q + 1) = drop_bit 1 (src ! si)"
      using True si by (simp add: unpack_septet_def add.commute)
    then have "\<forall>p<?q + 2. dest' ! p = unpack_septet src p"
      using old(1) len True unfolding d by (auto simp: nth_list_update less_Suc_eq)
    moreover have "unpack_low src (?q + 2) = 0" using True by (simp add: unpack_low_def)
    ultimately show ?thesis
      using old(3) len True unfolding unpack_inv_def S q d by auto
  next
    case False
    then have r5: "Suc r < 7" using r by simp
    have "Suc si = 7 * k + Suc r" using si by simp
    then have S: "pack_src (Suc si) = ?q + 1" using pack_src_eq [OF r5, of k] by simp
    have "unpack_low src (?q + 1) = drop_bit (7 - r) (src ! si)"
    proof -
      have "(?q + 1) mod 8 = Suc r" "(?q + 1) div 8 = k" using r5 by simp_all
      then show ?thesis using si by (simp add: unpack_low_def)
    qed
    then show ?thesis
      using old len False r unfolding unpack_inv_def S q d by (auto simp: nth_list_update less_Suc_eq)
  qed
  then show "unpack_inv src (Suc si) dest'"
    and "pack_src (Suc si) = (if 7 - si mod 7 = 1 then pack_src si + 2 else pack_src si + 1)"
    by blast+
qed

lemma unpack_loop_run:
  assumes "n \<le> length src" and "\<forall>i<n. pack_src i + 1 < length dest" and "unpack_inv src si dest"
    and "si \<le> n"
  shows "\<exists>d. unpack_loop src n si (pack_src si) dest = Some (pack_src n, d) \<and>
    length d = length dest \<and> unpack_inv src n d"
  using assms
proof (induction "n - si" arbitrary: si dest)
  case 0
  then have "si = n" by simp
  then show ?case using 0 by (subst unpack_loop.simps) simp
next
  case (Suc m)
  then have si: "si < n" and b: "pack_src si + 1 < length dest" by simp_all
  let ?d = "(dest[pack_src si := dest ! pack_src si OR (push_bit (si mod 7) (src ! si) AND 0x7F)])
    [pack_src si + 1 := drop_bit (7 - si mod 7) (src ! si)]"
  note round = unpack_round [OF Suc.prems(3) b]
  have "unpack_loop src n si (pack_src si) dest = unpack_loop src n (Suc si) (pack_src (Suc si)) ?d"
    using si b Suc.prems(1) unfolding round(2) by (subst unpack_loop.simps) (simp add: Let_def)
  moreover have "\<exists>d. unpack_loop src n (Suc si) (pack_src (Suc si)) ?d = Some (pack_src n, d) \<and>
    length d = length ?d \<and> unpack_inv src n d"
    using Suc.hyps(2) Suc.prems(1,2) si by (intro Suc.hyps(1) round(1)) simp_all
  ultimately show ?case by simp
qed

section \<open>Packing is the bit stream of the septets\<close>

text \<open>
  Seven bits that are left over at the end are filled with a carriage return, so that they are not
  read as a commercial at.
\<close>

definition padded :: "u8 list \<Rightarrow> u8 list" where
  "padded xs = (if length xs mod 8 = 7 then xs @ [0x0D] else xs)"

lemma padded_bit:
  assumes "length xs mod 8 \<noteq> 7 \<or> p < 7 * length xs"
  shows "septet_bit (padded xs) p \<longleftrightarrow> septet_bit xs p"
proof -
  have "p < 7 * length xs \<longleftrightarrow> p div 7 < length xs"
    by (simp add: div_less_iff_less_mult mult.commute)
  then show ?thesis using assms by (auto simp: padded_def septet_bit_def nth_append)
qed

lemma pack_src_bound: "d < pack_count n \<Longrightarrow> n mod 8 \<noteq> 0 \<or> d + 1 < pack_count n \<Longrightarrow> pack_src d < n"
proof -
  assume a: "d < pack_count n" "n mod 8 \<noteq> 0 \<or> d + 1 < pack_count n"
  define k t where "k = n div 8" and "t = n mod 8"
  have n: "n = 8 * k + t" "t < 8" by (simp_all add: k_def t_def)
  obtain q r where d: "d = 7 * q + r" "r < 7" by (rule div_mod_split)
  have "8 * q + r < 8 * k + t"
    using a d n unfolding pack_count_def k_def [symmetric] t_def [symmetric] by (auto split: if_splits)
  then show ?thesis using d n by simp
qed

lemma bit_0x1A: "i < 8 \<Longrightarrow> bit (0x1A :: u8) i \<longleftrightarrow> i \<noteq> 0 \<and> bit (0x0D :: u8) (i - 1)"
  using bit_push_bit_iff [of 1 "0x0D :: u8" i] by auto

lemma octet_bit_map:
  assumes "p < 8 * m"
  shows "octet_bit (map f [0..<m]) p \<longleftrightarrow> bit (f (p div 8)) (p mod 8)"
  using assms by (simp add: octet_bit_def div_less_iff_less_mult mult.commute)

lemma pack_count_div: "n mod 8 \<noteq> 0 \<Longrightarrow> pack_count n = n * 7 div 8 + 1"
  and pack_count_div0: "n mod 8 = 0 \<Longrightarrow> pack_count n = n * 7 div 8 + (if 0 < n then 1 else 0)"
proof -
  define k t where "k = n div 8" and "t = n mod 8"
  have n: "n = 8 * k + t" "t < 8" by (simp_all add: k_def t_def)
  have e: "n * 7 = 8 * (7 * k) + 7 * t" using n by simp
  have "n * 7 div 8 = 7 * k + 7 * t div 8" unfolding e by (rule div_mult_self4) simp
  moreover have "7 * t div 8 = t - 1" using n(2) by (cases "t = 0") auto
  ultimately show "n mod 8 \<noteq> 0 \<Longrightarrow> pack_count n = n * 7 div 8 + 1"
    and "n mod 8 = 0 \<Longrightarrow> pack_count n = n * 7 div 8 + (if 0 < n then 1 else 0)"
    unfolding pack_count_def k_def [symmetric] t_def [symmetric] by auto
qed

text \<open>The result of packing, and when its memory accesses are all inside the two buffers.\<close>

definition pack_fits :: "u8 list \<Rightarrow> nat \<Rightarrow> u8 list \<Rightarrow> bool" where
  "pack_fits src n dest \<longleftrightarrow>
     n \<le> length src \<and> (n mod 8 = 0 \<and> 0 < n \<longrightarrow> n < length src) \<and> pack_count n \<le> length dest"

lemma pack_fits_reads: "pack_fits src n dest \<Longrightarrow> d < pack_count n \<Longrightarrow> pack_src d < length src"
proof -
  assume f: "pack_fits src n dest" and d: "d < pack_count n"
  show ?thesis
  proof (cases "n mod 8 \<noteq> 0 \<or> d + 1 < pack_count n")
    case True
    then show ?thesis using pack_src_bound [OF d] f by (auto simp: pack_fits_def)
  next
    case False
    then have n0: "n mod 8 = 0" and dl: "d = pack_count n - 1" using d by auto
    have "0 < n" using d pack_count_0 [of n] by auto
    then have "d = 7 * (n div 8)" using n0 dl by (simp add: pack_count_def)
    then have "pack_src d = 8 * (n div 8)" by simp
    then have "pack_src d = n" using n0 mult_div_mod_eq [of 8 n] by linarith
    then show ?thesis using f n0 \<open>0 < n\<close> by (auto simp: pack_fits_def)
  qed
qed

lemma packing_eq:
  assumes "pack_fits src n dest"
  shows "packing_gsm7bit src n dest =
    Some ((7 * n + 7) div 8,
      let out = map (pack_octet src n) [0..<pack_count n] @ drop (pack_count n) dest
      in if n mod 8 = 7 then out[pack_count n - 1 := out ! (pack_count n - 1) OR 0x1A] else out)"
proof -
  have run: "pack_loop src n 0 0 dest =
      Some (pack_count n, map (pack_octet src n) [0..<pack_count n] @ drop (pack_count n) dest)"
    using pack_loop_run [of n src dest 0] pack_fits_reads [OF assms] assms
    by (simp add: pack_fits_def pack_head_def)
  have len: "(if n mod 8 = 0 then n * 7 div 8 else n * 7 div 8 + 1) = (7 * n + 7) div 8"
  proof -
    define k t where "k = n div 8" and "t = n mod 8"
    have n: "n = 8 * k + t" "t < 8" by (simp_all add: k_def t_def)
    have e: "7 * n + 7 = 8 * (7 * k) + (7 * t + 7)" "n * 7 = 8 * (7 * k) + 7 * t" using n by simp_all
    have "(7 * n + 7) div 8 = 7 * k + (7 * t + 7) div 8" "n * 7 div 8 = 7 * k + 7 * t div 8"
      unfolding e by (rule div_mult_self4, simp)+
    moreover have "(7 * t + 7) div 8 = t" "7 * t div 8 = t - 1" using n(2) by auto
    ultimately show ?thesis unfolding t_def [symmetric] by auto
  qed
  have "n mod 8 = 7 \<Longrightarrow> 0 < pack_count n" by (simp add: pack_count_def)
  then show ?thesis
    unfolding packing_gsm7bit_def run len using assms by (auto simp: pack_fits_def Let_def)
qed

lemma packing_bits:
  assumes "pack_fits src n dest" and "\<forall>x\<in>set (take n src). septet x"
  shows "\<exists>out. packing_gsm7bit src n dest = Some ((7 * n + 7) div 8, out) \<and> length out = length dest \<and>
    (\<forall>p. octet_bit (take ((7 * n + 7) div 8) out) p \<longleftrightarrow> septet_bit (padded (take n src)) p)"
proof -
  let ?c = "pack_count n" and ?enc = "(7 * n + 7) div 8" and ?xs = "take n src"
  let ?out = "map (pack_octet src n) [0..<?c] @ drop ?c dest"
  define out where "out = (if n mod 8 = 7 then ?out[?c - 1 := ?out ! (?c - 1) OR 0x1A] else ?out)"
  have n: "n \<le> length src" "?c \<le> length dest" and lx: "length ?xs = n"
    using assms(1) by (simp_all add: pack_fits_def)
  define k t where "k = n div 8" and "t = n mod 8"
  have nk: "n = 8 * k + t" "t < 8" by (simp_all add: k_def t_def)
  have enc: "?enc = 7 * k + t" and c: "?c = 7 * k + t + (if t = 0 \<and> 0 < n then 1 else 0)"
  proof -
    have e: "7 * n + 7 = 8 * (7 * k) + (7 * t + 7)" using nk by simp
    have "?enc = 7 * k + (7 * t + 7) div 8" unfolding e by (rule div_mult_self4) simp
    moreover have "(7 * t + 7) div 8 = t" using nk(2) by auto
    ultimately show "?enc = 7 * k + t" by simp
    show "?c = 7 * k + t + (if t = 0 \<and> 0 < n then 1 else 0)"
      by (simp add: pack_count_def k_def t_def)
  qed
  have lo: "length out = length dest" using n(2) by (simp add: out_def)
  have src: "pack_src d < n" if "d < ?enc" for d
    using that pack_src_bound [of d n] enc c unfolding t_def by (auto split: if_splits)
  have bits: "octet_bit (take ?enc out) p \<longleftrightarrow> septet_bit (padded ?xs) p" if p: "p < 8 * ?enc" for p
  proof -
    define d i where "d = p div 8" and "i = p mod 8"
    have pd: "p = 8 * d + i" "i < 8" and d: "d < ?enc" "d < ?c"
      using p enc c by (simp_all add: d_def i_def div_less_iff_less_mult mult.commute)
    have plain: "bit (pack_octet src n d) i \<longleftrightarrow> septet_bit ?xs p"
      using bit_pack_octet [OF assms(2) n(1) pd(2) src [OF d(1)]] pd(1) by simp
    have at: "octet_bit (take ?enc out) p \<longleftrightarrow> bit (out ! d) i"
      using p d n lo c enc unfolding octet_bit_def d_def [symmetric] i_def [symmetric] by auto
    show ?thesis
    proof (cases "t = 7 \<and> d = ?c - 1")
      case False
      then have "out ! d = pack_octet src n d"
        using d n(2) by (auto simp: out_def t_def nth_append)
      moreover have "length ?xs mod 8 \<noteq> 7 \<or> p < 7 * length ?xs"
      proof (cases "t = 7")
        case True
        then have "d < 7 * k + 6" using False d c by auto
        then show ?thesis using pd True nk unfolding lx by simp
      qed (use lx in \<open>simp add: t_def del: length_take\<close>)
      ultimately show ?thesis using plain at padded_bit [of ?xs p] by simp
    next
      case True
      then have d6: "d = 7 * k + 6" and n7: "n = 8 * k + 7" using c nk by simp_all
      have "out ! d = pack_octet src n d OR 0x1A"
        using True d n(2) by (auto simp: out_def t_def nth_append)
      then have o: "bit (out ! d) i \<longleftrightarrow> septet_bit ?xs p \<or> i \<noteq> 0 \<and> bit (0x0D :: u8) (i - 1)"
        using plain pd(2) bit_0x1A [OF pd(2)] by (simp add: bit_or_iff)
      have p7: "p = 7 * n + (i - 1)" if "i \<noteq> 0" using that pd(1) d6 n7 by simp
      show ?thesis
      proof (cases "i = 0")
        case True
        then have "p < 7 * length ?xs" using pd d6 n7 unfolding lx by simp
        then show ?thesis using at o True padded_bit [of ?xs p] by simp
      next
        case False
        have i1: "i - 1 < 7" using pd(2) by simp
        have "p div 7 = n" "p mod 7 = i - 1" "p < 7 * (n + 1)" "\<not> p < 7 * n"
          using p7 [OF False] i1 by simp_all
        then show ?thesis
          using at o False n7 lx unfolding padded_def septet_bit_def by (simp add: nth_append)
      qed
    qed
  qed
  have "octet_bit (take ?enc out) p \<longleftrightarrow> septet_bit (padded ?xs) p" for p
  proof (cases "p < 8 * ?enc")
    case False
    then have "\<not> p < 7 * length (padded ?xs)"
      using enc nk lx unfolding padded_def t_def [symmetric] by (auto split: if_splits)
    moreover have "length (take ?enc out) \<le> ?enc" by simp
    then have "\<not> p < 8 * length (take ?enc out)" using False by linarith
    ultimately show ?thesis by (simp only: octet_bit_def septet_bit_def) simp
  qed (rule bits)
  then show ?thesis
    using packing_eq [OF assms(1)] lo unfolding out_def Let_def by blast
qed

section \<open>Unpacking\<close>

lemma septet_unpack: "septet (unpack_septet src q)"
  using u8_bit_less [of "src ! (q - q div 8 - 1)" "8 - q mod 8 + 7"]
  by (auto simp: septet_def unpack_septet_def bit_or_iff bit_and_iff bit_drop_bit_eq bit_0x7F)

lemma octet_bit_take: "n \<le> length src \<Longrightarrow> p < 8 * n \<Longrightarrow> octet_bit (take n src) p = octet_bit src p"
  by (simp add: octet_bit_def div_less_iff_less_mult mult.commute)

lemma unpacking_eq:
  assumes "n \<le> length src" and "\<forall>i<n. pack_src i + 1 < length dest" and "\<forall>x\<in>set dest. x = 0"
  shows "\<exists>d. unpacking_gsm7bit src n dest = Some (pack_src n, d) \<and> length d = length dest \<and>
    (\<forall>q<pack_src n. d ! q = unpack_septet src q)"
proof -
  have "unpack_inv src 0 dest" using assms(3) by (simp add: unpack_inv_def unpack_low_def)
  then show ?thesis
    using unpack_loop_run [OF assms(1,2), of 0] by (auto simp: unpacking_gsm7bit_def unpack_inv_def)
qed

text \<open>Octets that carry the bit stream of some septets unpack to these septets.\<close>

lemma unpack_septet_stream:
  assumes "\<forall>p. octet_bit (take n src) p \<longleftrightarrow> septet_bit ys p" and "n \<le> length src"
    and "\<forall>y\<in>set ys. septet y" and "7 * length ys \<le> 8 * n" and "q < length ys"
  shows "unpack_septet src q = ys ! q"
proof (rule bit_word_eqI)
  fix j assume "j < LENGTH(8)"
  then have j: "j < 8" by simp
  show "bit (unpack_septet src q) j = bit (ys ! q) j"
  proof (cases "j < 7")
    case True
    have p: "7 * q + j < 7 * length ys" using True assms(5) by simp
    then have "bit (unpack_septet src q) j \<longleftrightarrow> octet_bit src (7 * q + j)"
      using assms(2,4) True by (intro bit_unpack_septet) auto
    also have "\<dots> \<longleftrightarrow> septet_bit ys (7 * q + j)"
      using octet_bit_take [OF assms(2), of "7 * q + j"] assms(1,4) p by simp
    also have "\<dots> \<longleftrightarrow> bit (ys ! q) j" using p True by (simp add: septet_bit_def)
    finally show ?thesis .
  next
    case False
    then have "j = 7" using j by simp
    then show ?thesis using septet_unpack [of src q] assms(3,5) by (simp add: septet_def)
  qed
qed

lemma padded_length: "length (padded xs) = pack_src ((7 * length xs + 7) div 8)"
  and padded_fits: "7 * length (padded xs) \<le> 8 * ((7 * length xs + 7) div 8)"
proof -
  define k t where "k = length xs div 8" and "t = length xs mod 8"
  have n: "length xs = 8 * k + t" "t < 8" by (simp_all add: k_def t_def)
  have e: "7 * length xs + 7 = 8 * (7 * k) + (7 * t + 7)" using n by simp
  have "(7 * length xs + 7) div 8 = 7 * k + (7 * t + 7) div 8" unfolding e by (rule div_mult_self4) simp
  moreover have "(7 * t + 7) div 8 = t" using n(2) by auto
  ultimately have enc: "(7 * length xs + 7) div 8 = 7 * k + t" by simp
  have l: "length (padded xs) = (if t = 7 then 8 * k + 8 else 8 * k + t)"
    using n by (simp add: padded_def t_def)
  show "length (padded xs) = pack_src ((7 * length xs + 7) div 8)"
    unfolding enc l using n(2) by (cases "t = 7") auto
  show "7 * length (padded xs) \<le> 8 * ((7 * length xs + 7) div 8)"
    unfolding enc l using n(2) by auto
qed

lemma unpacking_stream:
  assumes "\<forall>p. octet_bit (take m src) p \<longleftrightarrow> septet_bit ys p" and "m \<le> length src"
    and "\<forall>y\<in>set ys. septet y" and "length ys = pack_src m" and "7 * length ys \<le> 8 * m"
    and "\<forall>i<m. pack_src i + 1 < length buf" and "\<forall>x\<in>set buf. x = 0"
  shows "\<exists>d. unpacking_gsm7bit src m buf = Some (length ys, d) \<and> length d = length buf \<and>
    take (length ys) d = ys"
proof -
  obtain d where d: "unpacking_gsm7bit src m buf = Some (pack_src m, d)" "length d = length buf"
    "\<forall>q<pack_src m. d ! q = unpack_septet src q"
    using unpacking_eq [OF assms(2,6,7)] by blast
  have "pack_src m \<le> length d"
  proof (cases m)
    case (Suc i)
    then have "pack_src i + 1 < length buf" using assms(6) by simp
    then show ?thesis using pack_src_Suc [of i] Suc d(2) by (auto split: if_splits)
  qed simp
  then have "take (length ys) d = ys"
    using d(3) assms(4) unpack_septet_stream [OF assms(1,2,3,5)]
    by (intro nth_equalityI) simp_all
  then show ?thesis using d assms(4) by auto
qed

text \<open>A source that is too long for the destination faults.\<close>

lemma pack_src_mono: "i \<le> j \<Longrightarrow> pack_src i \<le> pack_src j"
  by (intro add_mono div_le_mono)

lemma unpack_loop_overflow:
  assumes "si \<le> i" and "i < n" and "length dest \<le> pack_src i + 1"
  shows "unpack_loop src n si (pack_src si) dest = None"
  using assms
proof (induction "i - si" arbitrary: si dest)
  case 0
  then have "si < n" "length dest \<le> pack_src si + 1" by simp_all
  then show ?case
    by (subst unpack_loop.simps) (auto simp: arr_get_def arr_set_def Let_def split: bind_splits)
next
  case (Suc m)
  then have si: "si < n" "si < i" by simp_all
  have "7 - si mod 7 = 1 \<longleftrightarrow> (pack_src si + 1) mod 8 = 7"
    using mod_less_divisor [of 7 si] pack_src_mod [of si] by (simp add: mod_Suc) arith
  then have next_di: "(if 7 - si mod 7 = 1 then pack_src si + 2 else pack_src si + 1) = pack_src (Suc si)"
    using pack_src_Suc [of si] by simp
  have "unpack_loop src n (Suc si) (if 7 - si mod 7 = 1 then pack_src si + 2 else pack_src si + 1) e = None"
    if "length e = length dest" for e
    unfolding next_di using Suc.hyps(1) [of "Suc si" e] Suc.hyps(2) Suc.prems that si by simp
  then show ?case
    using si by (subst unpack_loop.simps) (auto simp: arr_get_def arr_set_def Let_def split: bind_splits)
qed

lemma unpacking_overflow:
  "i < n \<Longrightarrow> length dest \<le> pack_src i + 1 \<Longrightarrow> unpacking_gsm7bit src n dest = None"
  using unpack_loop_overflow [of 0 i n dest src] by (simp add: unpacking_gsm7bit_def)

lemma padded_septets: "\<forall>x\<in>set xs. septet x \<Longrightarrow> \<forall>y\<in>set (padded xs). septet y"
  by (auto simp: padded_def septet_def)

section \<open>Properties\<close>

text \<open>
  C25. The octets that the packing loop writes are the bit stream of the septets, least significant bit
  first, as the standard defines it, bit for bit; seven left-over bits are filled with a carriage
  return.  All accesses are inside the buffers, provided that one more source element is readable and
  one more octet writable when the number of septets is a multiple of eight.
\<close>

theorem gsm7_packing_is_bit_stream:
  assumes "pack_fits src n dest" and "\<forall>x\<in>set (take n src). septet x"
  shows "\<exists>out. packing_gsm7bit src n dest = Some ((7 * n + 7) div 8, out) \<and>
    length out = length dest \<and>
    (\<forall>p. octet_bit (take ((7 * n + 7) div 8) out) p \<longleftrightarrow> septet_bit (padded (take n src)) p)"
  using packing_bits [OF assms] .

theorem gsm7_packing_is_bit_stream_witness:
  "\<exists>out. packing_gsm7bit [0x48, 0x69] 2 [0, 0] = Some (2, out) \<and> length out = 2 \<and>
    (\<forall>p. octet_bit (take 2 out) p \<longleftrightarrow> septet_bit [0x48, 0x69] p)"
proof -
  have f: "pack_fits [0x48, 0x69] 2 [0, 0]" by (simp add: pack_fits_def pack_count_def)
  have "\<forall>x\<in>set (take 2 [0x48, 0x69]). septet x" by (simp add: septet_def)
  from gsm7_packing_is_bit_stream [OF f this] show ?thesis by (simp add: padded_def numeral_2_eq_2)
qed

text \<open>
  When the number of septets is a positive multiple of eight and the source buffer holds no more
  than the septets, the loop reads the element behind them.
\<close>

theorem gsm7_packing_reads_behind:
  assumes "0 < k" and "length src = 8 * k" and "7 * k < length dest"
  shows "packing_gsm7bit src (8 * k) dest = None"
proof -
  let ?n = "8 * k"
  have c: "pack_count ?n = 7 * k + 1" using assms(1) by (simp add: pack_count_def)
  have run: "pack_loop src ?n (pack_head d) d dest = None" if "d \<le> 7 * k" "7 * k < length dest" for d dest
    using that
  proof (induction "7 * k - d" arbitrary: d dest)
    case 0
    then have d: "d = 7 * k" by simp
    then have "pack_src d = 8 * k" by simp
    moreover have "pack_head d < ?n" using pack_head_less [of d ?n] c d by simp
    ultimately show ?case
      using assms(2) by (subst pack_loop.simps) (simp add: Let_def pack_head_skip arr_get_out)
  next
    case (Suc m)
    then have d: "d < 7 * k" by simp
    then have "pack_head d < ?n" using pack_head_less [of d ?n] c by simp
    have "pack_src d + 1 < ?n"
      using pack_count_Suc [of d ?n] c d by simp
    have ih: "pack_loop src ?n (pack_head (Suc d)) (Suc d) e = None" if "length e = length dest" for e
      using Suc.hyps(1) [of "Suc d" e] Suc.hyps(2) Suc.prems d that by simp
    show ?case
      using \<open>pack_head d < ?n\<close> \<open>pack_src d + 1 < ?n\<close> assms(2) d Suc.prems(2) ih
      by (subst pack_loop.simps) (simp add: Let_def pack_head_skip pack_head_Suc [symmetric])
  qed
  from run [of 0 dest] assms(3) show ?thesis
    by (simp add: packing_gsm7bit_def pack_head_def)
qed

theorem gsm7_packing_reads_behind_witness:
  "packing_gsm7bit [1, 2, 3, 4, 5, 6, 7, 8] 8 (replicate 16 0) = None"
  using gsm7_packing_reads_behind [of 1 "[1, 2, 3, 4, 5, 6, 7, 8]" "replicate 16 0"] by simp

end
