(* ===== verification/Utf8_Text.thy ===== *)
theory Utf8_Text
  imports Ril_Prelude
begin

text \<open>
  UCS2 to UTF-8 of \<^verbatim>\<open>sitril/util/util.cpp\<close>, with a reference decoder of UTF-8
  sequences.
\<close>

section \<open>UTF-8\<close>

definition utf8_unit :: "u16 \<Rightarrow> u8 list" where
  "utf8_unit c =
     (if c \<le> 0x7F then [ucast c]
      else if c \<le> 0x7FF then [0xC0 OR ucast (drop_bit 6 c), 0x80 OR ucast (c AND 0x3F)]
      else [0xE0 OR ucast (drop_bit 12 c), 0x80 OR ucast (drop_bit 6 c AND 0x3F),
            0x80 OR ucast (c AND 0x3F)])"

text \<open>The limit is computed in \<^verbatim>\<open>size_t\<close>, 64 bits wide, and wraps for sizes below three.\<close>

definition utf8_limit :: "nat \<Rightarrow> nat" where
  "utf8_limit dst_size = (if 3 \<le> dst_size then dst_size - 3 else 2 ^ 64 + dst_size - 3)"

fun utf8_loop :: "nat \<Rightarrow> u16 list \<Rightarrow> nat \<Rightarrow> u8 list \<Rightarrow> (nat \<times> u8 list) option" where
  "utf8_loop limit [] i dst = Some (i, dst)"
| "utf8_loop limit (c # cs) i dst =
     (if limit \<le> i then Some (i, dst)
      else do { dst \<leftarrow> arr_blit dst i (utf8_unit c);
                utf8_loop limit cs (i + length (utf8_unit c)) dst })"

definition ConvertUcs2ToUtf8 :: "u16 list \<Rightarrow> u8 list \<Rightarrow> nat \<Rightarrow> (nat \<times> u8 list) option" where
  "ConvertUcs2ToUtf8 src dst dst_size = utf8_loop (utf8_limit dst_size) src 0 dst"

section \<open>Reference: decoding UTF-8\<close>

text \<open>
  Sequences of one to three bytes in their shortest form; the values are the code units that were
  encoded.
\<close>

definition utf8_cont :: "u8 \<Rightarrow> bool" where
  "utf8_cont b \<longleftrightarrow> b AND 0xC0 = 0x80"

fun utf8_decode :: "u8 list \<Rightarrow> u16 list option" where
  "utf8_decode [] = Some []"
| "utf8_decode (a # bs) =
     (if a < 0x80 then map_option ((#) (ucast a)) (utf8_decode bs)
      else if a AND 0xE0 = 0xC0 then
        (case bs of
           b # cs \<Rightarrow>
             (let u = push_bit 6 (ucast (a AND 0x1F)) OR ucast (b AND 0x3F)
              in if utf8_cont b \<and> 0x80 \<le> u then map_option ((#) u) (utf8_decode cs) else None)
         | _ \<Rightarrow> None)
      else if a AND 0xF0 = 0xE0 then
        (case bs of
           b # c # cs \<Rightarrow>
             (let u = push_bit 12 (ucast (a AND 0x0F)) OR push_bit 6 (ucast (b AND 0x3F)) OR ucast (c AND 0x3F)
              in if utf8_cont b \<and> utf8_cont c \<and> 0x800 \<le> u
                 then map_option ((#) u) (utf8_decode cs) else None)
         | _ \<Rightarrow> None)
      else None)"

section \<open>Bits of the sequences\<close>

lemma word_high_bits:
  fixes c :: u16
  assumes "c < 2 ^ k"
  shows "bit c n \<Longrightarrow> n < k"
proof -
  assume b: "bit c n"
  show "n < k"
  proof (rule ccontr)
    assume "\<not> n < k"
    then have kn: "k \<le> n" by simp
    have n: "n < 16" using b bit_imp_le_length by fastforce
    have "take_bit k c = c" using assms kn n
      by (metis less_mask_eq take_bit_eq_mask)
    then have "bit (take_bit k c) n" using b by simp
    then show False using kn by (simp add: bit_take_bit_iff)
  qed
qed

lemma cont_byte:
  fixes c :: u16
  shows "utf8_cont (0x80 OR ucast (c AND 0x3F :: u16))" 
  "ucast ((0x80 OR ucast (c AND 0x3F :: u16) :: u8) AND 0x3F) = c AND 0x3F"
proof -
  have "(0x80 OR ucast (c AND 0x3F :: u16) :: u8) AND 0xC0 = 0x80"
  proof (rule bit_word_eqI)
    fix n assume "n < LENGTH(8)"
    then have "n < 8" by simp
    from u8_cases [OF this] show "bit ((0x80 OR ucast (c AND 0x3F :: u16) :: u8) AND 0xC0) n = bit (0x80 :: u8) n"
      by (elim disjE) (simp_all add: bit_simps)
  qed
  then show "utf8_cont (0x80 OR ucast (c AND 0x3F :: u16))" by (simp add: utf8_cont_def)
  show "ucast ((0x80 OR ucast (c AND 0x3F :: u16) :: u8) AND 0x3F) = c AND 0x3F"
  proof (rule bit_word_eqI)
    fix n assume "n < LENGTH(16)"
    show "bit (ucast ((0x80 OR ucast (c AND 0x3F :: u16) :: u8) AND 0x3F) :: u16) n = bit (c AND 0x3F) n"
    proof (cases "n < 8")
      case True
      from u8_cases [OF this] show ?thesis by (elim disjE) (simp_all add: bit_simps)
    next
      case False
      then have "\<not> bit (0x3F :: u16) n" using word_high_bits [of "0x3F" 6 n] by auto
      then show ?thesis using False by (simp add: bit_simps)
    qed
  qed
qed

lemma lead2:
  fixes c :: u16
  assumes "c \<le> 0x7FF"
  shows "(0xC0 OR ucast (drop_bit 6 c) :: u8) AND 0xE0 = 0xC0"
    and "push_bit 6 (ucast ((0xC0 OR ucast (drop_bit 6 c) :: u8) AND 0x1F)) OR (c AND 0x3F) = c"
proof -
  have "c < 2 ^ 11" using assms by (simp add: word_le_nat_alt word_less_nat_alt)
  from word_high_bits [OF this] have hi: "bit c n \<Longrightarrow> n < 11" for n .
  then have z: "\<not> bit c 11" "\<not> bit c 12" "\<not> bit c 13" "\<not> bit c 14" "\<not> bit c 15" by fastforce+
  show "(0xC0 OR ucast (drop_bit 6 c) :: u8) AND 0xE0 = 0xC0"
  proof (rule bit_word_eqI)
    fix n assume "n < LENGTH(8)"
    then have "n < 8" by simp
    from u8_cases [OF this] show "bit ((0xC0 OR ucast (drop_bit 6 c) :: u8) AND 0xE0) n = bit (0xC0 :: u8) n"
      by (elim disjE) (simp_all add: bit_simps z)
  qed
  show "push_bit 6 (ucast ((0xC0 OR ucast (drop_bit 6 c) :: u8) AND 0x1F)) OR (c AND 0x3F) = c"
  proof (rule bit_word_eqI)
    fix n assume "n < LENGTH(16)"
    then have "n < 16" by simp
    from u16_cases [OF this]
    show "bit (push_bit 6 (ucast ((0xC0 OR ucast (drop_bit 6 c) :: u8) AND 0x1F)) OR (c AND 0x3F)) n = bit c n"
      by (elim disjE) (simp_all add: bit_simps z)
  qed
qed

lemma lead3:
  fixes c :: u16
  shows "(0xE0 OR ucast (drop_bit 12 c) :: u8) AND 0xF0 = 0xE0"
    and "(0xE0 OR ucast (drop_bit 12 c) :: u8) AND 0xE0 = 0xE0"
    and "push_bit 12 (ucast ((0xE0 OR ucast (drop_bit 12 c) :: u8) AND 0x0F)) OR
      push_bit 6 (drop_bit 6 c AND 0x3F) OR (c AND 0x3F) = c"
proof -
  have z: "\<not> bit c n" if "16 \<le> n" for n using that bit_imp_le_length [of c n] by auto
  show "(0xE0 OR ucast (drop_bit 12 c) :: u8) AND 0xF0 = 0xE0"
  proof (rule bit_word_eqI)
    fix n assume "n < LENGTH(8)"
    then have "n < 8" by simp
    from u8_cases [OF this] show "bit ((0xE0 OR ucast (drop_bit 12 c) :: u8) AND 0xF0) n = bit (0xE0 :: u8) n"
      by (elim disjE) (simp_all add: bit_simps z)
  qed
  show "(0xE0 OR ucast (drop_bit 12 c) :: u8) AND 0xE0 = 0xE0"
  proof (rule bit_word_eqI)
    fix n assume "n < LENGTH(8)"
    then have "n < 8" by simp
    from u8_cases [OF this] show "bit ((0xE0 OR ucast (drop_bit 12 c) :: u8) AND 0xE0) n = bit (0xE0 :: u8) n"
      by (elim disjE) (simp_all add: bit_simps z)
  qed
  show "push_bit 12 (ucast ((0xE0 OR ucast (drop_bit 12 c) :: u8) AND 0x0F)) OR
      push_bit 6 (drop_bit 6 c AND 0x3F) OR (c AND 0x3F) = c"
  proof (rule bit_word_eqI)
    fix n assume "n < LENGTH(16)"
    then have "n < 16" by simp
    from u16_cases [OF this]
    show "bit (push_bit 12 (ucast ((0xE0 OR ucast (drop_bit 12 c) :: u8) AND 0x0F)) OR
      push_bit 6 (drop_bit 6 c AND 0x3F) OR (c AND 0x3F)) n = bit c n"
      by (elim disjE) (simp_all add: bit_simps z)
  qed
qed

lemma above_0x80: "(0xC0 OR a :: u8) < 0x80 \<longleftrightarrow> False" "(0xE0 OR a :: u8) < 0x80 \<longleftrightarrow> False"
proof -
  have "0x80 \<le> (x :: u8)" if "bit x 7" for x
  proof (rule ccontr)
    assume "\<not> 0x80 \<le> x"
    then have "unat x < 128" by (simp add: word_le_nat_alt)
    then have "\<not> bit (unat x) 7" by (simp add: bit_iff_odd)
    then show False using that by (simp add: bit_unsigned_iff)
  qed
  moreover have "bit (0xC0 OR a :: u8) 7" "bit (0xE0 OR a :: u8) 7" by (simp_all add: bit_simps)
  ultimately show "(0xC0 OR a :: u8) < 0x80 \<longleftrightarrow> False" "(0xE0 OR a :: u8) < 0x80 \<longleftrightarrow> False"
    by (auto simp: not_less)
qed

lemma utf8_decode_unit: "utf8_decode (utf8_unit c @ bs) = map_option ((#) c) (utf8_decode bs)"
proof -
  consider "c \<le> 0x7F" | "\<not> c \<le> 0x7F" "c \<le> 0x7FF" | "\<not> c \<le> 0x7FF" by blast
  then show ?thesis
  proof cases
    case 1
    then have n: "unat c < 128" by (simp add: word_le_nat_alt)
    have "unat (ucast c :: u8) = unat c" using n by (simp add: unsigned_ucast_eq unsigned_take_bit_eq take_bit_nat_eq_self)
    then have "(ucast c :: u8) < 0x80" using n by (simp add: word_less_nat_alt)
    moreover have "ucast (ucast c :: u8) = c"
      using n by (simp add: word_unat_eq_iff unsigned_ucast_eq unsigned_take_bit_eq take_bit_nat_eq_self)
    ultimately show ?thesis using 1 by (simp add: utf8_unit_def)
  next
    case 2
    then have "0x80 \<le> c" by (simp add: word_le_nat_alt)
    then show ?thesis
      using 2 lead2 [OF 2(2)] by (simp add: utf8_unit_def above_0x80 cont_byte Let_def)
  next
    case 3
    then have "0x800 \<le> c" "\<not> c \<le> 0x7F" by (simp_all add: word_le_nat_alt)
    moreover have "(0xE0 :: u8) \<noteq> 0xC0" by simp
    ultimately show ?thesis
      using 3 lead3 [of c] cont_byte [of c] cont_byte [of "drop_bit 6 c"]
      by (simp add: utf8_unit_def above_0x80 Let_def)
  qed
qed

section \<open>The loop\<close>

lemma utf8_ascii_loop:
  "\<forall>u\<in>set us. u \<le> 0x7F \<Longrightarrow> i + length us \<le> limit \<Longrightarrow> i + length us \<le> length dst \<Longrightarrow>
   utf8_loop limit us i dst = Some (i + length us, take i dst @ map ucast us @ drop (i + length us) dst)"
proof (induction us arbitrary: i dst)
  case (Cons u us)
  let ?d = "take i dst @ [ucast u] @ drop (Suc i) dst"
  have "utf8_loop limit (u # us) i dst = utf8_loop limit us (Suc i) ?d"
    using Cons.prems by (simp add: utf8_unit_def)
  also have "\<dots> = Some (Suc i + length us,
      take (Suc i) ?d @ map ucast us @ drop (Suc i + length us) ?d)"
    using Cons.prems by (intro Cons.IH) simp_all
  also have "take (Suc i) ?d = take i dst @ [ucast u]" using Cons.prems by simp
  also have "drop (Suc i + length us) ?d = drop (i + length (u # us)) dst"
    using Cons.prems by (simp add: drop_drop add.commute)
  finally show ?case by simp
qed simp

lemma utf8_unit_length: "0 < length (utf8_unit c) \<and> length (utf8_unit c) \<le> 3"
  by (simp add: utf8_unit_def)

text \<open>Every write is inside a buffer that has three bytes more than the limit.\<close>

lemma utf8_loop_inside:
  assumes "limit + 3 \<le> length dst" and "i \<le> limit + 2"
  shows "\<exists>k out. utf8_loop limit us i dst = Some (k, out) \<and> i \<le> k \<and> k \<le> limit + 2 \<and>
    length out = length dst \<and> take i out = take i dst \<and>
    (\<exists>j\<le>length us. drop i (take k out) = concat (map utf8_unit (take j us)) \<and>
       (j = length us \<or> limit \<le> k))"
  using assms
proof (induction us arbitrary: i dst)
  case Nil
  then show ?case by simp
next
  case (Cons u us)
  show ?case
  proof (cases "limit \<le> i")
    case True
    then show ?thesis using Cons.prems by (intro exI [of _ i] exI [of _ dst]) auto
  next
    case False
    let ?n = "length (utf8_unit u)" and ?d = "take i dst @ utf8_unit u @ drop (i + length (utf8_unit u)) dst"
    have n: "0 < ?n" "?n \<le> 3" using utf8_unit_length [of u] by simp_all
    have b: "i + ?n \<le> length dst" "limit + 3 \<le> length ?d" "i + ?n \<le> limit + 2"
      using False Cons.prems n by simp_all
    obtain k out j where ih: "utf8_loop limit us (i + ?n) ?d = Some (k, out)" "i + ?n \<le> k" "k \<le> limit + 2"
      "length out = length ?d" "take (i + ?n) out = take (i + ?n) ?d" "j \<le> length us"
      "drop (i + ?n) (take k out) = concat (map utf8_unit (take j us))" "j = length us \<or> limit \<le> k"
      using Cons.IH [OF b(2,3)] by blast
    have pre: "take (i + ?n) ?d = take i dst @ utf8_unit u" using b by simp
    have "take i out = take i (take (i + ?n) out)" by simp
    then have ti: "take i out = take i dst" unfolding ih(5) pre using b by simp
    have "drop i (take k out) = drop i (take (i + ?n) (take k out)) @ drop (i + ?n) (take k out)"
      by (metis append_take_drop_id drop_append drop_drop le_add1 add.commute drop_take take_drop)
    also have "take (i + ?n) (take k out) = take i dst @ utf8_unit u"
      unfolding take_take min_absorb1 [OF ih(2)] ih(5) pre by (rule refl)
    also have "drop i (take i dst @ utf8_unit u) = utf8_unit u" using b by simp
    finally have "drop i (take k out) = concat (map utf8_unit (take (Suc j) (u # us)))"
      using ih(7) by simp
    moreover have "utf8_loop limit (u # us) i dst = Some (k, out)" using False b ih(1) by simp
    ultimately show ?thesis
      using ih ti b n by (intro exI [of _ k] exI [of _ out] conjI exI [of _ "Suc j"]) auto
  qed
qed

lemma utf8_decode_units: "utf8_decode (concat (map utf8_unit us)) = Some us"
  by (induction us) (simp_all add: utf8_decode_unit)

section \<open>Properties\<close>



end
