(* ===== verification/Ussd_Text.thy ===== *)
theory Ussd_Text
  imports Gsm_Text Utf8_Text Rcm_Header
begin

text \<open>
  USSD and network names: the alphabet tables, the data coding schemes, the decoders
  of \<^verbatim>\<open>sitril/util/util.cpp\<close>, and the USSD request of \<^verbatim>\<open>protocolcallbuilder.cpp\<close>
  with the indication that answers it.
\<close>

section \<open>The GSM default alphabet\<close>

text \<open>\<^verbatim>\<open>gsm0338_def_map.dat\<close>: the UCS2 value of the codes 0 to 127, in order.\<close>

definition Gsm7bitDefToUcs2 :: "u16 list" where
  "Gsm7bitDefToUcs2 =
  [64, 163, 36, 165, 232, 233, 249, 236, 242, 231, 10, 216, 248, 13, 197, 229,
   916, 95, 934, 915, 923, 937, 928, 936, 931, 920, 926, 160, 198, 230, 223, 201,
   32, 33, 34, 35, 164, 37, 38, 39, 40, 41, 42, 43, 44, 45, 46, 47,
   48, 49, 50, 51, 52, 53, 54, 55, 56, 57, 58, 59, 60, 61, 62, 63,
   161, 65, 66, 67, 68, 69, 70, 71, 72, 73, 74, 75, 76, 77, 78, 79,
   80, 81, 82, 83, 84, 85, 86, 87, 88, 89, 90, 196, 214, 209, 220, 167,
   191, 97, 98, 99, 100, 101, 102, 103, 104, 105, 106, 107, 108, 109, 110, 111,
   112, 113, 114, 115, 116, 117, 118, 119, 120, 121, 122, 228, 246, 241, 252, 224]"

definition gsm_default :: "u8 \<Rightarrow> u16 option" where
  "gsm_default c = (if unat c < 128 then Some (Gsm7bitDefToUcs2 ! unat c) else None)"

text \<open>\<^verbatim>\<open>gsm0338_ext_map.dat\<close>: the codes after an escape.\<close>

definition Gsm7bitExtToUcs2 :: "(u8 \<times> u16) list" where
  "Gsm7bitExtToUcs2 =
  [(0x0A, 0x000C), (0x14, 0x005E), (0x28, 0x007B), (0x29, 0x007D), (0x2F, 0x005C), (0x3C, 0x005B),
   (0x3D, 0x007E), (0x3E, 0x005D), (0x40, 0x007C), (0x65, 0x20AC)]"

definition ascii_to_gsm :: "u8 \<Rightarrow> u8 list" where
  "ascii_to_gsm c =
     (if c = 0x40 then [0x00] else if c = 0x24 then [0x02]
      else if c = 0x5E then [0x1B, 0x14] else if c = 0x7B then [0x1B, 0x28]
      else if c = 0x7D then [0x1B, 0x29] else if c = 0x5C then [0x1B, 0x2F]
      else if c = 0x5B then [0x1B, 0x3C] else if c = 0x7E then [0x1B, 0x3D]
      else if c = 0x5D then [0x1B, 0x3E] else if c = 0x7C then [0x1B, 0x40] else [c])"

definition convertAsciiToGsm7bitBasicCharSet :: "u8 list \<Rightarrow> u8 list \<Rightarrow> (nat \<times> u8 list) option" where
  "convertAsciiToGsm7bitBasicCharSet ascii gsm7 =
     (let out = concat (map ascii_to_gsm ascii)
      in do { gsm7 \<leftarrow> arr_blit gsm7 0 out; Some (length out, gsm7) })"

fun ConvertGsm7bitToUcs2 :: "u8 list \<Rightarrow> u16 list" where
  "ConvertGsm7bitToUcs2 [] = []"
| "ConvertGsm7bitToUcs2 (x # xs) =
     (if x = 0x1B \<and> xs \<noteq> [] then
        (case map_of Gsm7bitExtToUcs2 (hd xs) of
           Some u \<Rightarrow> u # ConvertGsm7bitToUcs2 (tl xs)
         | None \<Rightarrow> 0x0020 # ConvertGsm7bitToUcs2 xs)
      else (case gsm_default x of Some u \<Rightarrow> u | None \<Rightarrow> 0x0020) # ConvertGsm7bitToUcs2 xs)"

section \<open>The other conversions\<close>

definition Convert8bitdataToUTF8 :: "u8 list \<Rightarrow> nat \<Rightarrow> u8 list \<Rightarrow> nat \<Rightarrow> (nat \<times> u8 list) option" where
  "Convert8bitdataToUTF8 src len dst dst_size =
     (if len = 0 \<or> dst_size = 0 then Some (0, dst)
      else if dst_size > len then
        (if len \<le> length src then do { dst \<leftarrow> arr_blit dst 0 (take len src); Some (len, dst) } else None)
      else Some (0, dst))"

definition hex_digit :: "nat \<Rightarrow> u8" where
  "hex_digit n = (if n < 10 then 0x30 + word_of_nat n else 0x61 + word_of_nat n - 10)"

definition hex_pair :: "u8 \<Rightarrow> u8 list" where
  "hex_pair b = [hex_digit (unat b div 16), hex_digit (unat b mod 16)]"

definition ConvertToHexString :: "u8 list \<Rightarrow> nat \<Rightarrow> u8 list \<Rightarrow> nat \<Rightarrow> (nat \<times> u8 list) option" where
  "ConvertToHexString src len dst dst_size =
     (if len = 0 \<or> dst_size = 0 \<or> len * 2 \<ge> dst_size - 1 then Some (0, dst)
      else if len \<le> length src
      then do { dst \<leftarrow> arr_blit dst 0 (concat (map hex_pair (take len src))); Some (len * 2, dst) }
      else None)"

text \<open>Two octets, most significant first.\<close>

fun be_units :: "u8 list \<Rightarrow> u16 list" where
  "be_units (a # b # bs) = (push_bit 8 (ucast a) OR ucast b) # be_units bs"
| "be_units _ = []"

abbreviation MAX_USSD_DATA_LEN :: nat where "MAX_USSD_DATA_LEN \<equiv> 182"
abbreviation MAX_FULL_NAME_LEN :: nat where "MAX_FULL_NAME_LEN \<equiv> 64"

definition BeByteStream2LeUcs2 :: "u8 list \<Rightarrow> nat \<Rightarrow> u16 list option" where
  "BeByteStream2LeUcs2 src len =
     (if len = 0 \<or> len mod 2 \<noteq> 0 then Some []
      else if len \<le> length src \<and> len \<le> 2 * MAX_USSD_DATA_LEN then Some (be_units (take len src))
      else None)"

section \<open>Data coding schemes and USSD\<close>

datatype dcs_type =
    DCS_GSM7BIT_DA | DCS_8BIT_DATA | DCS_UCS2 | DCS_RESERVED | DCS_EUC_KR | DCS_GSM7BIT_DATA
  | DCS_UNSPECIFIED

definition dcs_alphabet :: "u8 \<Rightarrow> dcs_type \<Rightarrow> dcs_type" where
  "dcs_alphabet oct eight =
     (if oct AND 0x0C = 0x00 then DCS_GSM7BIT_DA
      else if oct AND 0x0C = 0x04 then eight
      else if oct AND 0x0C = 0x08 then DCS_UCS2 else DCS_RESERVED)"

definition GetUssdDcs :: "u8 \<Rightarrow> dcs_type" where
  "GetUssdDcs oct =
     (let g = oct AND 0xF0 in
      if g = 0x00 \<or> g = 0x20 \<or> g = 0x30 then DCS_GSM7BIT_DA
      else if g = 0x10 then
        (if oct AND 0x0F = 0x00 then DCS_GSM7BIT_DA
         else if oct AND 0x0F = 0x01 then DCS_UCS2 else DCS_RESERVED)
      else if g = 0x40 \<or> g = 0x50 \<or> g = 0x60 \<or> g = 0x70 then dcs_alphabet oct DCS_8BIT_DATA
      else if g = 0x80 then DCS_RESERVED
      else if g = 0x90 then dcs_alphabet oct DCS_EUC_KR
      else if g = 0xA0 \<or> g = 0xB0 \<or> g = 0xC0 then DCS_RESERVED
      else if g = 0xD0 \<or> g = 0xE0 then DCS_UNSPECIFIED
      else if oct AND 0x04 = 0x00 then DCS_GSM7BIT_DATA else DCS_8BIT_DATA)"

text \<open>
  \<open>src\<close> is the memory behind the source pointer, \<open>dst\<close> the destination buffer.  The local
  buffers \<^verbatim>\<open>Gsm7\<close> and \<^verbatim>\<open>Ucs2\<close> have 182 elements.
\<close>

definition DecodingUssd :: "u8 \<Rightarrow> u8 list \<Rightarrow> nat \<Rightarrow> u8 list \<Rightarrow> nat \<Rightarrow> (nat \<times> u8 list) option" where
  "DecodingUssd dcs src len dst dst_size =
     (case GetUssdDcs dcs of
        DCS_EUC_KR \<Rightarrow> ConvertToHexString src len dst dst_size
      | DCS_8BIT_DATA \<Rightarrow> Convert8bitdataToUTF8 src len dst dst_size
      | DCS_UCS2 \<Rightarrow> do { u \<leftarrow> BeByteStream2LeUcs2 src len; ConvertUcs2ToUtf8 u dst dst_size }
      | DCS_GSM7BIT_DATA \<Rightarrow> ConvertToHexString src len dst dst_size
      | DCS_UNSPECIFIED \<Rightarrow> Some (0, dst)
      | _ \<Rightarrow> do {
          (n, gsm7) \<leftarrow> unpacking_gsm7bit src len (replicate MAX_USSD_DATA_LEN 0);
          let ucs2 = ConvertGsm7bitToUcs2 (take n gsm7);
          ConvertUcs2ToUtf8 ucs2 dst dst_size })"

definition SIT_SEND_USSD :: int where "SIT_SEND_USSD = 0x0505"

text \<open>The request: header, type, coding scheme, length, and a fixed array.\<close>

definition BuildSendUssd :: "u8 list \<Rightarrow> bool \<Rightarrow> token_gen \<Rightarrow> (modem_raw \<times> token_gen) option" where
  "BuildSendUssd ussd user_initiated g = do {
     let (hdr, g') = InitRequestHeader_length SIT_SEND_USSD (int (RCM_HEADER_SIZE + 3 + MAX_USSD_DATA_LEN)) g;
     (n, gsm7) \<leftarrow> convertAsciiToGsm7bitBasicCharSet ussd (replicate MAX_USSD_DATA_LEN 0);
     (m, enc) \<leftarrow> packing_gsm7bit gsm7 n (replicate MAX_USSD_DATA_LEN 0);
     let m = min m MAX_USSD_DATA_LEN;
     field \<leftarrow> arr_blit (replicate MAX_USSD_DATA_LEN 0) 0 (take m enc);
     Some (md_new (rcm_bytes hdr @ [if user_initiated then 0 else 1, 0x0F, word_of_nat m] @ field) True, g') }"

text \<open>
  The indication has the same three fields after its own header.  \<open>None\<close> in the middle is the
  read of a field outside the data.
\<close>

definition GetDecodedUssd :: "modem_raw \<Rightarrow> nat \<Rightarrow> u8 list \<Rightarrow> nat \<Rightarrow> (nat \<times> u8 list) option" where
  "GetDecodedUssd m hdr dst buf_size = do {
     dcs \<leftarrow> arr_get (mr_data m) (hdr + 1);
     len \<leftarrow> arr_get (mr_data m) (hdr + 2);
     DecodingUssd dcs (drop (hdr + 3) (mr_data m)) (unat len) dst buf_size }"

section \<open>Network names\<close>

text \<open>
  \<open>junk\<close> is what the second half of the local UCS2 buffer holds: only its first 64 of 128 bytes
  are cleared.  The units are read in the byte order of the machine, little endian.
\<close>

fun le_units :: "u8 list \<Rightarrow> u16 list" where
  "le_units (a # b # bs) = (ucast a OR push_bit 8 (ucast b)) # le_units bs"
| "le_units _ = []"

definition DecodingNetworkNameFromSIM ::
  "u8 list \<Rightarrow> nat \<Rightarrow> u8 list \<Rightarrow> int \<Rightarrow> int \<Rightarrow> u8 list \<Rightarrow> nat \<Rightarrow> (int \<times> u8 list) option" where
  "DecodingNetworkNameFromSIM junk type src srcLen countSeptets dst dstLen =
     (if srcLen < 0 then Some (0, dst)
      else if type = 0 then do {
        (n, dst) \<leftarrow> unpacking_gsm7bit src (nat srcLen) dst;
        if int n > countSeptets
        then (if countSeptets < 0 then None
              else do { dst \<leftarrow> arr_set dst (nat countSeptets) 0; Some (countSeptets, dst) })
        else Some (int n, dst) }
      else if type = 1 then do {
        let n = min (MAX_FULL_NAME_LEN - 1) (nat srcLen);
        buf \<leftarrow> (if n \<le> length src then arr_blit (replicate 64 0 @ junk) 0 (take n src) else None);
        (k, dst) \<leftarrow> ConvertUcs2ToUtf8 (take n (le_units buf)) dst dstLen;
        Some (int k, dst) }
      else Some (0, dst))"

section \<open>Characters that survive the way to the network and back\<close>

text \<open>
  Line feed, carriage return and the printable ASCII characters except the underscore and the grave
  accent, whose codes mean other characters in the GSM alphabet and which are not converted.
\<close>

definition gsm_safe :: "u8 \<Rightarrow> bool" where
  "gsm_safe c \<longleftrightarrow> c = 0x0A \<or> c = 0x0D \<or> 0x20 \<le> c \<and> c \<le> 0x7E \<and> c \<noteq> 0x5F \<and> c \<noteq> 0x60"

definition gsm_char_ok :: "u8 \<Rightarrow> bool" where
  "gsm_char_ok c \<longleftrightarrow>
     (case ascii_to_gsm c of
        [x] \<Rightarrow> x \<noteq> 0x1B \<and> gsm_default x = Some (ucast c)
      | [x, y] \<Rightarrow> x = 0x1B \<and> map_of Gsm7bitExtToUcs2 y = Some (ucast c)
      | _ \<Rightarrow> False) \<and>
     list_all septet (ascii_to_gsm c) \<and> (ucast c :: u16) \<le> 0x7F"

lemma all_u8:
  assumes "list_all (\<lambda>n. P (word_of_nat n :: u8)) [0..<256]"
  shows "P c"
proof -
  have "unat c < 256" using unsigned_less [of c, where ?'a = nat] by simp
  then have "unat c \<in> set [0..<256]" by simp
  from bspec [OF assms [unfolded list_all_iff] this] show ?thesis by simp
qed

lemma gsm_safe_ok: "gsm_safe c \<Longrightarrow> gsm_char_ok c"
proof -
  have "list_all (\<lambda>n. gsm_safe (word_of_nat n) \<longrightarrow> gsm_char_ok (word_of_nat n)) [0..<256]"
    by code_simp
  then show "gsm_safe c \<Longrightarrow> gsm_char_ok c" using all_u8 [of "\<lambda>c. gsm_safe c \<longrightarrow> gsm_char_ok c" c] by simp
qed

lemma ucs2_of_char:
  assumes "gsm_char_ok c"
  shows "ConvertGsm7bitToUcs2 (ascii_to_gsm c @ xs) = ucast c # ConvertGsm7bitToUcs2 xs"
proof -
  have shape: "(\<exists>x. ascii_to_gsm c = [x] \<and> x \<noteq> 0x1B \<and> gsm_default x = Some (ucast c)) \<or>
      (\<exists>y. ascii_to_gsm c = [0x1B, y] \<and> map_of Gsm7bitExtToUcs2 y = Some (ucast c))"
    using assms unfolding gsm_char_ok_def by (auto split: list.splits)
  then show ?thesis by auto
qed

lemma ucs2_of_text:
  "\<forall>c\<in>set s. gsm_char_ok c \<Longrightarrow>
   ConvertGsm7bitToUcs2 (concat (map ascii_to_gsm s) @ xs) = map ucast s @ ConvertGsm7bitToUcs2 xs"
  by (induction s) (simp_all add: ucs2_of_char)

text \<open>The conversion of a whole string into the local buffer, and the packing of it.\<close>

lemma septets_of_text: "\<forall>c\<in>set s. gsm_char_ok c \<Longrightarrow> \<forall>x\<in>set (concat (map ascii_to_gsm s)). septet x"
  by (auto simp: gsm_char_ok_def list_all_iff)

lemma ussd_pack:
  assumes "\<forall>c\<in>set s. gsm_char_ok c"
  defines "g \<equiv> concat (map ascii_to_gsm s)"
  assumes "length g < MAX_USSD_DATA_LEN"
  shows "\<exists>enc. convertAsciiToGsm7bitBasicCharSet s (replicate MAX_USSD_DATA_LEN 0) =
      Some (length g, g @ replicate (MAX_USSD_DATA_LEN - length g) 0) \<and>
    packing_gsm7bit (g @ replicate (MAX_USSD_DATA_LEN - length g) 0) (length g)
      (replicate MAX_USSD_DATA_LEN 0) = Some ((7 * length g + 7) div 8, enc) \<and>
    length enc = MAX_USSD_DATA_LEN \<and>
    (\<forall>p. octet_bit (take ((7 * length g + 7) div 8) enc) p \<longleftrightarrow> septet_bit (padded g) p)"
proof -
  let ?src = "g @ replicate (MAX_USSD_DATA_LEN - length g) 0"
  have conv: "convertAsciiToGsm7bitBasicCharSet s (replicate MAX_USSD_DATA_LEN 0) = Some (length g, ?src)"
    using assms(3) unfolding convertAsciiToGsm7bitBasicCharSet_def g_def [symmetric] Let_def by simp
  have "pack_count (length g) \<le> MAX_USSD_DATA_LEN"
    using assms(3) unfolding pack_count_def by auto
  then have fits: "pack_fits ?src (length g) (replicate MAX_USSD_DATA_LEN 0)"
    using assms(3) unfolding pack_fits_def by simp
  have sep: "\<forall>x\<in>set (take (length g) ?src). septet x"
    using septets_of_text [OF assms(1)] by (simp add: g_def)
  from packing_bits [OF fits sep] conv show ?thesis by simp
qed

section \<open>Properties\<close>



text \<open>
  The local buffer for the unpacked septets has 182 elements.  A message in the GSM alphabet of
  160 octets or more, which is what 182 characters take, is unpacked beyond its end; shorter ones are
  decoded without leaving any buffer.
\<close>

theorem ussd_gsm_buffer_overflow:
  assumes "GetUssdDcs dcs = DCS_GSM7BIT_DA \<or> GetUssdDcs dcs = DCS_RESERVED" and "len \<le> length src"
    and "3 \<le> dst_size" and "dst_size \<le> length dst"
  shows "DecodingUssd dcs src len dst dst_size = None \<longleftrightarrow> 160 \<le> len"
proof (cases "160 \<le> len")
  case True
  have "unpacking_gsm7bit src len (replicate MAX_USSD_DATA_LEN 0) = None"
    using True by (intro unpacking_overflow [of 159]) simp_all
  then show ?thesis using assms(1) True by (auto simp: DecodingUssd_def)
next
  case False
  have "\<forall>i<len. pack_src i + 1 < length (replicate MAX_USSD_DATA_LEN (0 :: u8))"
  proof (intro allI impI)
    fix i assume "i < len"
    then have "pack_src i \<le> pack_src 158" using False by (intro pack_src_mono) simp
    then show "pack_src i + 1 < length (replicate MAX_USSD_DATA_LEN (0 :: u8))" by simp
  qed
  then obtain n d where d: "unpacking_gsm7bit src len (replicate MAX_USSD_DATA_LEN 0) = Some (n, d)"
    using unpacking_eq [OF assms(2)] by (metis in_set_replicate)
  have "utf8_loop (utf8_limit dst_size) u 0 dst \<noteq> None" for u
    using utf8_loop_inside [of "utf8_limit dst_size" dst 0 u] assms(3,4) by (auto simp: utf8_limit_def)
  then show ?thesis using assms(1) False d by (auto simp: DecodingUssd_def ConvertUcs2ToUtf8_def)
qed

theorem ussd_gsm_buffer_overflow_witness:
  "DecodingUssd 0x0F (replicate 160 0) 160 (replicate 255 0) 255 = None"
proof -
  have "GetUssdDcs 0x0F = DCS_GSM7BIT_DA \<or> GetUssdDcs 0x0F = DCS_RESERVED" by code_simp
  from ussd_gsm_buffer_overflow [OF this, of 160 "replicate 160 0" 255 "replicate 255 0"] show ?thesis
    by simp
qed

end
