(* ===== verification/Hex_Text.thy ===== *)
theory Hex_Text
  imports Ril_Prelude
begin

text \<open>
  The hexadecimal, BCD and Base64 conversions of \<^verbatim>\<open>sitril/util/util.cpp\<close>.  A C string
  is the list of its characters without the terminating zero; a buffer is a list of octets, and an
  access outside it is \<open>None\<close>.  \<^verbatim>\<open>char\<close> is unsigned, as on the ARM targets of the code.
\<close>

section \<open>Digits\<close>

definition HEX_CHARS :: "u8 list" where
  "HEX_CHARS = [0x30, 0x31, 0x32, 0x33, 0x34, 0x35, 0x36, 0x37, 0x38, 0x39,
     0x41, 0x42, 0x43, 0x44, 0x45, 0x46]"

text \<open>What the format \<^verbatim>\<open>%02X\<close> prints.\<close>

definition hex2 :: "u8 \<Rightarrow> u8 list" where
  "hex2 b = [HEX_CHARS ! (unat b div 16), HEX_CHARS ! (unat b mod 16)]"

definition hexdump :: "u8 list \<Rightarrow> u8 list" where
  "hexdump xs = concat (map hex2 xs)"

text \<open>\<^verbatim>\<open>HexCharToInt\<close> takes what is not a digit for zero, \<^verbatim>\<open>HexChar2Value\<close> for -1.\<close>

definition HexChar2Value :: "u8 \<Rightarrow> int" where
  "HexChar2Value c =
     (if 0x30 \<le> c \<and> c \<le> 0x39 then uint c - 0x30
      else if 0x61 \<le> c \<and> c \<le> 0x66 then uint c - 0x61 + 10
      else if 0x41 \<le> c \<and> c \<le> 0x46 then uint c - 0x41 + 10 else -1)"

definition HexCharToInt :: "u8 \<Rightarrow> u8" where
  "HexCharToInt c =
     (if 0x30 \<le> c \<and> c \<le> 0x39 then c - 0x30
      else if 0x41 \<le> c \<and> c \<le> 0x46 then c - 0x41 + 10
      else if 0x61 \<le> c \<and> c \<le> 0x66 then c - 0x61 + 10 else 0)"

definition is_hex :: "u8 \<Rightarrow> bool" where
  "is_hex c \<longleftrightarrow> HexChar2Value c \<noteq> -1"

section \<open>Octets to digits\<close>

text \<open>
  \<^verbatim>\<open>snprintf(buf + off, size, ...)\<close> writes at most \<open>size - 1\<close> characters and a zero, and
  returns the length of the whole text.
\<close>

definition snprintf_at :: "u8 list \<Rightarrow> nat \<Rightarrow> nat \<Rightarrow> u8 list \<Rightarrow> (nat \<times> u8 list) option" where
  "snprintf_at buf off sz txt =
     (if sz = 0 then Some (length txt, buf)
      else do { buf \<leftarrow> arr_blit buf off (take (sz - 1) txt @ [0]); Some (length txt, buf) })"

definition cstring :: "u8 list \<Rightarrow> u8 list" where
  "cstring buf = takeWhile (\<lambda>c. c \<noteq> 0) buf"

fun tohex_loop :: "nat \<Rightarrow> u8 list \<Rightarrow> nat \<Rightarrow> u8 list \<Rightarrow> u8 list option" where
  "tohex_loop buflen [] n hex = Some hex"
| "tohex_loop buflen (x # xs) n hex =
     (case snprintf_at hex n (buflen - n) (hex2 x) of
        None \<Rightarrow> None | Some (k, hex) \<Rightarrow> tohex_loop buflen xs (n + k) hex)"

text \<open>The variant of \<^verbatim>\<open>ConvertToHexString\<close> that allocates its result.\<close>

definition ConvertToHexString_new :: "u8 list \<Rightarrow> u8 list option" where
  "ConvertToHexString_new xs =
     tohex_loop (2 * length xs) xs 0 (replicate (2 * length xs + 1) 0)"

text \<open>\<^verbatim>\<open>Value2HexString\<close>: the size given to \<^verbatim>\<open>snprintf\<close> is always 3.\<close>

fun value_loop :: "u8 list \<Rightarrow> nat \<Rightarrow> u8 list \<Rightarrow> (nat \<times> u8 list) option" where
  "value_loop [] off out = do { out \<leftarrow> arr_set out off 0; Some (off, out) }"
| "value_loop (x # xs) off out =
     (case snprintf_at out off 3 (hex2 x) of
        None \<Rightarrow> None | Some (k, out) \<Rightarrow> value_loop xs (off + k) out)"

definition Value2HexString :: "u8 list \<Rightarrow> u8 list \<Rightarrow> nat \<Rightarrow> (int \<times> u8 list) option" where
  "Value2HexString out value n =
     (if n > 0 then
        (if n \<le> length value
         then map_option (\<lambda>(k, out). (int k, out)) (value_loop (take n value) 0 out) else None)
      else Some (-1, out))"

section \<open>Digits to octets\<close>

text \<open>\<open>pDst\<close> is the index of the octet the next digit belongs to.\<close>

fun hexvalue_loop :: "u8 list \<Rightarrow> nat \<Rightarrow> nat \<Rightarrow> u8 list \<Rightarrow> (nat \<times> u8 list) option" where
  "hexvalue_loop [] i d out = Some (if i \<noteq> 0 \<and> i mod 2 = 1 then d + 1 else d, out)"
| "hexvalue_loop (c # cs) i d out =
     (if i mod 2 = 0 then do {
        out \<leftarrow> arr_set out d (push_bit 4 (word_of_int (HexChar2Value c)) AND 0xF0);
        hexvalue_loop cs (i + 1) d out }
      else do {
        x \<leftarrow> arr_get out d;
        out \<leftarrow> arr_set out d (x OR (word_of_int (HexChar2Value c) AND 0x0F));
        hexvalue_loop cs (i + 1) (d + 1) out })"

definition HexString2Value :: "u8 list \<Rightarrow> u8 list \<Rightarrow> (nat \<times> u8 list) option" where
  "HexString2Value out s = hexvalue_loop s 0 0 out"

text \<open>The terminating zero is the second digit of the last octet of a string of odd length.\<close>

fun raw_loop :: "u8 list \<Rightarrow> nat \<Rightarrow> u8 list \<Rightarrow> u8 list option" where
  "raw_loop [] d out = Some out"
| "raw_loop [c] d out = arr_set out d (push_bit 4 (HexCharToInt c) OR HexCharToInt 0)"
| "raw_loop (c # c' # cs) d out = do {
     out \<leftarrow> arr_set out d (push_bit 4 (HexCharToInt c) OR HexCharToInt c');
     raw_loop cs (d + 1) out }"

definition ConvertToRaw :: "u8 list \<Rightarrow> u8 list \<Rightarrow> (nat \<times> u8 list) option" where
  "ConvertToRaw s out = do { out \<leftarrow> raw_loop s 0 out; Some (length s div 2, out) }"

definition ConvertToRaw_sized :: "u8 list \<Rightarrow> u8 list \<Rightarrow> int \<Rightarrow> (nat \<times> u8 list) option" where
  "ConvertToRaw_sized s out sz =
     (if s = [] \<or> sz \<le> 0 then Some (0, out)
      else if length s mod 2 \<noteq> 0 \<or> int (length s div 2) > sz then Some (0, out)
      else do { out \<leftarrow> raw_loop s 0 out; Some (length s div 2, out) })"

section \<open>BCD\<close>

text \<open>The low nibble comes first; a filler in the high nibble is skipped, anything else ends the string.\<close>

fun bcdToString :: "u8 list \<Rightarrow> u8 list" where
  "bcdToString [] = []"
| "bcdToString (x # xs) =
     (let v = x AND 0xF; w = drop_bit 4 x AND 0xF in
      if v > 9 then []
      else (0x30 + v) # (if w = 0xF then bcdToString xs
                         else if w > 9 then [] else (0x30 + w) # bcdToString xs))"

definition bchToString :: "u8 list \<Rightarrow> u8 list" where
  "bchToString xs = concat (map (\<lambda>x. [HEX_CHARS ! (unat x mod 16), HEX_CHARS ! (unat x div 16)]) xs)"

text \<open>
  \<^verbatim>\<open>GetSimOperatorNumericGsm\<close> and \<^verbatim>\<open>GetSimSpn\<close> split a system property of the form
  "first,second"; \<open>prop\<close> is its value and \<open>dual\<close> tells whether the second socket is compiled in.
\<close>

definition sim_property :: "bool \<Rightarrow> u8 list \<Rightarrow> int \<Rightarrow> u8 list" where
  "sim_property dual prop phoneId =
     (if phoneId \<ge> 0 \<and> prop \<noteq> [] then
        (let first = takeWhile (\<lambda>c. c \<noteq> 0x2C) prop; rest = dropWhile (\<lambda>c. c \<noteq> 0x2C) prop
         in if phoneId = 0 then first
            else if dual \<and> phoneId = 1 then drop 1 rest else [])
      else [])"

definition GetSimOperatorNumericGsm :: "bool \<Rightarrow> u8 list \<Rightarrow> int \<Rightarrow> u8 list" where
  "GetSimOperatorNumericGsm dual prop phoneId = sim_property dual prop phoneId"

definition GetSimSpn :: "bool \<Rightarrow> u8 list \<Rightarrow> int \<Rightarrow> u8 list" where
  "GetSimSpn dual prop phoneId = sim_property dual prop phoneId"

definition IsPlmnMatchedSimPlmn :: "bool \<Rightarrow> u8 list \<Rightarrow> u8 list \<Rightarrow> int \<Rightarrow> bool" where
  "IsPlmnMatchedSimPlmn dual prop carrier phoneId \<longleftrightarrow> carrier = GetSimOperatorNumericGsm dual prop phoneId"

section \<open>Base64\<close>

definition Base64EncodeTable :: "u8 list" where
  "Base64EncodeTable =
    [0x41, 0x42, 0x43, 0x44, 0x45, 0x46, 0x47, 0x48, 0x49, 0x4A, 0x4B, 0x4C, 0x4D, 0x4E, 0x4F, 0x50,
     0x51, 0x52, 0x53, 0x54, 0x55, 0x56, 0x57, 0x58, 0x59, 0x5A,
     0x61, 0x62, 0x63, 0x64, 0x65, 0x66, 0x67, 0x68, 0x69, 0x6A, 0x6B, 0x6C, 0x6D, 0x6E, 0x6F, 0x70,
     0x71, 0x72, 0x73, 0x74, 0x75, 0x76, 0x77, 0x78, 0x79, 0x7A,
     0x30, 0x31, 0x32, 0x33, 0x34, 0x35, 0x36, 0x37, 0x38, 0x39, 0x2B, 0x2F]"

abbreviation b64 :: "u8 \<Rightarrow> u8" where "b64 x \<equiv> Base64EncodeTable ! unat x"

definition b64_1 :: "u8 \<Rightarrow> u8" where "b64_1 a = drop_bit 2 a"
definition b64_2 :: "u8 \<Rightarrow> u8 \<Rightarrow> u8" where "b64_2 a b = push_bit 4 (a AND 0x03) OR drop_bit 4 b"
definition b64_3 :: "u8 \<Rightarrow> u8 \<Rightarrow> u8" where "b64_3 b c = push_bit 2 (b AND 0x0F) OR drop_bit 6 c"
definition b64_4 :: "u8 \<Rightarrow> u8" where "b64_4 c = c AND 0x3F"

text \<open>The loop runs while more than three octets are left; it yields the output and what is left.\<close>

fun b64_loop :: "u8 list \<Rightarrow> u8 list \<times> u8 list" where
  "b64_loop (a # b # c # d # xs) =
     (let (out, rest) = b64_loop (d # xs)
      in ([b64 (b64_1 a), b64 (b64_2 a b), b64 (b64_3 b c), b64 (b64_4 c)] @ out, rest))"
| "b64_loop xs = ([], xs)"

definition Base64_Encode :: "u8 list \<Rightarrow> u8 list option" where
  "Base64_Encode src = do {
     let n = length src;
     let total = 4 * (n div 3) + (if n mod 3 \<noteq> 0 then 4 else 0);
     let (out, rest) = b64_loop src;
     out \<leftarrow> (if n mod 3 = 1 then do {
               a \<leftarrow> arr_get rest 0;
               Some (out @ [b64 (b64_1 a), b64 (push_bit 4 (a AND 0x03))]) }
             else if n mod 3 = 2 then do {
               a \<leftarrow> arr_get rest 0;
               b \<leftarrow> arr_get rest 1;
               Some (out @ [b64 (b64_1 a), b64 (b64_2 a b), b64 (push_bit 2 (b AND 0x0F))]) }
             else Some out);
     if length out \<le> total then Some (out @ replicate (total - length out) 0x3D) else None }"

text \<open>The decoding table; the codes that do not occur in Base64 are -1.\<close>

definition Base64DecodeTable :: "u8 \<Rightarrow> int" where
  "Base64DecodeTable c =
     (if c = 0x2B then 62 else if c = 0x2F then 63
      else if 0x30 \<le> c \<and> c \<le> 0x39 then uint c - 0x30 + 52
      else if 0x41 \<le> c \<and> c \<le> 0x5A then uint c - 0x41
      else if 0x61 \<le> c \<and> c \<le> 0x7A then uint c - 0x61 + 26 else -1)"

definition b64_combine :: "nat \<Rightarrow> u8 \<Rightarrow> u8 \<Rightarrow> u8" where
  "b64_combine k p v =
     (if k = 1 then push_bit 2 (p AND 0x3F) OR drop_bit 4 (v AND 0x30)
      else if k = 2 then push_bit 4 (p AND 0x0F) OR drop_bit 2 (v AND 0x3C)
      else push_bit 6 (p AND 0x03) OR (v AND 0x3F))"

fun b64_decode_loop :: "int \<Rightarrow> u8 list \<Rightarrow> nat \<Rightarrow> u8 \<Rightarrow> nat \<Rightarrow> u8 list \<Rightarrow> (nat \<times> u8 list) option" where
  "b64_decode_loop n [] i p d out = Some (d, out)"
| "b64_decode_loop n (c # cs) i p d out =
     (let v = Base64DecodeTable c in
      if v \<noteq> -1 then
        (if i \<noteq> 0 \<and> i mod 4 > 0 \<and> int d < n then do {
           out \<leftarrow> arr_set out d (b64_combine (i mod 4) p (word_of_int v));
           b64_decode_loop n cs (i + 1) (word_of_int v) (d + 1) out }
         else b64_decode_loop n cs (i + 1) (word_of_int v) d out)
      else b64_decode_loop n cs (i + 1) p d out)"

text \<open>
  The size of the buffer is \<open>nLength + 1\<close>; a negative size is an error of \<^verbatim>\<open>new\<close>, and the
  last line writes at \<open>nLength\<close>, which is outside when it is negative.
\<close>

definition Base64_Decode :: "u8 list \<Rightarrow> (int \<times> u8 list) option" where
  "Base64_Decode s =
     (let n = 3 * int (length s div 4) - int (length (filter (\<lambda>c. c = 0x3D) s)) in
      if n + 1 < 0 then None
      else do {
        (d, out) \<leftarrow> b64_decode_loop n s 0 0 0 (replicate (nat (n + 1)) 0);
        if n < 0 then None else do { out \<leftarrow> arr_set out (nat n) 0; Some (n, out) } })"

section \<open>Hexadecimal text\<close>

lemma hex_chars_nth: "n < 16 \<Longrightarrow> HexChar2Value (HEX_CHARS ! n) = int n \<and> HEX_CHARS ! n \<noteq> 0"
proof -
  have "list_all (\<lambda>n. HexChar2Value (HEX_CHARS ! n) = int n \<and> HEX_CHARS ! n \<noteq> 0) [0..<16]" by code_simp
  then show "n < 16 \<Longrightarrow> ?thesis" by (simp add: list_all_iff)
qed

lemma nibbles: "unat (b :: u8) div 16 < 16" "unat b mod 16 < 16"
  using unsigned_less [of b, where ?'a = nat] by simp_all

lemma hex2_nonzero: "0 \<notin> set (hex2 b)"
  using hex_chars_nth [OF nibbles(1) [of b]] hex_chars_nth [OF nibbles(2) [of b]] by (auto simp: hex2_def)

lemma hexdump_nonzero: "0 \<notin> set (hexdump xs)"
  using hex2_nonzero by (auto simp: hexdump_def)

lemma length_hex2 [simp]: "length (hex2 b) = 2"
  by (simp add: hex2_def)

lemma length_hexdump [simp]: "length (hexdump xs) = 2 * length xs"
  by (induction xs) (simp_all add: hexdump_def)

lemma hexdump_Cons: "hexdump (x # xs) = hex2 x @ hexdump xs"
  by (simp add: hexdump_def)

lemma cstring_text: "0 \<notin> set t \<Longrightarrow> cstring (t @ 0 # rest) = t"
  by (simp add: cstring_def takeWhile_append2 takeWhile_tail) (metis takeWhile_eq_all_conv)

lemma byte_of_nibbles:
  "push_bit 4 (word_of_nat (unat b div 16)) AND 0xF0 OR (word_of_nat (unat b mod 16) AND 0x0F) = (b :: u8)"
proof -
  have h: "word_of_nat (unat b div 16) = drop_bit 4 b"
    using nibbles(1) [of b] by (simp add: word_unat_eq_iff unat_drop_bit_eq drop_bit_eq_div unat_of_nat unat_div_distrib)
  have l: "word_of_nat (unat b mod 16) = take_bit 4 b"
    using nibbles(2) [of b]
    by (simp add: word_unat_eq_iff unat_of_nat unsigned_take_bit_eq take_bit_eq_mod unat_mod_distrib)
  show ?thesis unfolding h l by (rule byte_eqI) (simp_all add: bit_simps)
qed

text \<open>The digits are written one pair after another; the zero of each pair is overwritten by the next.\<close>

lemma value_loop_text:
  "off = length pre \<Longrightarrow> 2 * length xs + 1 \<le> length z \<Longrightarrow>
   \<exists>z'. value_loop xs off (pre @ z) = Some (off + 2 * length xs, pre @ hexdump xs @ 0 # z')"
proof (induction xs arbitrary: off pre z)
  case Nil
  then obtain y z' where "z = y # z'" by (cases z) auto
  then show ?case using Nil by (simp add: hexdump_def)
next
  case (Cons x xs)
  obtain z' where z: "arr_blit (pre @ z) off (hex2 x @ [0]) = Some (pre @ hex2 x @ 0 # z')"
    "length z' + 3 = length z"
  proof
    show "arr_blit (pre @ z) off (hex2 x @ [0]) = Some (pre @ hex2 x @ 0 # drop 3 z)"
      using Cons.prems by simp
    show "length (drop 3 z) + 3 = length z" using Cons.prems by simp
  qed
  have "\<exists>w. value_loop xs (off + 2) ((pre @ hex2 x) @ 0 # z') =
      Some (off + 2 + 2 * length xs, (pre @ hex2 x) @ hexdump xs @ 0 # w)"
    using Cons.prems z(2) by (intro Cons.IH) simp_all
  then show ?case
    using z(1) by (simp add: snprintf_at_def hexdump_Cons)
qed

lemma Value2HexString_text:
  assumes "xs \<noteq> []" and "2 * length xs < length out"
  shows "\<exists>z. Value2HexString out xs (length xs) = Some (2 * int (length xs), hexdump xs @ 0 # z)"
  using value_loop_text [of 0 "[]" xs out] assms by (auto simp: Value2HexString_def)

lemma hexvalue_loop_text:
  assumes "length xs \<le> length z"
  shows "hexvalue_loop (hexdump xs) (2 * length pre) (length pre) (pre @ z) =
    Some (length pre + length xs, pre @ xs @ drop (length xs) z)"
  using assms
proof (induction xs arbitrary: pre z)
  case Nil
  then show ?case by (simp add: hexdump_def)
next
  case (Cons x xs)
  then obtain y z' where z: "z = y # z'" by (cases z) auto
  note d = hex_chars_nth [OF nibbles(1) [of x]] hex_chars_nth [OF nibbles(2) [of x]]
  have "hexvalue_loop (hexdump xs) (2 * length (pre @ [x])) (length (pre @ [x])) ((pre @ [x]) @ z') =
    Some (length (pre @ [x]) + length xs, (pre @ [x]) @ xs @ drop (length xs) z')"
    using Cons.prems z by (intro Cons.IH) simp
  then show ?case
    using byte_of_nibbles [of x] d
    by (simp add: hexdump_Cons hex2_def z nth_append list_update_append)
qed

lemma value_hex_round_trip:
  assumes "xs \<noteq> []" and "2 * length xs < length out" and "length xs \<le> length dst"
  shows "\<exists>text. Value2HexString out xs (length xs) = Some (2 * int (length xs), text) \<and>
    HexString2Value dst (cstring text) = Some (length xs, xs @ drop (length xs) dst)"
proof -
  obtain z where z: "Value2HexString out xs (length xs) = Some (2 * int (length xs), hexdump xs @ 0 # z)"
    using Value2HexString_text [OF assms(1,2)] by blast
  have "HexString2Value dst (hexdump xs) = Some (length xs, xs @ drop (length xs) dst)"
    using hexvalue_loop_text [OF assms(3), of "[]"] by (simp add: HexString2Value_def)
  then show ?thesis using z cstring_text [OF hexdump_nonzero] by auto
qed

text \<open>
  The variant that allocates its result passes the room that is left without the zero, so that the last
  digit has no room.
\<close>

lemma tohex_loop_text:
  assumes "off = length pre" and "length z = 2 * length xs + 1" and "\<forall>c\<in>set z. c = 0" and "xs \<noteq> []"
  shows "tohex_loop (off + 2 * length xs) xs off (pre @ z) = Some (pre @ butlast (hexdump xs) @ [0, 0])"
  using assms
proof (induction xs arbitrary: off pre z)
  case (Cons x xs)
  obtain a b where h: "hex2 x = [a, b]" by (simp add: hex2_def)
  show ?case
  proof (cases "xs = []")
    case True
    with Cons.prems obtain p q r where "z = [p, q, r]" by (auto simp: numeral_3_eq_3 length_Suc_conv)
    then show ?thesis using Cons.prems True by (simp add: snprintf_at_def hexdump_def h)
  next
    case False
    then have l: "3 \<le> 2 * length (x # xs)" "length (hexdump xs) > 0" by (cases xs; simp)+
    then have blit: "snprintf_at (pre @ z) off (2 * length (x # xs)) (hex2 x) =
        Some (2, (pre @ hex2 x) @ 0 # drop 3 z)"
      using Cons.prems by (simp add: snprintf_at_def h numeral_3_eq_3)
    have "tohex_loop (off + 2 + 2 * length xs) xs (off + 2) ((pre @ hex2 x) @ 0 # drop 3 z) =
        Some ((pre @ hex2 x) @ butlast (hexdump xs) @ [0, 0])"
      using Cons.prems False by (intro Cons.IH) (auto dest: in_set_dropD)
    moreover have "butlast (hexdump (x # xs)) = hex2 x @ butlast (hexdump xs)"
      using l(2) by (simp add: hexdump_Cons butlast_append del: length_hexdump)
    ultimately show ?thesis using blit by simp
  qed
qed simp

lemma ConvertToHexString_new_drops_digit:
  assumes "xs \<noteq> []"
  shows "ConvertToHexString_new xs = Some (butlast (hexdump xs) @ [0, 0])"
    and "cstring (butlast (hexdump xs) @ [0, 0]) = butlast (hexdump xs)"
proof -
  show "ConvertToHexString_new xs = Some (butlast (hexdump xs) @ [0, 0])"
    using tohex_loop_text [of 0 "[]" "replicate (2 * length xs + 1) 0" xs] assms
    by (simp add: ConvertToHexString_new_def)
  have "0 \<notin> set (butlast (hexdump xs))" using hexdump_nonzero by (meson in_set_butlastD)
  then show "cstring (butlast (hexdump xs) @ [0, 0]) = butlast (hexdump xs)"
    using cstring_text by blast
qed

section \<open>Base64 text\<close>

lemma b64_table:
  assumes "x < 64"
  shows "Base64DecodeTable (b64 x) = uint x" and "b64 x \<noteq> 0x3D"
proof -
  have "list_all (\<lambda>n. Base64DecodeTable (Base64EncodeTable ! n) = int n) [0..<64]" by code_simp
  moreover have "unat x < 64" using assms by (simp add: word_less_nat_alt)
  ultimately show "Base64DecodeTable (b64 x) = uint x" by (simp add: list_all_iff)
  moreover have "Base64DecodeTable 0x3D = -1" by code_simp
  ultimately show "b64 x \<noteq> 0x3D" by (metis uint_nonnegative neg_0_le_iff_le not_one_le_zero)
qed

lemma b64_small: "b64_1 a < 64" "b64_2 a b < 64" "b64_3 b c < 64" "b64_4 c < 64"
proof -
  have k: "x < 64" if "\<not> bit x 6" "\<not> bit x 7" for x :: u8
  proof -
    have "x = take_bit 6 x"
    proof (rule bit_word_eqI)
      fix n assume "n < LENGTH(8)"
      then have "n < 6 \<or> n = 6 \<or> n = 7" by auto
      then show "bit x n = bit (take_bit 6 x) n" using that by (auto simp: bit_simps)
    qed
    then have "unat x = take_bit 6 (unat x)" by (metis unsigned_take_bit_eq)
    then have "unat x < 2 ^ 6" by (metis take_bit_nat_less_exp)
    then show ?thesis by (simp add: word_less_nat_alt)
  qed
  show "b64_1 a < 64" "b64_2 a b < 64" "b64_3 b c < 64" "b64_4 c < 64"
    by (rule k; auto simp: b64_1_def b64_2_def b64_3_def b64_4_def bit_simps dest: bit_imp_le_length)+
qed

lemma b64_combine_group:
  "b64_combine (Suc 0) (b64_1 a) (b64_2 a b) = a"
  "b64_combine 2 (b64_2 a b) (b64_3 b c) = b"
  "b64_combine 3 (b64_3 b c) (b64_4 c) = c"
  unfolding b64_combine_def b64_1_def b64_2_def b64_3_def b64_4_def
  by (rule byte_eqI; simp add: bit_simps)+

lemma b64_code:
  "x < 64 \<Longrightarrow> Base64DecodeTable (b64 x) \<noteq> -1 \<and> word_of_int (Base64DecodeTable (b64 x)) = x"
  using b64_table(1) [of x] uint_nonnegative [of x] by (metis word_of_int_uint neg_0_le_iff_le not_one_le_zero)

text \<open>The steps of the decoder at the four positions of a group.\<close>

lemma decode_first:
  "x < 64 \<Longrightarrow> i mod 4 = 0 \<Longrightarrow> b64_decode_loop n (b64 x # cs) i p d out = b64_decode_loop n cs (Suc i) x d out"
  using b64_code [of x] by (simp add: Let_def)

lemma decode_next:
  assumes "x < 64" and "i mod 4 \<noteq> 0" and "int (length pre) < n"
  shows "b64_decode_loop n (b64 x # cs) i p (length pre) (pre @ y # z) =
    b64_decode_loop n cs (Suc i) x (Suc (length pre)) ((pre @ [b64_combine (i mod 4) p x]) @ z)"
  using assms b64_code [of x] by (cases i) (simp_all add: Let_def list_update_append)

lemma decode_pad: "b64_decode_loop n (replicate k 0x3D) i p d out = Some (d, out)"
proof (induction k arbitrary: i)
  case (Suc k)
  have "Base64DecodeTable 0x3D = -1" by code_simp
  then show ?case using Suc by simp
qed simp

declare b64_decode_loop.simps [simp del]

lemma decode_group:
  assumes "i mod 4 = 0" and "int (length pre) + 3 \<le> n"
  shows "b64_decode_loop n (b64 (b64_1 a) # b64 (b64_2 a b) # b64 (b64_3 b c) # b64 (b64_4 c) # cs) i p
      (length pre) (pre @ 0 # 0 # 0 # z) =
    b64_decode_loop n cs (i + 4) (b64_4 c) (length (pre @ [a, b, c])) ((pre @ [a, b, c]) @ z)"
proof -
  have i: "Suc i mod 4 = Suc 0" "Suc (Suc i) mod 4 = 2" "Suc (Suc (Suc i)) mod 4 = 3" using assms(1) by presburger+
  then have i0: "Suc i mod 4 \<noteq> 0" "Suc (Suc i) mod 4 \<noteq> 0" "Suc (Suc (Suc i)) mod 4 \<noteq> 0" by simp_all
  have n: "int (length pre) < n" "int (length (pre @ [a])) < n" "int (length ((pre @ [a]) @ [b])) < n"
    using assms(2) by simp_all
  have l: "Suc (length xs) = length (xs @ [v])" for xs :: "u8 list" and v by simp
  have e: "length ((pre @ [a]) @ [b]) + 1 = length (pre @ [a, b, c])" "((pre @ [a]) @ [b]) @ [c] = pre @ [a, b, c]"
    "Suc (Suc (Suc (Suc i))) = i + 4" by simp_all
  show ?thesis
    unfolding decode_first [OF b64_small(1) assms(1)] decode_next [OF b64_small(2) i0(1) n(1)] i
      b64_combine_group(1) l [of pre a] decode_next [OF b64_small(3) i0(2) n(2)] b64_combine_group(2)
      l [of "pre @ [a]" b] decode_next [OF b64_small(4) i0(3) n(3)] b64_combine_group(3)
      l [of "(pre @ [a]) @ [b]" c] e ..
qed

text \<open>The complete groups of the encoder.\<close>

fun b64_groups :: "u8 list \<Rightarrow> u8 list" where
  "b64_groups (a # b # c # xs) = b64 (b64_1 a) # b64 (b64_2 a b) # b64 (b64_3 b c) # b64 (b64_4 c) # b64_groups xs"
| "b64_groups _ = []"

lemma b64_loop_split:
  "\<exists>ys rest. xs = ys @ rest \<and> b64_loop xs = (b64_groups ys, rest) \<and> length ys mod 3 = 0 \<and>
     length rest \<le> 3 \<and> (xs \<noteq> [] \<longrightarrow> rest \<noteq> [])"
proof (induction xs rule: b64_loop.induct)
  case (1 a b c d xs)
  then obtain ys rest where r: "d # xs = ys @ rest" "b64_loop (d # xs) = (b64_groups ys, rest)"
    "length ys mod 3 = 0" "length rest \<le> 3" "rest \<noteq> []" by auto
  have "length (a # b # c # ys) = length ys + 3" by simp
  then have "length (a # b # c # ys) mod 3 = 0" using r(3) by (metis mod_add_self2)
  moreover have "b64_loop (a # b # c # d # xs) = (b64_groups (a # b # c # ys), rest)" using r(2) by simp
  ultimately show ?case using r(1,4,5) by - (rule exI [of _ "a # b # c # ys"], rule exI [of _ rest], simp)
qed (rule exI [of _ "[]"], force)+

lemma b64_groups_facts:
  "length ys mod 3 = 0 \<Longrightarrow> length (b64_groups ys) = 4 * (length ys div 3) \<and> filter (\<lambda>c. c = 0x3D) (b64_groups ys) = []"
proof (induction ys rule: b64_groups.induct)
  case (1 a b c xs)
  have "length (a # b # c # xs) div 3 = Suc (length xs div 3)" by simp
  then show ?case
    using 1 b64_table(2) [OF b64_small(1) [of a]] b64_table(2) [OF b64_small(2) [of a b]]
      b64_table(2) [OF b64_small(3) [of b c]] b64_table(2) [OF b64_small(4) [of c]] by simp
qed simp_all

lemma decode_groups:
  "length ys mod 3 = 0 \<Longrightarrow> i mod 4 = 0 \<Longrightarrow> int (length (pre @ ys)) \<le> n \<Longrightarrow>
   \<exists>p'. b64_decode_loop n (b64_groups ys @ cs) i p (length pre) (pre @ replicate (length ys + k) 0) =
     b64_decode_loop n cs (i + length (b64_groups ys)) p' (length (pre @ ys)) ((pre @ ys) @ replicate k 0)"
proof (induction ys arbitrary: i p pre rule: b64_groups.induct)
  case (1 a b c xs)
  have "int (length pre) + 3 \<le> n" using "1.prems"(3) by simp
  note g = decode_group [OF "1.prems"(2) this, of a b c "b64_groups xs @ cs" p "replicate (length xs + k) 0"]
  have "length xs mod 3 = 0" "(i + 4) mod 4 = 0" "int (length ((pre @ [a, b, c]) @ xs)) \<le> n"
    using "1.prems" by auto
  from "1.IH" [OF this, of "b64_4 c"] obtain p' where
    "b64_decode_loop n (b64_groups xs @ cs) (i + 4) (b64_4 c) (length (pre @ [a, b, c]))
       ((pre @ [a, b, c]) @ replicate (length xs + k) 0) =
     b64_decode_loop n cs (i + 4 + length (b64_groups xs)) p' (length ((pre @ [a, b, c]) @ xs))
       (((pre @ [a, b, c]) @ xs) @ replicate k 0)" by blast
  then show ?case using g by (intro exI [of _ p']) (simp add: ac_simps numeral_eq_Suc)
qed auto

text \<open>The last group, when it holds one or two octets.\<close>

lemma Base64_Encode_tail:
  assumes "length ys mod 3 = 0" and "b64_loop (ys @ rest) = (b64_groups ys, rest)"
  shows "rest = [a] \<Longrightarrow> Base64_Encode (ys @ rest) =
      Some (b64_groups ys @ [b64 (b64_1 a), b64 (b64_2 a 0)] @ replicate 2 0x3D)"
    and "rest = [a, b] \<Longrightarrow> Base64_Encode (ys @ rest) =
      Some (b64_groups ys @ [b64 (b64_1 a), b64 (b64_2 a b), b64 (b64_3 b 0)] @ replicate 1 0x3D)"
    and "rest = [a, b, c] \<Longrightarrow> Base64_Encode (ys @ rest) = Some (b64_groups ys @ replicate 4 0x3D)"
proof -
  obtain q where q: "length ys = 3 * q" using assms(1) by auto
  have m: "(3 * q + 1) mod 3 = 1" "(3 * q + 2) mod 3 = 2" "(3 * q + 3) mod 3 = 0"
    "(3 * q + 1) div 3 = q" "(3 * q + 2) div 3 = q" "(3 * q + 3) div 3 = Suc q" by presburger+
  have g: "length (b64_groups ys) = 4 * q" using b64_groups_facts [OF assms(1)] q by simp
  show "rest = [a] \<Longrightarrow> Base64_Encode (ys @ rest) =
      Some (b64_groups ys @ [b64 (b64_1 a), b64 (b64_2 a 0)] @ replicate 2 0x3D)"
    using assms(2) q m g by (simp add: Base64_Encode_def b64_2_def b64_3_def arr_get_def)
  show "rest = [a, b] \<Longrightarrow> Base64_Encode (ys @ rest) =
      Some (b64_groups ys @ [b64 (b64_1 a), b64 (b64_2 a b), b64 (b64_3 b 0)] @ replicate 1 0x3D)"
    using assms(2) q m g by (simp add: Base64_Encode_def b64_2_def b64_3_def arr_get_def)
  show "rest = [a, b, c] \<Longrightarrow> Base64_Encode (ys @ rest) = Some (b64_groups ys @ replicate 4 0x3D)"
    using assms(2) q m g by (simp add: Base64_Encode_def)
qed

lemma decode_text:
  assumes "length ys mod 3 = 0" and "s = b64_groups ys @ t @ replicate k 0x3D"
    and "length t + k = 4" and "0x3D \<notin> set t" and "k < 4"
  shows "\<exists>p. Base64_Decode s = do {
    (d, out) \<leftarrow> b64_decode_loop (int (length ys + 3 - k)) (t @ replicate k 0x3D) (4 * (length ys div 3)) p
      (length ys) (ys @ replicate (4 - k) 0);
    out \<leftarrow> arr_set out (length ys + 3 - k) 0; Some (int (length ys + 3 - k), out) }"
proof -
  obtain q where q: "length ys = 3 * q" using assms(1) by auto
  note g = b64_groups_facts [OF assms(1)]
  have l: "length s div 4 = Suc q" using assms(3) g q by (simp add: assms(2))
  have "filter (\<lambda>c. c = 0x3D) t = []" using assms(4) by (auto simp: filter_empty_conv)
  then have pad: "length (filter (\<lambda>c. c = 0x3D) s) = k" using g by (simp add: assms(2))
  have n: "3 * int (length s div 4) - int (length (filter (\<lambda>c. c = 0x3D) s)) = int (length ys + 3 - k)"
    using l pad q assms(5) by simp
  have len: "nat (int (length ys + 3 - k) + 1) = length ys + (4 - k)" using assms(5) by simp
  obtain p where "b64_decode_loop (int (length ys + 3 - k)) s 0 0 0 (replicate (length ys + (4 - k)) 0) =
    b64_decode_loop (int (length ys + 3 - k)) (t @ replicate k 0x3D) (4 * (length ys div 3)) p
      (length ys) (ys @ replicate (4 - k) 0)"
    using decode_groups [OF assms(1), of 0 "[]" "int (length ys + 3 - k)" "t @ replicate k 0x3D" 0 "4 - k"]
      g assms(2,5) by auto
  then show ?thesis unfolding Base64_Decode_def n by (auto simp: Let_def len)
qed

lemma decode_pair:
  assumes "i mod 4 = 0" and "int (length pre) < n"
  shows "b64_decode_loop n (b64 (b64_1 a) # b64 (b64_2 a b) # cs) i p (length pre) (pre @ y # z) =
    b64_decode_loop n cs (Suc (Suc i)) (b64_2 a b) (Suc (length pre)) (pre @ a # z)"
proof -
  have i: "Suc i mod 4 = Suc 0" using assms(1) by presburger
  then have i0: "Suc i mod 4 \<noteq> 0" by simp
  show ?thesis
    unfolding decode_first [OF b64_small(1) assms(1)] decode_next [OF b64_small(2) i0 assms(2)] i
      b64_combine_group(1) by simp
qed

lemma decode_third:
  assumes "i mod 4 = 2" and "int (length pre) < n"
  shows "b64_decode_loop n (b64 (b64_3 b c) # cs) i (b64_2 a b) (length pre) (pre @ y # z) =
    b64_decode_loop n cs (Suc i) (b64_3 b c) (Suc (length pre)) (pre @ b # z)"
proof -
  have i0: "i mod 4 \<noteq> 0" using assms(1) by simp
  show ?thesis
    unfolding decode_next [OF b64_small(3) i0 assms(2)] assms(1) b64_combine_group(2) by simp
qed

text \<open>Octets come back unless their number is a positive multiple of three.\<close>

lemma base64_inverse:
  assumes "length xs mod 3 \<noteq> 0"
  shows "\<exists>s. Base64_Encode xs = Some s \<and> Base64_Decode s = Some (int (length xs), xs @ [0])"
proof -
  obtain ys rest where x: "xs = ys @ rest" "b64_loop xs = (b64_groups ys, rest)" "length ys mod 3 = 0"
    "length rest \<le> 3" "rest \<noteq> []" using b64_loop_split [of xs] assms by fastforce
  let ?i = "4 * (length ys div 3)"
  have i: "?i mod 4 = 0" "Suc (Suc ?i) mod 4 = 2" by presburger+
  have "length rest mod 3 \<noteq> 0" using assms x(1,3) by (metis length_append mod_add_left_eq add_0)
  with x(4,5) consider a where "rest = [a]" | a b where "rest = [a, b]"
    by (cases rest rule: list.exhaust; cases "tl rest"; cases "tl (tl rest)") auto
  then show ?thesis
  proof cases
    case (1 a)
    let ?t = "[b64 (b64_1 a), b64 (b64_2 a 0)]"
    have "0x3D \<notin> set ?t" using b64_table(2) [OF b64_small(1)] b64_table(2) [OF b64_small(2)] by auto
    then obtain p where p: "Base64_Decode (b64_groups ys @ ?t @ replicate 2 0x3D) = do {
      (d, out) \<leftarrow> b64_decode_loop (int (length ys + 3 - 2)) (?t @ replicate 2 0x3D) ?i p
        (length ys) (ys @ replicate (4 - 2) 0);
      out \<leftarrow> arr_set out (length ys + 3 - 2) 0; Some (int (length ys + 3 - 2), out) }"
      using decode_text [OF x(3) refl, of ?t 2] by auto
    have "b64_decode_loop (int (length ys + 3 - 2)) (?t @ replicate 2 0x3D) ?i p
        (length ys) (ys @ replicate (4 - 2) 0) = Some (Suc (length ys), ys @ [a, 0])"
      using decode_pair [OF i(1), of ys "int (length ys + 3 - 2)" a 0 "replicate 2 0x3D" p 0 "[0]"]
        decode_pad [of "int (length ys + 3 - 2)" 2 "Suc (Suc ?i)" "b64_2 a 0"]
      by (simp add: numeral_2_eq_2)
    then have "Base64_Decode (b64_groups ys @ ?t @ replicate 2 0x3D) = Some (int (length xs), xs @ [0])"
      unfolding p by (simp add: x(1) 1 nth_append list_update_append)
    then show ?thesis using Base64_Encode_tail(1) [OF x(3) _ 1] x(1,2) by auto
  next
    case (2 a b)
    let ?t = "[b64 (b64_1 a), b64 (b64_2 a b), b64 (b64_3 b 0)]"
    have z: "replicate (4 - 1) 0 = [0, 0, 0 :: u8]" by (simp add: numeral_3_eq_3)
    have "0x3D \<notin> set ?t"
      using b64_table(2) [OF b64_small(1)] b64_table(2) [OF b64_small(2)] b64_table(2) [OF b64_small(3)] by auto
    then obtain p where p: "Base64_Decode (b64_groups ys @ ?t @ replicate 1 0x3D) = do {
      (d, out) \<leftarrow> b64_decode_loop (int (length ys + 3 - 1)) (?t @ replicate 1 0x3D) ?i p
        (length ys) (ys @ replicate (4 - 1) 0);
      out \<leftarrow> arr_set out (length ys + 3 - 1) 0; Some (int (length ys + 3 - 1), out) }"
      using decode_text [OF x(3) refl, of ?t 1] by auto
    have "b64_decode_loop (int (length ys + 3 - 1)) (?t @ replicate 1 0x3D) ?i p
        (length ys) (ys @ replicate (4 - 1) 0) =
      b64_decode_loop (int (length ys + 3 - 1)) (b64 (b64_3 b 0) # replicate 1 0x3D) (Suc (Suc ?i)) (b64_2 a b)
        (length (ys @ [a])) ((ys @ [a]) @ 0 # [0])"
      using decode_pair [OF i(1), of ys "int (length ys + 3 - 1)" a b "b64 (b64_3 b 0) # replicate 1 0x3D" p 0 "[0, 0]"]
      unfolding z by simp
    also have "\<dots> = b64_decode_loop (int (length ys + 3 - 1)) (replicate 1 0x3D) (Suc (Suc (Suc ?i))) (b64_3 b 0)
        (Suc (length (ys @ [a]))) ((ys @ [a]) @ b # [0])"
      by (rule decode_third [OF i(2)]) simp
    finally have "b64_decode_loop (int (length ys + 3 - 1)) (?t @ replicate 1 0x3D) ?i p
        (length ys) (ys @ replicate (4 - 1) 0) = Some (Suc (Suc (length ys)), ys @ [a, b, 0])"
      unfolding decode_pad by simp
    then have "Base64_Decode (b64_groups ys @ ?t @ replicate 1 0x3D) = Some (int (length xs), xs @ [0])"
      unfolding p by (simp add: x(1) 2 nth_append list_update_append)
    then show ?thesis using Base64_Encode_tail(2) [OF x(3) _ 2] x(1,2) by auto
  qed
qed

text \<open>
  A positive multiple of three: the loop of the encoder stops before the last group, and padding
  takes its place.
\<close>

lemma base64_loses_group:
  assumes "length xs mod 3 = 0" and "xs \<noteq> []"
  shows "\<exists>s. Base64_Encode xs = Some s \<and> (\<forall>n out. Base64_Decode s = Some (n, out) \<longrightarrow> n = int (length xs) - 4)"
proof -
  obtain ys rest where x: "xs = ys @ rest" "b64_loop xs = (b64_groups ys, rest)" "length ys mod 3 = 0"
    "length rest \<le> 3" "rest \<noteq> []" using b64_loop_split [of xs] assms(2) by fastforce
  have "length rest mod 3 = 0" using assms(1) x(1,3) by (metis length_append mod_add_left_eq add_0)
  moreover have "0 < length rest" using x(5) by simp
  ultimately have r: "length rest = 3" using x(4) by presburger
  then obtain a b c where "rest = [a, b, c]" by (auto simp: numeral_3_eq_3 length_Suc_conv)
  then have enc: "Base64_Encode xs = Some (b64_groups ys @ replicate 4 0x3D)"
    using Base64_Encode_tail(3) [OF x(3)] x(1,2) by simp
  obtain q where q: "length ys = 3 * q" using x(3) by auto
  have "3 * int (length (b64_groups ys @ replicate 4 (0x3D :: u8)) div 4) -
      int (length (filter (\<lambda>c. c = 0x3D) (b64_groups ys @ replicate 4 0x3D))) = int (length xs) - 4"
    using b64_groups_facts [OF x(3)] q x(1) r by simp
  then have "n = int (length xs) - 4" if "Base64_Decode (b64_groups ys @ replicate 4 0x3D) = Some (n, out)" for n out
    using that unfolding Base64_Decode_def by (auto simp: Let_def split: if_splits bind_splits prod.splits)
  then show ?thesis using enc by blast
qed

section \<open>Properties\<close>

text \<open>
  C39. Decoding what \<^verbatim>\<open>Base64_Encode\<close> made of a sequence of octets gives the octets back, with
  their number, exactly when there are none or when their number is not a multiple of three; otherwise
  the last three octets are not encoded.
\<close>

theorem base64_round_trip:
  "(\<exists>s. Base64_Encode xs = Some s \<and> Base64_Decode s = Some (int (length xs), xs @ [0])) \<longleftrightarrow>
   xs = [] \<or> 0 < length xs mod 3"
proof (cases "xs = []")
  case True
  have "Base64_Encode [] = Some [] \<and> Base64_Decode [] = Some (0, [0])" by code_simp
  then show ?thesis using True by simp
next
  case False
  show ?thesis
  proof (cases "length xs mod 3 = 0")
    case True
    then show ?thesis using base64_loses_group [OF True False] False by auto
  next
    case mod: False
    then show ?thesis using base64_inverse [OF mod] by auto
  qed
qed

end
