(* ===== verification/Icc_Records.thy ===== *)
theory Icc_Records
  imports Ussd_Text Hex_Text
begin

text \<open>
  Operator names from the SIM card: \<^verbatim>\<open>sitril/util/iccUtil.cpp\<close> (the TLV reader and the
  coders), \<^verbatim>\<open>simRecord/oplRecords.cpp\<close> and \<^verbatim>\<open>simRecord/pnnRecords.cpp\<close> (the
  files EF_OPL and EF_PNN), and \<^verbatim>\<open>simRecord/eonsResolver.cpp\<close>, which combines them, with
  the handler of the network service that feeds it.

  A record is the list of its octets.  A \<^verbatim>\<open>String\<close> is the list of its characters.
\<close>

section \<open>The TLV reader\<close>

record sim_tlv =
  mRecord :: "u8 list"
  mTlvLength :: nat
  mCurOffset :: nat
  mCurDataOffset :: nat
  mCurDataLength :: nat
  mHasValidTlvObject :: bool

definition tlv_check :: "sim_tlv \<Rightarrow> bool \<times> sim_tlv" where
  "tlv_check s = (mCurDataLength s + mCurDataOffset s \<le> mTlvLength s, s)"

definition parseCurrentTlvObject :: "sim_tlv \<Rightarrow> (bool \<times> sim_tlv) option" where
  "parseCurrentTlvObject s =
     (if mCurOffset s \<ge> mTlvLength s then Some (False, s)
      else do {
        tag \<leftarrow> arr_get (mRecord s) (mCurOffset s);
        if tag = 0 \<or> tag = 0xFF then Some (False, s)
        else if mCurOffset s + 1 < mTlvLength s then do {
          l \<leftarrow> arr_get (mRecord s) (mCurOffset s + 1);
          if l < 0x80 then
            Some (tlv_check (s\<lparr>mCurDataLength := unat l, mCurDataOffset := mCurOffset s + 2\<rparr>))
          else if l = 0x81 then
            (if mCurOffset s + 2 < mTlvLength s then do {
               l2 \<leftarrow> arr_get (mRecord s) (mCurOffset s + 2);
               Some (tlv_check (s\<lparr>mCurDataLength := unat l2, mCurDataOffset := mCurOffset s + 3\<rparr>)) }
             else Some (False, s))
          else Some (False, s) }
        else Some (False, s) })"

definition SimTlv_new :: "u8 list \<Rightarrow> sim_tlv option" where
  "SimTlv_new r =
     (let s = \<lparr>mRecord = [], mTlvLength = 0, mCurOffset = 0, mCurDataOffset = 0, mCurDataLength = 0,
               mHasValidTlvObject = False\<rparr>
      in if 0 < length r
         then map_option (\<lambda>(v, s). s\<lparr>mHasValidTlvObject := v\<rparr>)
                (parseCurrentTlvObject (s\<lparr>mRecord := r, mTlvLength := length r\<rparr>))
         else Some s)"

definition nextObject :: "sim_tlv \<Rightarrow> (bool \<times> sim_tlv) option" where
  "nextObject s =
     (if \<not> mHasValidTlvObject s then Some (False, s)
      else map_option (\<lambda>(v, s). (v, s\<lparr>mHasValidTlvObject := v\<rparr>))
             (parseCurrentTlvObject (s\<lparr>mCurOffset := mCurDataOffset s + mCurDataLength s\<rparr>)))"

definition tlv_getTag :: "sim_tlv \<Rightarrow> u8 option" where
  "tlv_getTag s = (if \<not> mHasValidTlvObject s then Some 0 else arr_get (mRecord s) (mCurOffset s))"

text \<open>The inner \<open>None\<close> is the \<^verbatim>\<open>NULL\<close> of an object without data.\<close>

definition tlv_getData :: "sim_tlv \<Rightarrow> u8 list option option" where
  "tlv_getData s =
     (if \<not> mHasValidTlvObject s \<or> mCurDataLength s = 0 then Some None
      else if mCurDataOffset s + mCurDataLength s \<le> length (mRecord s)
      then Some (Some (take (mCurDataLength s) (drop (mCurDataOffset s) (mRecord s))))
      else None)"

section \<open>Coders\<close>

abbreviation MAX_PLMN_LEN :: nat where "MAX_PLMN_LEN \<equiv> 6"

definition bytesToHexString :: "u8 list \<Rightarrow> u8 list" where
  "bytesToHexString xs = take MAX_PLMN_LEN (hexdump xs)"

text \<open>Every trailing 'F' is cut off.  \<open>None\<close> is the string made of a null pointer.\<close>

definition trim_F :: "u8 list \<Rightarrow> u8 list" where
  "trim_F s = rev (dropWhile (\<lambda>c. c = 0x46) (rev s))"

definition bcdPlmnToString :: "u8 list \<Rightarrow> nat \<Rightarrow> nat \<Rightarrow> u8 list option" where
  "bcdPlmnToString data offset len =
     (if offset + 3 > len then None
      else do {
        x \<leftarrow> arr_get data offset;
        y \<leftarrow> arr_get data (offset + 1);
        z \<leftarrow> arr_get data (offset + 2);
        Some (trim_F (bytesToHexString
          [push_bit 4 x OR (drop_bit 4 x AND 0xF),
           push_bit 4 y OR (z AND 0xF),
           (z AND 0xF0) OR (drop_bit 4 y AND 0xF)])) })"

definition bytesToInt :: "u8 list \<Rightarrow> int \<Rightarrow> int \<Rightarrow> int \<Rightarrow> int option" where
  "bytesToInt src srcLength offset len =
     (if len > 4 then Some 0
      else if offset < 0 \<or> len < 0 \<or> offset + len > srcLength then Some 0
      else if nat (offset + len) \<le> length src then
        (let r = sint (fold (\<lambda>b r. push_bit 8 r OR ucast b) (take (nat len) (drop (nat offset) src)) (0 :: u32))
         in Some (if r < 0 then 0 else r))
      else None)"

text \<open>
  The name field starts with the octet of the coding scheme.  The quotient of the number of septets
  is truncated towards zero.
\<close>

definition networkNameToString :: "u8 list \<Rightarrow> u8 list \<Rightarrow> nat \<Rightarrow> nat \<Rightarrow> u8 list option" where
  "networkNameToString junk data offset len = do {
     b \<leftarrow> arr_get data offset;
     if b AND 0x80 \<noteq> 0x80 \<or> len < 1 then Some []
     else do {
       let bits = (int len - 1) * 8 - int (unat (b AND 7));
       let septets = sgn bits * (\<bar>bits\<bar> div 7);
       let scheme = unat (drop_bit 4 b AND 7);
       if scheme \<le> 1 then do {
         (n, buf) \<leftarrow> DecodingNetworkNameFromSIM junk scheme (drop (offset + 1) data) (int len - 1) septets
                       (replicate MAX_FULL_NAME_LEN 0) MAX_FULL_NAME_LEN;
         Some (if n > 0 then take (nat n) buf else []) }
       else Some [] } }"

section \<open>EF_PNN\<close>

record pnn_record =
  mFullName :: "u8 list"
  mShortName :: "u8 list"
  mAddInfo :: "u8 list"

text \<open>The object under the cursor, if it has the tag.\<close>

definition pnn_field :: "u8 list \<Rightarrow> u8 \<Rightarrow> sim_tlv \<Rightarrow> u8 list option" where
  "pnn_field junk tag s = do {
     t \<leftarrow> tlv_getTag s;
     if mHasValidTlvObject s \<and> t = tag then do {
       d \<leftarrow> tlv_getData s;
       (case d of None \<Rightarrow> Some [] | Some d \<Rightarrow> networkNameToString junk d 0 (mCurDataLength s)) }
     else Some [] }"

definition PnnRecord_new :: "u8 list \<Rightarrow> u8 list \<Rightarrow> pnn_record option" where
  "PnnRecord_new junk r = do {
     s \<leftarrow> SimTlv_new r;
     full \<leftarrow> pnn_field junk 0x43 s;
     (_, s) \<leftarrow> nextObject s;
     short \<leftarrow> pnn_field junk 0x45 s;
     (_, s) \<leftarrow> nextObject s;
     info \<leftarrow> pnn_field junk 0x80 s;
     Some \<lparr>mFullName = full, mShortName = short, mAddInfo = info\<rparr> }"

text \<open>Records without a full name are left out.\<close>

fun PnnRecords_new :: "u8 list \<Rightarrow> u8 list list \<Rightarrow> pnn_record list option" where
  "PnnRecords_new junk [] = Some []"
| "PnnRecords_new junk (r # rs) = do {
     p \<leftarrow> PnnRecord_new junk r;
     ps \<leftarrow> PnnRecords_new junk rs;
     Some (if mFullName p = [] then ps else p # ps) }"

definition getNameFromPnnRecord :: "pnn_record list \<Rightarrow> int \<Rightarrow> u8 list" where
  "getNameFromPnnRecord ps n =
     (if n < 1 \<or> n > int (length ps) then [] else mFullName (ps ! nat (n - 1)))"

fun getHomePnn :: "pnn_record list \<Rightarrow> u8 list" where
  "getHomePnn [] = []"
| "getHomePnn (p # ps) = (if mFullName p \<noteq> [] then mFullName p else getHomePnn ps)"

section \<open>EF_OPL\<close>

record opl_record =
  mPlmn :: "int list"
  mLac1 :: int
  mLac2 :: int
  mPnnRecordNumber :: int

definition opl_getPlmn :: "u8 list \<Rightarrow> int list option" where
  "opl_getPlmn r = do {
     code \<leftarrow> bcdPlmnToString r 0 (length r);
     Some (map (\<lambda>i. if i < length code then HexChar2Value (code ! i) else 0) [0..<MAX_PLMN_LEN]) }"

definition OplRecord_new :: "u8 list \<Rightarrow> opl_record option" where
  "OplRecord_new r = do {
     plmn \<leftarrow> opl_getPlmn r;
     lac1 \<leftarrow> bytesToInt r (int (length r)) 3 2;
     lac2 \<leftarrow> bytesToInt r (int (length r)) 5 2;
     n \<leftarrow> bytesToInt r (int (length r)) 7 1;
     Some \<lparr>mPlmn = plmn, mLac1 = lac1, mLac2 = lac2, mPnnRecordNumber = n\<rparr> }"

definition isPlmnEmpty :: "opl_record \<Rightarrow> bool" where
  "isPlmnEmpty r \<longleftrightarrow> list_all (\<lambda>d. d = 0) (mPlmn r)"

fun OplRecords_new :: "u8 list list \<Rightarrow> opl_record list option" where
  "OplRecords_new [] = Some []"
| "OplRecords_new (r # rs) = do {
     p \<leftarrow> OplRecord_new r;
     ps \<leftarrow> OplRecords_new rs;
     Some (if isPlmnEmpty p then ps else p # ps) }"

text \<open>A digit 0xD of the record matches every digit.\<close>

definition matchPlmn :: "int list \<Rightarrow> int list \<Rightarrow> bool" where
  "matchPlmn sim bcch \<longleftrightarrow> list_all2 (\<lambda>s b. b = s \<or> s = 0x0D) sim bcch"

definition bcch_plmn :: "u8 list \<Rightarrow> int list" where
  "bcch_plmn oper = map (\<lambda>i. if i < length oper then uint (oper ! i) - 0x30 else 0) [0..<MAX_PLMN_LEN]"

fun first_match :: "opl_record list \<Rightarrow> int list \<Rightarrow> int \<Rightarrow> bool \<Rightarrow> int" where
  "first_match [] plmn lac useLac = 0"
| "first_match (r # rs) plmn lac useLac =
     (if matchPlmn (mPlmn r) plmn \<and> (\<not> useLac \<or> mLac1 r \<le> lac \<and> lac \<le> mLac2 r)
      then mPnnRecordNumber r else first_match rs plmn lac useLac)"

definition getMatchingPnnRecord :: "opl_record list \<Rightarrow> u8 list \<Rightarrow> int \<Rightarrow> bool \<Rightarrow> int" where
  "getMatchingPnnRecord rs oper lac useLac =
     (if oper = [] then 0 else if useLac \<and> lac = -1 then 0
      else if length oper \<noteq> 5 \<and> length oper \<noteq> 6 then 0
      else first_match rs (bcch_plmn oper) lac useLac)"

section \<open>The resolver\<close>

datatype ef_state = EF_INITING | EF_PRESENT | EF_ABSENT
datatype eons_state = EONS_INITING | EONS_DISABLED | EONS_PNN_PRESENT | EONS_PNN_AND_OPL_PRESENT

record eons =
  mPnnDataState :: ef_state
  mOplDataState :: ef_state
  mpOplRecords :: "opl_record list option"
  mpPnnRecords :: "pnn_record list option"

definition eons_reset :: eons where
  "eons_reset =
     \<lparr>mPnnDataState = EF_INITING, mOplDataState = EF_INITING, mpOplRecords = None, mpPnnRecords = None\<rparr>"

definition setOplData :: "u8 list list \<Rightarrow> eons \<Rightarrow> eons option" where
  "setOplData rs s = do {
     ps \<leftarrow> OplRecords_new rs;
     Some (s\<lparr>mpOplRecords := Some ps,
              mOplDataState := (if ps \<noteq> [] then EF_PRESENT else mOplDataState s)\<rparr>) }"

definition resetOplData :: "eons \<Rightarrow> eons" where
  "resetOplData s = s\<lparr>mOplDataState := EF_ABSENT, mpOplRecords := None\<rparr>"

definition setPnnData :: "u8 list \<Rightarrow> u8 list list \<Rightarrow> eons \<Rightarrow> eons option" where
  "setPnnData junk rs s = do {
     ps \<leftarrow> PnnRecords_new junk rs;
     Some (s\<lparr>mpPnnRecords := Some ps,
              mPnnDataState := (if ps \<noteq> [] then EF_PRESENT else mPnnDataState s)\<rparr>) }"

definition resetPnnData :: "eons \<Rightarrow> eons" where
  "resetPnnData s = s\<lparr>mPnnDataState := EF_ABSENT, mpPnnRecords := None\<rparr>"

definition getEonsState :: "eons \<Rightarrow> eons_state" where
  "getEonsState s =
     (if mPnnDataState s = EF_INITING \<or> mOplDataState s = EF_INITING then EONS_INITING
      else if mPnnDataState s = EF_PRESENT then
        (if mOplDataState s = EF_PRESENT then EONS_PNN_AND_OPL_PRESENT else EONS_PNN_PRESENT)
      else EONS_DISABLED)"

text \<open>\<open>None\<close> is a call through a null pointer.\<close>

definition updateEonsFromOplAndPnn :: "eons \<Rightarrow> u8 list \<Rightarrow> int \<Rightarrow> u8 list option" where
  "updateEonsFromOplAndPnn s regOperator lac = do {
     opl \<leftarrow> mpOplRecords s;
     pnn \<leftarrow> mpPnnRecords s;
     Some (getNameFromPnnRecord pnn (getMatchingPnnRecord opl regOperator lac True)) }"

definition updateEonsIfHplmn :: "eons \<Rightarrow> u8 list \<Rightarrow> u8 list \<Rightarrow> u8 list option" where
  "updateEonsIfHplmn s regOperator simOperator =
     (if regOperator = [] then Some []
      else if simOperator \<noteq> [] \<and> simOperator = regOperator
      then map_option (\<lambda>pnn. getNameFromPnnRecord pnn 1) (mpPnnRecords s) else Some [])"

definition updateEons :: "eons \<Rightarrow> u8 list \<Rightarrow> int \<Rightarrow> u8 list \<Rightarrow> u8 list option" where
  "updateEons s regOperator lac simOperator =
     (case getEonsState s of
        EONS_PNN_AND_OPL_PRESENT \<Rightarrow> updateEonsFromOplAndPnn s regOperator lac
      | EONS_PNN_PRESENT \<Rightarrow> updateEonsIfHplmn s regOperator simOperator
      | _ \<Rightarrow> Some [])"

definition getEonsForAvailableNetworks :: "eons \<Rightarrow> u8 list \<Rightarrow> u8 list option" where
  "getEonsForAvailableNetworks s availOperator =
     (if getEonsState s \<noteq> EONS_PNN_AND_OPL_PRESENT then Some []
      else do {
        opl \<leftarrow> mpOplRecords s;
        pnn \<leftarrow> mpPnnRecords s;
        Some (getNameFromPnnRecord pnn (getMatchingPnnRecord opl availOperator (-1) False)) })"

text \<open>The network service: a file that was read replaces what was known of it.\<close>

datatype sim_file = NET_SIM_EF_PNN | NET_SIM_EF_OPL | NET_SIM_EF_OTHER

definition OnSimFileInfo :: "u8 list \<Rightarrow> sim_file \<Rightarrow> u8 list list \<Rightarrow> eons \<Rightarrow> eons option" where
  "OnSimFileInfo junk f rs s =
     (case f of
        NET_SIM_EF_PNN \<Rightarrow> let s = resetPnnData s in if rs \<noteq> [] then setPnnData junk rs s else Some s
      | NET_SIM_EF_OPL \<Rightarrow> let s = resetOplData s in if rs \<noteq> [] then setOplData rs s else Some s
      | NET_SIM_EF_OTHER \<Rightarrow> Some s)"

datatype eons_use = EONS_RESOLVER_REG_OPERATOR | EONS_RESOLVER_AVAILABLE_NETWORK | EONS_RESOLVER_OTHER

definition updateOperatorNameFromEonsResolver ::
  "eons \<Rightarrow> u8 list \<Rightarrow> u8 list \<Rightarrow> int \<Rightarrow> eons_use \<Rightarrow> u8 list option" where
  "updateOperatorNameFromEonsResolver s operatorNumeric simOperator lac useType =
     (case useType of
        EONS_RESOLVER_REG_OPERATOR \<Rightarrow> updateEons s operatorNumeric lac simOperator
      | EONS_RESOLVER_AVAILABLE_NETWORK \<Rightarrow> getEonsForAvailableNetworks s operatorNumeric
      | EONS_RESOLVER_OTHER \<Rightarrow> Some [])"

section \<open>The reader stays inside the record and comes to an end\<close>

definition tlv_wf :: "sim_tlv \<Rightarrow> bool" where
  "tlv_wf s \<longleftrightarrow> mTlvLength s = length (mRecord s) \<and>
     (mHasValidTlvObject s \<longrightarrow> mCurOffset s + 2 \<le> mCurDataOffset s \<and>
        mCurDataOffset s + mCurDataLength s \<le> mTlvLength s)"

lemma parse_result:
  assumes "mTlvLength s = length (mRecord s)"
  shows "\<exists>v s'. parseCurrentTlvObject s = Some (v, s') \<and> tlv_wf (s'\<lparr>mHasValidTlvObject := v\<rparr>) \<and>
    mRecord s' = mRecord s \<and> mCurOffset s' = mCurOffset s"
  using assms by (auto simp: parseCurrentTlvObject_def tlv_check_def tlv_wf_def)

lemma SimTlv_new_wf: "\<exists>s. SimTlv_new r = Some s \<and> tlv_wf s \<and> mRecord s = r \<and> mCurOffset s = 0"
proof (cases "r = []")
  case True
  then show ?thesis by (simp add: SimTlv_new_def tlv_wf_def)
next
  case False
  let ?s = "\<lparr>mRecord = r, mTlvLength = length r, mCurOffset = 0, mCurDataOffset = 0, mCurDataLength = 0,
    mHasValidTlvObject = False\<rparr>"
  show ?thesis using parse_result [of ?s] False by (auto simp: SimTlv_new_def)
qed

lemma nextObject_wf:
  assumes "tlv_wf s"
  shows "\<exists>v s'. nextObject s = Some (v, s') \<and> tlv_wf s' \<and> mHasValidTlvObject s' = v \<and> mRecord s' = mRecord s \<and>
    (v \<longrightarrow> mCurOffset s + 2 \<le> mCurOffset s')"
proof (cases "mHasValidTlvObject s")
  case True
  let ?s = "s\<lparr>mCurOffset := mCurDataOffset s + mCurDataLength s\<rparr>"
  obtain v s' where "parseCurrentTlvObject ?s = Some (v, s')" "tlv_wf (s'\<lparr>mHasValidTlvObject := v\<rparr>)"
    "mRecord s' = mRecord s" "mCurOffset s' = mCurDataOffset s + mCurDataLength s"
    using parse_result [of ?s] assms by (auto simp: tlv_wf_def)
  then show ?thesis using True assms by (auto simp: nextObject_def tlv_wf_def)
qed (use assms in \<open>auto simp: nextObject_def\<close>)

lemma tlv_access:
  assumes "tlv_wf s"
  shows "tlv_getTag s \<noteq> None" and "tlv_getData s \<noteq> None"
  using assms by (auto simp: tlv_wf_def tlv_getTag_def tlv_getData_def)

text \<open>A caller that asks for the next object \<open>k\<close> times.\<close>

fun tlv_iter :: "nat \<Rightarrow> sim_tlv \<Rightarrow> sim_tlv option" where
  "tlv_iter 0 s = Some s"
| "tlv_iter (Suc k) s = (case nextObject s of None \<Rightarrow> None | Some (_, s') \<Rightarrow> tlv_iter k s')"

lemma tlv_iter_wf:
  "tlv_wf s \<Longrightarrow> \<exists>s'. tlv_iter k s = Some s' \<and> tlv_wf s' \<and> mRecord s' = mRecord s \<and>
     (mHasValidTlvObject s' \<longrightarrow> mCurOffset s + 2 * k \<le> mCurOffset s')"
proof (induction k arbitrary: s)
  case (Suc k)
  obtain v t where t: "nextObject s = Some (v, t)" "tlv_wf t" "mHasValidTlvObject t = v" "mRecord t = mRecord s"
    "v \<longrightarrow> mCurOffset s + 2 \<le> mCurOffset t" using nextObject_wf [OF Suc.prems] by blast
  have stop: "\<not> mHasValidTlvObject u \<Longrightarrow> tlv_iter j u = Some u" for u j
    by (induction j) (simp_all add: nextObject_def)
  from Suc.IH [OF t(2)] show ?case
    using t stop [of t k] by (cases v) auto
qed simp

section \<open>Null pointers of the resolver\<close>

inductive eons_reach :: "u8 list \<Rightarrow> eons \<Rightarrow> bool" for junk :: "u8 list" where
  Reset: "eons_reach junk eons_reset"
| File: "eons_reach junk s \<Longrightarrow> OnSimFileInfo junk f rs s = Some s' \<Longrightarrow> eons_reach junk s'"

lemma eons_present:
  "eons_reach junk s \<Longrightarrow>
   (mPnnDataState s = EF_PRESENT \<longrightarrow> (\<exists>ps. mpPnnRecords s = Some ps \<and> ps \<noteq> [])) \<and>
   (mOplDataState s = EF_PRESENT \<longrightarrow> (\<exists>ps. mpOplRecords s = Some ps \<and> ps \<noteq> []))"
proof (induction rule: eons_reach.induct)
  case Reset
  then show ?case by (simp add: eons_reset_def)
next
  case (File s f rs s')
  then show ?case
    by (cases f) (auto simp: OnSimFileInfo_def setPnnData_def setOplData_def resetPnnData_def
        resetOplData_def Let_def split: if_splits bind_splits)
qed

section \<open>Record numbers\<close>

lemma PnnRecords_new_filter:
  "PnnRecords_new junk rs = Some ps \<Longrightarrow>
   \<exists>qs. map (PnnRecord_new junk) rs = map Some qs \<and> ps = filter (\<lambda>p. mFullName p \<noteq> []) qs"
proof (induction rs arbitrary: ps)
  case (Cons r rs)
  then obtain p qs where p: "PnnRecord_new junk r = Some p" "PnnRecords_new junk rs = Some qs"
    "ps = (if mFullName p = [] then qs else p # qs)" by (auto split: bind_splits)
  from Cons.IH [OF p(2)] obtain ts where "map (PnnRecord_new junk) rs = map Some ts"
    "qs = filter (\<lambda>p. mFullName p \<noteq> []) ts" by blast
  then show ?case using p by (intro exI [of _ "p # ts"]) simp
qed simp

lemma count_nameless:
  "map f xs = map Some ys \<Longrightarrow>
   length (filter (\<lambda>x. map_option g (f x) = Some []) xs) = length (filter (\<lambda>y. g y = []) ys)"
proof (induction xs arbitrary: ys)
  case (Cons x xs)
  then obtain y zs where "ys = y # zs" "f x = Some y" "map f xs = map Some zs" by (cases ys) auto
  then show ?case using Cons.IH [of zs] by simp
qed simp

lemma filter_position:
  assumes "i < length xs" and "P (xs ! i)"
  shows "length (filter P (take i xs)) < length (filter P xs)"
    and "filter P xs ! length (filter P (take i xs)) = xs ! i"
proof -
  have "filter P xs = filter P (take i xs) @ xs ! i # filter P (drop (Suc i) xs)"
    using assms by (subst id_take_nth_drop [OF assms(1)]) simp
  then show "length (filter P (take i xs)) < length (filter P xs)"
    "filter P xs ! length (filter P (take i xs)) = xs ! i" by (simp_all add: nth_append)
qed

section \<open>PLMN digits\<close>

text \<open>3GPP TS 24.008: two digits to an octet, the low nibble first; the third MNC digit is in the second octet.\<close>

definition nib2 :: "nat \<Rightarrow> nat \<Rightarrow> u8" where
  "nib2 hi lo = push_bit 4 (word_of_nat hi) OR word_of_nat lo"

definition bcd_plmn :: "nat list \<Rightarrow> u8 list" where
  "bcd_plmn ds =
     [nib2 (ds ! 1) (ds ! 0), nib2 (if length ds = 6 then ds ! 5 else 15) (ds ! 2), nib2 (ds ! 4) (ds ! 3)]"

lemma nib_bit: "d < 16 \<Longrightarrow> 4 \<le> n \<Longrightarrow> \<not> bit (d :: nat) n"
proof -
  assume d: "d < 16" "4 \<le> n"
  then have "take_bit 4 d = d" by (simp add: take_bit_nat_eq_self)
  then show ?thesis using d(2) by (metis bit_take_bit_iff not_less)
qed

lemma nib_swap:
  assumes "a < 16" and "b < 16" and "c < 16" and "d < 16"
  shows "push_bit 4 (nib2 b a) OR (drop_bit 4 (nib2 b a) AND 0xF) = nib2 a b"
    and "push_bit 4 (nib2 b a) OR (nib2 d c AND 0xF) = nib2 a c"
    and "(nib2 b a AND 0xF0) OR (drop_bit 4 (nib2 d c) AND 0xF) = nib2 b d"
  unfolding nib2_def by (rule byte_eqI; simp add: bit_simps nib_bit assms)+

lemma hex2_nib2:
  assumes "hi < 16" and "lo < 16"
  shows "hex2 (nib2 hi lo) = [HEX_CHARS ! hi, HEX_CHARS ! lo]"
proof -
  have "list_all (\<lambda>hi. list_all (\<lambda>lo. hex2 (nib2 hi lo) = [HEX_CHARS ! hi, HEX_CHARS ! lo]) [0..<16]) [0..<16]"
    by code_simp
  then show ?thesis using assms by (simp add: list_all_iff)
qed

lemma hex_char_not_F: "d < 15 \<Longrightarrow> HEX_CHARS ! d \<noteq> 0x46"
  using hex_chars_nth [of d] by (auto simp: HexChar2Value_def)

definition plmn_digits :: "nat list \<Rightarrow> int list" where
  "plmn_digits ds = map int ds @ replicate (6 - length ds) 0"

lemma opl_getPlmn_digits:
  assumes "length ds = 5 \<or> length ds = 6" and "\<forall>d\<in>set ds. d < 15"
  shows "opl_getPlmn (bcd_plmn ds @ rest) = Some (plmn_digits ds)"
proof -
  from assms(1) consider a b c d e where "ds = [a, b, c, d, e]" | a b c d e f where "ds = [a, b, c, d, e, f]"
    by (auto simp: numeral_eq_Suc length_Suc_conv)
  then show ?thesis
  proof cases
    case (1 a b c d e)
    have lt: "a < 16" "b < 16" "c < 16" "d < 16" "e < 16" using assms(2) 1 by auto
    have F: "HEX_CHARS ! 15 = 0x46" by (simp add: HEX_CHARS_def)
    have e: "HEX_CHARS ! e \<noteq> 0x46" using assms(2) 1 by (simp add: hex_char_not_F)
    have "bcdPlmnToString (bcd_plmn ds @ rest) 0 (length (bcd_plmn ds @ rest)) =
        Some (map ((!) HEX_CHARS) [a, b, c, d, e])"
      using lt e F by (simp add: bcdPlmnToString_def bcd_plmn_def 1 nib_swap hexdump_def hex2_nib2
          bytesToHexString_def trim_F_def)
    then show ?thesis
      using lt by (simp add: opl_getPlmn_def plmn_digits_def 1 hex_chars_nth upt_rec)
  next
    case (2 a b c d e f)
    have lt: "a < 16" "b < 16" "c < 16" "d < 16" "e < 16" "f < 16" using assms(2) 2 by auto
    have f: "HEX_CHARS ! f \<noteq> 0x46" using assms(2) 2 by (simp add: hex_char_not_F)
    have "bcdPlmnToString (bcd_plmn ds @ rest) 0 (length (bcd_plmn ds @ rest)) =
        Some (map ((!) HEX_CHARS) [a, b, c, d, e, f])"
      using lt f by (simp add: bcdPlmnToString_def bcd_plmn_def 2 nib_swap hexdump_def hex2_nib2
          bytesToHexString_def trim_F_def)
    then show ?thesis
      using lt by (simp add: opl_getPlmn_def plmn_digits_def 2 hex_chars_nth upt_rec)
  qed
qed

lemma sint_small: "0 \<le> N \<Longrightarrow> N < 2 ^ 31 \<Longrightarrow> sint (word_of_int N :: u32) = N"
  by (simp add: sint_sbintrunc' signed_take_bit_int_eq_self)

lemma two_octets:
  "sint (push_bit 8 (ucast (h :: u8)) OR ucast (l :: u8) :: u32) = int (256 * unat h + unat l)"
proof -
  have "(push_bit 8 (ucast h) :: u32) AND ucast l = 0"
    by (rule bit_word_eqI) (auto simp: bit_simps dest: bit_imp_le_length)
  then have or: "(push_bit 8 (ucast h) OR ucast l :: u32) = push_bit 8 (ucast h) + ucast l"
    by (simp add: disjunctive_add_eq_or)
  have b: "unat h < 256" "unat l < 256"
    using unsigned_less [of h, where ?'a = nat] unsigned_less [of l, where ?'a = nat] by simp_all
  have e: "(push_bit 8 (ucast h) + ucast l :: u32) = word_of_int (int (256 * unat h + unat l))"
    by (simp add: push_bit_eq_mult)
  have "256 * unat h + unat l < 2147483648" using b by linarith
  then have B: "int (256 * unat h + unat l) < int 2147483648" by (simp only: of_nat_less_iff)
  show ?thesis unfolding or e by (rule sint_small) (use B in simp_all)
qed

lemma one_octet: "sint (ucast (l :: u8) :: u32) = int (unat l)"
  using two_octets [of 0 l] by simp

text \<open>A record of EF_OPL: the PLMN, the first and the last location area, the number of the name.\<close>

lemma OplRecord_new_digits:
  assumes "length ds = 5 \<or> length ds = 6" and "\<forall>d\<in>set ds. d < 15"
  shows "OplRecord_new (bcd_plmn ds @ [h1, l1, h2, l2, n]) =
    Some \<lparr>mPlmn = plmn_digits ds, mLac1 = int (256 * unat h1 + unat l1),
          mLac2 = int (256 * unat h2 + unat l2), mPnnRecordNumber = int (unat n)\<rparr>"
proof -
  have l: "length (bcd_plmn ds) = 3" by (simp add: bcd_plmn_def)
  have nn: "\<not> 256 * uint h + uint k < 0" for h k :: u8
    using uint_nonnegative [of h] uint_nonnegative [of k] by linarith
  have "bytesToInt (bcd_plmn ds @ [h1, l1, h2, l2, n]) 8 3 2 = Some (int (256 * unat h1 + unat l1))"
    "bytesToInt (bcd_plmn ds @ [h1, l1, h2, l2, n]) 8 5 2 = Some (int (256 * unat h2 + unat l2))"
    "bytesToInt (bcd_plmn ds @ [h1, l1, h2, l2, n]) 8 7 1 = Some (int (unat n))"
    using two_octets [of h1 l1] two_octets [of h2 l2] one_octet [of n] nn
    by (simp_all add: bytesToInt_def bcd_plmn_def numeral_eq_Suc Let_def)
  then show ?thesis
    using opl_getPlmn_digits [OF assms, of "[h1, l1, h2, l2, n]"] by (simp add: OplRecord_new_def l)
qed

definition ascii_digits :: "nat list \<Rightarrow> u8 list" where
  "ascii_digits os = map (\<lambda>d. 0x30 + word_of_nat d) os"

lemma bcch_plmn_digits:
  assumes "length os \<le> 6" and "\<forall>d\<in>set os. d < 10"
  shows "bcch_plmn (ascii_digits os) = plmn_digits os"
proof (rule nth_equalityI)
  show "length (bcch_plmn (ascii_digits os)) = length (plmn_digits os)"
    using assms(1) by (simp add: bcch_plmn_def plmn_digits_def)
next
  fix i assume "i < length (bcch_plmn (ascii_digits os))"
  then have i: "i < 6" by (simp add: bcch_plmn_def)
  have "uint (0x30 + word_of_nat d :: u8) = 0x30 + int d" if "d < 10" for d
    using that by (simp add: uint_nat unat_word_ariths unat_of_nat)
  then show "bcch_plmn (ascii_digits os) ! i = plmn_digits os ! i"
    using i assms by (simp add: bcch_plmn_def plmn_digits_def ascii_digits_def nth_append)
qed

lemma matchPlmn_digits:
  assumes "length ds \<le> 6" and "length os \<le> 6" and "\<forall>d\<in>set ds. d < 10"
  shows "matchPlmn (plmn_digits ds) (plmn_digits os) \<longleftrightarrow> plmn_digits ds = plmn_digits os"
proof -
  have "plmn_digits ds ! i \<noteq> 0x0D" if "i < 6" for i
  proof (cases "i < length ds")
    case True
    then have "ds ! i < 10" using assms(3) nth_mem by blast
    then show ?thesis using True by (simp add: plmn_digits_def nth_append)
  qed (use that assms(1) in \<open>simp add: plmn_digits_def nth_append\<close>)
  moreover have "length (plmn_digits ds) = 6" "length (plmn_digits os) = 6"
    using assms(1,2) by (simp_all add: plmn_digits_def)
  ultimately show ?thesis
    unfolding matchPlmn_def list_all2_conv_all_nth by (auto simp: list_eq_iff_nth_eq)
qed

lemma plmn_digits_eq:
  assumes "length ds = 5 \<or> length ds = 6" and "length os = 5 \<or> length os = 6"
  shows "plmn_digits ds = plmn_digits os \<longleftrightarrow> os = ds \<or> os = ds @ [0] \<or> ds = os @ [0]"
proof -
  have pad: "plmn_digits xs = map int (xs @ replicate (6 - length xs) 0)" for xs by (simp add: plmn_digits_def)
  have "plmn_digits ds = plmn_digits os \<longleftrightarrow> ds @ replicate (6 - length ds) 0 = os @ replicate (6 - length os) 0"
    unfolding pad by (rule inj_map_eq_map [OF inj_of_nat])
  also have "\<dots> \<longleftrightarrow> os = ds \<or> os = ds @ [0] \<or> ds = os @ [0]"
    using assms by (auto dest: arg_cong [of _ _ length])
  finally show ?thesis .
qed

section \<open>Names that are too long\<close>

lemma name_unpack:
  assumes "m \<le> 56" and "m \<le> length src"
  shows "\<exists>d. unpacking_gsm7bit src m (replicate 64 0) = Some (pack_src m, d) \<and> length d = 64"
proof -
  have "\<forall>i<m. pack_src i + 1 < length (replicate 64 (0 :: u8))"
  proof (intro allI impI)
    fix i assume "i < m"
    then have "pack_src i \<le> pack_src 55" using assms(1) by (intro pack_src_mono) simp
    then show "pack_src i + 1 < length (replicate 64 (0 :: u8))" by simp
  qed
  then show ?thesis using unpacking_eq [OF assms(2)] by fastforce
qed

lemma name_inside:
  assumes "1 \<le> m" and "m \<le> 56" and "m \<le> length src" and "u < 8"
  shows "DecodingNetworkNameFromSIM junk 0 src (int m) (sgn (int m * 8 - int u) * (\<bar>int m * 8 - int u\<bar> div 7))
    (replicate 64 0) 64 \<noteq> None"
proof -
  obtain d where d: "unpacking_gsm7bit src m (replicate 64 0) = Some (pack_src m, d)" "length d = 64"
    using name_unpack [OF assms(2,3)] by blast
  have pos: "0 < int m * 8 - int u" using assms(1,4) by linarith
  have "pack_src m \<le> pack_src 56" using assms(2) by (intro pack_src_mono)
  then have le: "pack_src m \<le> 64" by simp
  show ?thesis
    using d pos le by (auto simp: DecodingNetworkNameFromSIM_def sgn_if arr_set_def nat_less_iff pos_imp_zdiv_neg_iff)
qed

lemma name_overflow:
  assumes "57 \<le> m"
  shows "DecodingNetworkNameFromSIM junk 0 src (int m) k (replicate 64 0) 64 = None"
  using unpacking_overflow [of 56 m "replicate 64 0" src] assms by (simp add: DecodingNetworkNameFromSIM_def)

lemma name_empty:
  "DecodingNetworkNameFromSIM junk 0 src 0 k (replicate 64 0) 64 = None \<longleftrightarrow> k < 0"
  by (simp add: DecodingNetworkNameFromSIM_def unpacking_gsm7bit_def unpack_loop.simps)

lemma no_septets:
  assumes "u < 8" and "n = 0"
  shows "sgn (int n * 8 - int u) * (\<bar>int n * 8 - int u\<bar> div 7) < 0 \<longleftrightarrow> u = 7"
proof -
  from u8_cases [OF assms(1)] show ?thesis using assms(2) by (elim disjE) simp_all
qed

section \<open>Properties\<close>

text \<open>
  C38. Stepping through the objects of any record, of whatever contents, reads inside the record, and no
  valid object is left after half as many steps as the record has octets.
\<close>

theorem sim_tlv_terminates:
  "\<exists>s t. SimTlv_new r = Some s \<and> tlv_iter (length r div 2) s = Some t \<and> \<not> mHasValidTlvObject t \<and>
    (\<forall>k. \<exists>u. tlv_iter k s = Some u \<and> tlv_getTag u \<noteq> None \<and> tlv_getData u \<noteq> None)"
proof -
  obtain s where s: "SimTlv_new r = Some s" "tlv_wf s" "mRecord s = r" "mCurOffset s = 0"
    using SimTlv_new_wf by blast
  obtain t where t: "tlv_iter (length r div 2) s = Some t" "tlv_wf t" "mRecord t = r"
    "mHasValidTlvObject t \<longrightarrow> mCurOffset s + 2 * (length r div 2) \<le> mCurOffset t"
    using tlv_iter_wf [OF s(2), of "length r div 2"] s(3) by auto
  have "\<not> mHasValidTlvObject t"
  proof
    assume v: "mHasValidTlvObject t"
    then have "2 * (length r div 2) + 2 \<le> length r" using t s(4) by (auto simp: tlv_wf_def)
    then show False by presburger
  qed
  moreover have "\<exists>u. tlv_iter k s = Some u \<and> tlv_getTag u \<noteq> None \<and> tlv_getData u \<noteq> None" for k
    using tlv_iter_wf [OF s(2), of k] tlv_access by blast
  ultimately show ?thesis using s(1) t(1) by blast
qed

text \<open>
  A name field in the GSM alphabet is decoded on the stack in a buffer of 64 octets.  The decoder
  leaves it when the field has 58 octets or more, and also when the field consists of the coding octet
  alone and that announces seven unused bits.
\<close>

theorem network_name_overflow:
  assumes "data \<noteq> []" and "hd data AND 0x80 = 0x80" and "drop_bit 4 (hd data) AND 7 = 0"
  shows "networkNameToString junk data 0 (length data) = None \<longleftrightarrow>
    58 \<le> length data \<or> length data = 1 \<and> hd data AND 7 = 7"
proof -
  obtain b xs where d: "data = b # xs" using assms(1) by (cases data) auto
  let ?u = "unat (b AND 7)"
  let ?bits = "int (length xs) * 8 - int ?u"
  let ?k = "sgn ?bits * (\<bar>?bits\<bar> div 7)"
  have u: "?u < 8"
  proof -
    have "b AND 7 \<le> 7" by (rule word_and_le1)
    then show ?thesis by (simp add: word_le_nat_alt)
  qed
  have "networkNameToString junk data 0 (length data) = None \<longleftrightarrow>
      DecodingNetworkNameFromSIM junk 0 xs (int (length xs)) ?k (replicate 64 0) 64 = None"
    using assms(2,3) unfolding d by (simp add: networkNameToString_def Let_def split: bind_splits)
  also have "\<dots> \<longleftrightarrow> 57 \<le> length xs \<or> length xs = 0 \<and> ?u = 7"
  proof -
    consider "length xs = 0" | "1 \<le> length xs" "length xs \<le> 56" | "57 \<le> length xs" by linarith
    then show ?thesis
    proof cases
      case 1
      have "?k < 0 \<longleftrightarrow> ?u = 7"
        using u 1 by (rule no_septets)
      then show ?thesis using 1 name_empty by simp
    next
      case 2
      then have "\<not> (57 \<le> length xs \<or> length xs = 0 \<and> ?u = 7)" by linarith
      with name_inside [OF 2(1,2) order_refl u, of junk] show ?thesis by blast
    next
      case 3
      then show ?thesis using name_overflow [OF 3] by simp
    qed
  qed
  also have "\<dots> \<longleftrightarrow> 58 \<le> length data \<or> length data = 1 \<and> b AND 7 = 7"
    by (auto simp: d word_unat_eq_iff)
  finally show ?thesis by (simp add: d)
qed

theorem network_name_overflow_witness: "networkNameToString [] (replicate 58 0x80) 0 58 = None"
proof -
  have "hd (replicate 58 0x80) AND 0x80 = (0x80 :: u8)" "drop_bit 4 (hd (replicate 58 (0x80 :: u8))) AND 7 = 0"
    by simp_all
  from network_name_overflow [OF _ this, of "[]"] show ?thesis by simp
qed

text \<open>
  C27. In every state that the network service can bring the resolver into, asking for the name of an
  operator follows no null pointer, whichever files of the card were read, in whatever order, with
  whatever records, and however often.
\<close>

theorem eons_names_no_null_pointer:
  assumes "eons_reach junk s"
  shows "updateOperatorNameFromEonsResolver s operatorNumeric simOperator lac useType \<noteq> None"
  using eons_present [OF assms]
  by (cases useType)
    (auto simp: updateOperatorNameFromEonsResolver_def updateEons_def getEonsForAvailableNetworks_def
      getEonsState_def updateEonsFromOplAndPnn_def updateEonsIfHplmn_def split: if_splits)

theorem eons_names_no_null_pointer_witness:
  "\<exists>s. OnSimFileInfo [] NET_SIM_EF_PNN [[0x43, 0x02, 0x81, 0x41]] eons_reset = Some s \<and>
    mPnnDataState s = EF_PRESENT \<and>
    updateOperatorNameFromEonsResolver s [0x30] [0x30] 0 EONS_RESOLVER_REG_OPERATOR \<noteq> None"
proof -
  have "map_option mPnnDataState (OnSimFileInfo [] NET_SIM_EF_PNN [[0x43, 0x02, 0x81, 0x41]] eons_reset) =
      Some EF_PRESENT" by code_simp
  then obtain s where s: "OnSimFileInfo [] NET_SIM_EF_PNN [[0x43, 0x02, 0x81, 0x41]] eons_reset = Some s"
    "mPnnDataState s = EF_PRESENT" by auto
  have "eons_reach [] s" by (rule eons_reach.File [OF eons_reach.Reset s(1)])
  from eons_names_no_null_pointer [OF this] show ?thesis using s by blast
qed

text \<open>
  The records of EF_PNN that have no full name are left out, and the others are numbered anew: the
  name of the record at position \<open>i\<close> is found under \<open>i + 1\<close> less the number of nameless records
  before it.  EF_OPL refers to the positions in the file, so that its numbers name a wrong record as
  soon as a nameless record precedes.
\<close>

theorem pnn_record_numbers:
  assumes "PnnRecords_new junk rs = Some ps" and "i < length rs"
    and "PnnRecord_new junk (rs ! i) = Some p" and "mFullName p \<noteq> []"
  shows "getNameFromPnnRecord ps
      (int (i + 1) - int (length (filter (\<lambda>r. map_option mFullName (PnnRecord_new junk r) = Some []) (take i rs)))) =
    mFullName p"
proof -
  obtain qs where qs: "map (PnnRecord_new junk) rs = map Some qs" "ps = filter (\<lambda>p. mFullName p \<noteq> []) qs"
    using PnnRecords_new_filter [OF assms(1)] by blast
  have nth: "PnnRecord_new junk (rs ! j) = Some (qs ! j)" if "j < length rs" for j
    using qs(1) that by (metis length_map nth_map)
  have len: "length qs = length rs" using qs(1) by (metis length_map)
  have i: "i < length qs" "mFullName (qs ! i) \<noteq> []" "qs ! i = p" using assms(2-4) nth len by auto
  have "map (PnnRecord_new junk) (take i rs) = map Some (take i qs)" using qs(1) by (metis take_map)
  then have nameless: "length (filter (\<lambda>r. map_option mFullName (PnnRecord_new junk r) = Some []) (take i rs)) =
      length (filter (\<lambda>p. mFullName p = []) (take i qs))"
    by (rule count_nameless)
  have "length (filter (\<lambda>p. mFullName p \<noteq> []) (take i qs)) + length (filter (\<lambda>p. mFullName p = []) (take i qs)) = i"
    using sum_length_filter_compl [of "\<lambda>p. mFullName p \<noteq> []" "take i qs"] i(1) by simp
  then have pos: "int (i + 1) - int (length (filter (\<lambda>p. mFullName p = []) (take i qs))) =
      int (length (filter (\<lambda>p. mFullName p \<noteq> []) (take i qs))) + 1" by linarith
  show ?thesis
    unfolding nameless pos getNameFromPnnRecord_def qs(2)
    using filter_position [OF i(1), of "\<lambda>p. mFullName p \<noteq> []"] i(2,3) by simp
qed

theorem pnn_record_numbers_witness:
  "\<exists>ps. PnnRecords_new [] [[0xFF, 0xFF], [0x43, 0x02, 0x81, 0x41]] = Some ps \<and>
    getNameFromPnnRecord ps 1 = [0x41] \<and> getNameFromPnnRecord ps 2 = []"
proof -
  let ?rs = "[[0xFF, 0xFF], [0x43, 0x02, 0x81, 0x41]] :: u8 list list"
  have p: "PnnRecord_new [] (?rs ! 1) = Some \<lparr>mFullName = [0x41], mShortName = [], mAddInfo = []\<rparr>"
    and ps: "PnnRecords_new [] ?rs = Some [\<lparr>mFullName = [0x41], mShortName = [], mAddInfo = []\<rparr>]"
    and e: "map_option mFullName (PnnRecord_new [] [0xFF, 0xFF]) = Some []" by code_simp+
  have "getNameFromPnnRecord [\<lparr>mFullName = [0x41], mShortName = [], mAddInfo = []\<rparr>] 1 = [0x41]"
    using pnn_record_numbers [OF ps _ p] e by simp
  moreover have "getNameFromPnnRecord [\<lparr>mFullName = [0x41], mShortName = [], mAddInfo = []\<rparr>] 2 = []"
    by (simp add: getNameFromPnnRecord_def)
  ultimately show ?thesis using ps by blast
qed

text \<open>
  C28. A record of EF_OPL that encodes the digits of a network as 3GPP TS 24.008 prescribes, with the
  location areas from \<open>a\<close> to \<open>b\<close>, gives its record number for a network with just these digits
  in such an area and zero for others, with one exception: the missing sixth digit is taken for a zero,
  so that a network code of two digits and the code of three digits that ends in an additional zero are
  not told apart.
\<close>

theorem opl_record_matches:
  assumes "length ds = 5 \<or> length ds = 6" and "\<forall>d\<in>set ds. d < 10"
    and "length os = 5 \<or> length os = 6" and "\<forall>d\<in>set os. d < 10"
  shows "\<exists>r. OplRecord_new (bcd_plmn ds @ [a1, a2, b1, b2, n]) = Some r \<and>
    getMatchingPnnRecord [r] (ascii_digits os) lac True =
      (if (os = ds \<or> os = ds @ [0] \<or> ds = os @ [0]) \<and>
          int (256 * unat a1 + unat a2) \<le> lac \<and> lac \<le> int (256 * unat b1 + unat b2)
       then int (unat n) else 0) \<and>
    getMatchingPnnRecord [r] (ascii_digits os) lac False =
      (if os = ds \<or> os = ds @ [0] \<or> ds = os @ [0] then int (unat n) else 0)"
proof -
  have d15: "\<forall>d\<in>set ds. d < 15" using assms(2) by auto
  have l: "length ds \<le> 6" "length os \<le> 6" using assms(1,3) by auto
  have o: "ascii_digits os \<noteq> []" "length (ascii_digits os) = 5 \<or> length (ascii_digits os) = 6"
    using assms(3) by (auto simp: ascii_digits_def)
  have neg: "\<not> (int (256 * unat a1 + unat a2) \<le> -1)" by linarith
  let ?A = "int (256 * unat a1 + unat a2)" and ?B = "int (256 * unat b1 + unat b2)"
  let ?r = "\<lparr>mPlmn = plmn_digits ds, mLac1 = ?A, mLac2 = ?B, mPnnRecordNumber = int (unat n)\<rparr>"
  let ?same = "os = ds \<or> os = ds @ [0] \<or> ds = os @ [0]"
  have m: "matchPlmn (mPlmn ?r) (bcch_plmn (ascii_digits os)) \<longleftrightarrow> ?same"
    unfolding bcch_plmn_digits [OF l(2) assms(4)] using matchPlmn_digits [OF l assms(2)] plmn_digits_eq [OF assms(1,3)]
    by simp
  have "first_match [?r] (bcch_plmn (ascii_digits os)) k u =
      (if ?same \<and> (\<not> u \<or> ?A \<le> k \<and> k \<le> ?B) then int (unat n) else 0)" for k u
    unfolding first_match.simps m by (simp only: opl_record.simps)
  then have g: "getMatchingPnnRecord [?r] (ascii_digits os) k u =
      (if u \<and> k = -1 then 0 else if ?same \<and> (\<not> u \<or> ?A \<le> k \<and> k \<le> ?B) then int (unat n) else 0)" for k u
    using o unfolding getMatchingPnnRecord_def by (simp only: if_False) auto
  have "getMatchingPnnRecord [?r] (ascii_digits os) lac True =
      (if ?same \<and> ?A \<le> lac \<and> lac \<le> ?B then int (unat n) else 0)"
    unfolding g using neg by (cases "lac = -1") (simp_all only: simp_thms if_True if_False)
  moreover have "getMatchingPnnRecord [?r] (ascii_digits os) lac False = (if ?same then int (unat n) else 0)"
    unfolding g by (simp only: simp_thms if_False)
  ultimately show ?thesis using OplRecord_new_digits [OF assms(1) d15, of a1 a2 b1 b2 n] by blast
qed

theorem opl_record_matches_witness:
  "\<exists>r. OplRecord_new (bcd_plmn [4, 5, 0, 0, 5] @ [0, 0, 0xFF, 0xFE, 3]) = Some r \<and>
    getMatchingPnnRecord [r] (ascii_digits [4, 5, 0, 0, 5, 0]) 7 True = 3"
  using opl_record_matches [where ds = "[4, 5, 0, 0, 5]" and os = "[4, 5, 0, 0, 5, 0]" and ?a1.0 = 0 and ?a2.0 = 0
      and ?b1.0 = "0xFF" and ?b2.0 = "0xFE" and n = 3 and lac = 7] by auto

end
