(* ===== verification/Sms_Pdu.thy ===== *)
theory Sms_Pdu
  imports Hex_Text
begin

text \<open>
  \<^verbatim>\<open>sitril/fw/smsdata.cpp\<close>: the data of GSM short messages on their way from the framework
  (hexadecimal strings) to the modem (octets) and back.  A C string is the list of its characters
  without the terminating zero, \<^verbatim>\<open>NULL\<close> is the inner \<open>None\<close>, an access outside an
  object is the outer \<open>None\<close>, and \<open>junk\<close> is memory that was never written.
\<close>

definition MAX_GSM_SMS_TPDU_SIZE :: nat where "MAX_GSM_SMS_TPDU_SIZE = 244"
definition MAX_GSM_SMS_SERVICE_CENTER_ADDR :: nat where "MAX_GSM_SMS_SERVICE_CENTER_ADDR = 12"

lemmas sms_sizes = MAX_GSM_SMS_TPDU_SIZE_def MAX_GSM_SMS_SERVICE_CENTER_ADDR_def

text \<open>\<^verbatim>\<open>memcpy(dst, src, n)\<close> for an \<^verbatim>\<open>int\<close>; a negative length is a huge one.\<close>

definition copy_in :: "u8 list \<Rightarrow> nat \<Rightarrow> u8 list \<Rightarrow> int \<Rightarrow> u8 list option" where
  "copy_in dst i src n =
     (if 0 \<le> n \<and> n \<le> int (length src) then arr_blit dst i (take (nat n) src) else None)"

section \<open>The protocol data unit\<close>

record pdu =
  mData :: "u8 list"
  mLen :: int
  mHex :: "u8 list option"

definition Pdu_new :: pdu where
  "Pdu_new = \<lparr>mData = replicate MAX_GSM_SMS_TPDU_SIZE 0, mLen = 0, mHex = None\<rparr>"

definition Pdu_of_data :: "u8 list option \<Rightarrow> int \<Rightarrow> pdu option" where
  "Pdu_of_data data len =
     (case data of
        Some xs \<Rightarrow>
          if 0 < len \<and> len \<le> int MAX_GSM_SMS_TPDU_SIZE
          then do { buf \<leftarrow> copy_in (mData Pdu_new) 0 xs len; Some (Pdu_new\<lparr>mData := buf, mLen := len\<rparr>) }
          else Some Pdu_new
      | None \<Rightarrow> Some Pdu_new)"

definition Pdu_SetRawData :: "u8 list \<Rightarrow> pdu \<Rightarrow> pdu option" where
  "Pdu_SetRawData hexStr p = do {
     (n, buf) \<leftarrow> ConvertToRaw_sized hexStr (replicate MAX_GSM_SMS_TPDU_SIZE 0) (int MAX_GSM_SMS_TPDU_SIZE);
     Some (p\<lparr>mData := buf, mLen := int n, mHex := None\<rparr>) }"

definition Pdu_of_hex :: "u8 list option \<Rightarrow> pdu option" where
  "Pdu_of_hex hexStr = (case hexStr of None \<Rightarrow> Some Pdu_new | Some s \<Rightarrow> Pdu_SetRawData s Pdu_new)"

definition Pdu_copy :: "pdu \<Rightarrow> pdu" where
  "Pdu_copy p = p\<lparr>mHex := None\<rparr>"

text \<open>Assignment; \<open>same\<close> tells whether both sides are one object.\<close>

definition Pdu_assign :: "bool \<Rightarrow> pdu \<Rightarrow> pdu \<Rightarrow> pdu" where
  "Pdu_assign same self p = (if same then self else self\<lparr>mData := mData p, mLen := mLen p, mHex := None\<rparr>)"

text \<open>The first \<open>n\<close> octets of an array, as hexadecimal digits in a fresh string.\<close>

definition hex_of :: "u8 list \<Rightarrow> int \<Rightarrow> u8 list option" where
  "hex_of xs n = (if 0 \<le> n \<and> n \<le> int (length xs)
     then map_option cstring (ConvertToHexString_new (take (nat n) xs)) else None)"

definition Pdu_ToHexString :: "pdu \<Rightarrow> (u8 list \<times> pdu) option" where
  "Pdu_ToHexString p =
     (case mHex p of
        Some h \<Rightarrow> Some (h, p)
      | None \<Rightarrow> do { h \<leftarrow> hex_of (mData p) (mLen p); Some (h, p\<lparr>mHex := Some h\<rparr>) })"

section \<open>The address of the service center\<close>

record sms_center =
  sc_mAddr :: "u8 list"
  sc_mLen :: int
  sc_mType :: int
  sc_mHex :: "u8 list option"

definition SmsCenter_new :: sms_center where
  "SmsCenter_new = \<lparr>sc_mAddr = replicate MAX_GSM_SMS_SERVICE_CENTER_ADDR 0, sc_mLen = 0, sc_mType = 0,
     sc_mHex = None\<rparr>"

definition SmsCenter_copy :: "sms_center option \<Rightarrow> sms_center" where
  "SmsCenter_copy smsc =
     (case smsc of
        None \<Rightarrow> SmsCenter_new\<lparr>sc_mLen := 1\<rparr>
      | Some c \<Rightarrow> SmsCenter_new\<lparr>sc_mAddr := sc_mAddr c, sc_mLen := sc_mLen c\<rparr>)"

definition SmsCenter_of_hex :: "u8 list option \<Rightarrow> sms_center option" where
  "SmsCenter_of_hex smsc =
     (let c = SmsCenter_new\<lparr>sc_mLen := 1\<rparr> in
      case smsc of
        None \<Rightarrow> Some c
      | Some s \<Rightarrow>
          if length s \<le> MAX_GSM_SMS_SERVICE_CENTER_ADDR * 2 then do {
            (n, buf) \<leftarrow> ConvertToRaw_sized s (sc_mAddr c) (int MAX_GSM_SMS_SERVICE_CENTER_ADDR);
            Some (c\<lparr>sc_mAddr := buf, sc_mLen := int n\<rparr>) }
          else Some c)"

text \<open>
  From octets: the length is the one the first octet announces, at most \<open>len\<close>; the array is cleared on
  the error path only.
\<close>

definition SmsCenter_of_data :: "u8 list \<Rightarrow> u8 list \<Rightarrow> int \<Rightarrow> sms_center option" where
  "SmsCenter_of_data junk smsc len =
     (if len > int MAX_GSM_SMS_SERVICE_CENTER_ADDR then Some (SmsCenter_new\<lparr>sc_mLen := 1\<rparr>)
      else do {
        x \<leftarrow> arr_get smsc 0;
        let scaLen = (if uint x > len - 1 then len - 1 else uint x);
        buf \<leftarrow> copy_in junk 0 smsc (scaLen + 1);
        Some (SmsCenter_new\<lparr>sc_mAddr := buf, sc_mLen := scaLen + 1\<rparr>) })"

definition SmsCenter_ToHexString :: "sms_center \<Rightarrow> (u8 list \<times> sms_center) option" where
  "SmsCenter_ToHexString c =
     (case sc_mHex c of
        Some h \<Rightarrow> Some (h, c)
      | None \<Rightarrow> do { h \<leftarrow> hex_of (sc_mAddr c) (sc_mLen c); Some (h, c\<lparr>sc_mHex := Some h\<rparr>) })"

definition UseRilSmsc :: "sms_center \<Rightarrow> bool" where
  "UseRilSmsc c \<longleftrightarrow> sc_mLen c \<le> 1"

section \<open>GSM and SIM short messages\<close>

record gsm_sms =
  mSmsc :: "sms_center option"
  mPdu :: "pdu option"
  mSimIndex :: int
  mClass :: int
  mMessageRef :: int
  g_mHex :: "u8 list option"

definition GsmSms_Init :: gsm_sms where
  "GsmSms_Init = \<lparr>mSmsc = None, mPdu = None, mSimIndex = 0xFFFF, mClass = -1, mMessageRef = -1, g_mHex = None\<rparr>"

text \<open>The two strings of the request; \<open>None\<close> is \<^verbatim>\<open>NULL\<close>.\<close>

definition GsmSms_encode :: "u8 list option \<Rightarrow> u8 list option \<Rightarrow> gsm_sms option" where
  "GsmSms_encode smsc hex = do {
     c \<leftarrow> SmsCenter_of_hex smsc;
     p \<leftarrow> Pdu_of_hex hex;
     Some (GsmSms_Init\<lparr>mSmsc := Some c, mPdu := Some p\<rparr>) }"

definition GsmSms_copy :: "u8 list \<Rightarrow> gsm_sms \<Rightarrow> gsm_sms option" where
  "GsmSms_copy junk m = do {
     c \<leftarrow> (case mSmsc m of None \<Rightarrow> Some None
           | Some c \<Rightarrow> map_option Some (SmsCenter_of_data junk (sc_mAddr c) (sc_mLen c)));
     p \<leftarrow> (case mPdu m of None \<Rightarrow> Some None
           | Some p \<Rightarrow> map_option Some (Pdu_of_data (Some (mData p)) (mLen p)));
     Some (GsmSms_Init\<lparr>mSmsc := c, mPdu := p, mSimIndex := mSimIndex m\<rparr>) }"

text \<open>The static buffer of \<^verbatim>\<open>GetRawByte\<close>; \<open>stat\<close> is what it held before.\<close>

definition GsmSms_GetRawByte :: "u8 list \<Rightarrow> gsm_sms \<Rightarrow> u8 list option" where
  "GsmSms_GetRawByte stat m = do {
     c \<leftarrow> mSmsc m;
     p \<leftarrow> mPdu m;
     buf \<leftarrow> copy_in stat 0 (sc_mAddr c) (sc_mLen c);
     copy_in buf (nat (sc_mLen c)) (mData p) (mLen p) }"

definition GsmSms_GetLength :: "gsm_sms \<Rightarrow> int option" where
  "GsmSms_GetLength m = do { c \<leftarrow> mSmsc m; p \<leftarrow> mPdu m; Some (sc_mLen c + mLen p) }"

text \<open>
  The size given to \<^verbatim>\<open>snprintf\<close> leaves out the terminating zero, which costs the last digit.
\<close>

definition GsmSms_ToHexString :: "gsm_sms \<Rightarrow> (u8 list option \<times> gsm_sms) option" where
  "GsmSms_ToHexString m =
     (case g_mHex m of
        Some h \<Rightarrow> Some (Some h, m)
      | None \<Rightarrow> do {
          c \<leftarrow> mSmsc m;
          p \<leftarrow> mPdu m;
          (smsc, c) \<leftarrow> SmsCenter_ToHexString c;
          (hex, p) \<leftarrow> Pdu_ToHexString p;
          let m = m\<lparr>mSmsc := Some c, mPdu := Some p\<rparr>;
          (if length smsc \<le> MAX_GSM_SMS_SERVICE_CENTER_ADDR * 2 \<and> length hex \<le> MAX_GSM_SMS_TPDU_SIZE * 2
           then (let n = length smsc + length hex + 1 in do {
             (k, buf) \<leftarrow> snprintf_at (replicate n 0) 0 (n - 1) (smsc @ hex);
             Some (Some (cstring buf), m\<lparr>g_mHex := Some (cstring buf)\<rparr>) })
           else Some (None, m)) })"

record sim_sms = gsm_sms +
  mStatus :: int
  mStorage :: int

record sms_write_args =
  wa_status :: int
  wa_pdu :: "u8 list option"
  wa_smsc :: "u8 list option"

definition MESSAGE_CLASS_0 :: int where "MESSAGE_CLASS_0 = 0"
definition MESSAGE_CLASS_1 :: int where "MESSAGE_CLASS_1 = 1"
definition MESSAGE_CLASS_2 :: int where "MESSAGE_CLASS_2 = 2"

lemmas message_classes = MESSAGE_CLASS_0_def MESSAGE_CLASS_1_def MESSAGE_CLASS_2_def

definition SimSms_new :: sim_sms where
  "SimSms_new = gsm_sms.extend GsmSms_Init (sim_sms.fields (-1) (-1))"

definition SimSms_encode :: "sms_write_args option \<Rightarrow> nat \<Rightarrow> (int \<times> sim_sms) option" where
  "SimSms_encode args datalen =
     (case args of
        None \<Rightarrow> Some (-1, SimSms_new)
      | Some w \<Rightarrow>
          if datalen = 0 then Some (-1, SimSms_new)
          else do {
            p \<leftarrow> Pdu_of_hex (wa_pdu w);
            c \<leftarrow> SmsCenter_of_hex (wa_smsc w);
            Some (0, SimSms_new\<lparr>mPdu := Some p, mSmsc := Some c, mStatus := wa_status w,
                                mClass := MESSAGE_CLASS_0\<rparr>) })"

section \<open>Acknowledgements\<close>

record sms_ack =
  ack_mResult :: int
  mFailureCause :: int

definition SmsAcknowledge_new :: sms_ack where
  "SmsAcknowledge_new = \<lparr>ack_mResult = -1, mFailureCause = -1\<rparr>"

text \<open>Two integers; neither the pointer nor the length is checked.\<close>

definition SmsAcknowledge_encode :: "int list option \<Rightarrow> (int \<times> sms_ack) option" where
  "SmsAcknowledge_encode data = do {
     p \<leftarrow> data; a \<leftarrow> arr_get p 0; b \<leftarrow> arr_get p 1;
     Some (0, \<lparr>ack_mResult = a, mFailureCause = b\<rparr>) }"

record sms_ack_pdu =
  ap_mResult :: int
  ap_mPdu :: "pdu option"

text \<open>Two strings: the result is the code of the first character of the first one.\<close>

definition SmsAcknowledgePdu_encode :: "u8 list option \<Rightarrow> u8 list option \<Rightarrow> (int \<times> sms_ack_pdu) option" where
  "SmsAcknowledgePdu_encode result hex = do {
     r \<leftarrow> result;
     p \<leftarrow> Pdu_of_hex hex;
     Some (0, \<lparr>ap_mResult = (case r of [] \<Rightarrow> 0 | c # _ \<Rightarrow> uint c), ap_mPdu = Some p\<rparr>) }"

section \<open>Addresses\<close>

record gsm_address =
  ga_mAddr :: "u8 list"
  ga_mLen :: int
  ga_mString :: "u8 list option"

definition GsmSmsAddress_new :: gsm_address where
  "GsmSmsAddress_new = \<lparr>ga_mAddr = replicate MAX_GSM_SMS_SERVICE_CENTER_ADDR 0, ga_mLen = 0, ga_mString = None\<rparr>"

definition GsmSmsAddress_of_data :: "u8 list \<Rightarrow> int \<Rightarrow> gsm_address option" where
  "GsmSmsAddress_of_data data len =
     (let len = (if len > int MAX_GSM_SMS_SERVICE_CENTER_ADDR then int MAX_GSM_SMS_SERVICE_CENTER_ADDR else len) in do {
        buf \<leftarrow> copy_in (replicate MAX_GSM_SMS_SERVICE_CENTER_ADDR 0) 0 data len;
        Some (GsmSmsAddress_new\<lparr>ga_mAddr := buf, ga_mLen := len\<rparr>) })"

text \<open>The comparison covers two octets more than the length.\<close>

definition GsmSmsAddress_eq :: "gsm_address \<Rightarrow> gsm_address \<Rightarrow> bool option" where
  "GsmSmsAddress_eq a b =
     (if ga_mLen a \<noteq> ga_mLen b then Some False
      else if 0 \<le> ga_mLen a + 2 \<and> nat (ga_mLen a + 2) \<le> length (ga_mAddr a) \<and> nat (ga_mLen a + 2) \<le> length (ga_mAddr b)
      then Some (take (nat (ga_mLen a + 2)) (ga_mAddr a) = take (nat (ga_mLen a + 2)) (ga_mAddr b))
      else None)"

text \<open>What \<^verbatim>\<open>sprintf\<close> prints for a nibble with \<^verbatim>\<open>%d\<close>.\<close>

definition nibble_text :: "u8 \<Rightarrow> u8 list" where
  "nibble_text b = (if b \<ge> 10 then [0x31, 0x30 + (b - 10)] else [0x30 + b])"

definition sprintf_at :: "u8 list \<Rightarrow> nat \<Rightarrow> u8 list \<Rightarrow> (nat \<times> u8 list) option" where
  "sprintf_at buf n txt = do { buf \<leftarrow> arr_blit buf n (txt @ [0]); Some (n + length txt, buf) }"

fun address_loop :: "nat \<Rightarrow> nat \<Rightarrow> nat \<Rightarrow> u8 list \<Rightarrow> nat \<Rightarrow> u8 list \<Rightarrow> u8 list option" where
  "address_loop addrLen i 0 addr n str = Some str"
| "address_loop addrLen i (Suc k) addr n str = do {
     b \<leftarrow> arr_get addr (i + 2);
     (n, str) \<leftarrow> sprintf_at str n (nibble_text (b AND 0xF));
     (n, str) \<leftarrow> (if (i + 1) * 2 \<le> addrLen then sprintf_at str n (nibble_text (drop_bit 4 b AND 0xF))
                  else Some (n, str));
     address_loop addrLen (i + 1) k addr n str }"

text \<open>The string starts as the content of fresh memory.\<close>

definition GsmSmsAddress_ToString :: "u8 list \<Rightarrow> gsm_address \<Rightarrow> (u8 list \<times> gsm_address) option" where
  "GsmSmsAddress_ToString junk a =
     (case ga_mString a of
        Some s \<Rightarrow> Some (s, a)
      | None \<Rightarrow> do {
          x \<leftarrow> arr_get (ga_mAddr a) 0;
          s \<leftarrow> address_loop (unat x) 0 (nat (ga_mLen a - 2)) (ga_mAddr a) 0 (take (unat x + 1) junk);
          Some (s, a\<lparr>ga_mString := Some s\<rparr>) })"

section \<open>The parser\<close>

record pdu_parser =
  pp_mPdu :: "pdu option"
  mCur :: int
  m_cPdu :: int
  m_scalen :: int
  m_sca :: "u8 list"
  m_smsclass :: int

text \<open>Reading a \<^verbatim>\<open>char\<close> at an index that may be anything.\<close>

definition arr_at :: "u8 list \<Rightarrow> int \<Rightarrow> u8 option" where
  "arr_at xs i = (if 0 \<le> i then arr_get xs (nat i) else None)"

definition PduParser_new :: "u8 list \<Rightarrow> pdu option \<Rightarrow> pdu_parser" where
  "PduParser_new junk p =
     \<lparr>pp_mPdu = p, mCur = 0, m_cPdu = 0, m_scalen = 0, m_sca = (take 24 junk)[0 := 0],
      m_smsclass = MESSAGE_CLASS_0\<rparr>"

definition GetByte :: "pdu_parser \<Rightarrow> (int \<times> pdu_parser) option" where
  "GetByte s = do {
     p \<leftarrow> pp_mPdu s;
     b \<leftarrow> arr_at (mData p) (mCur s);
     let cur = mCur s + 1;
     Some (uint b, s\<lparr>mCur := (if cur = mLen p then mLen p - 1 else cur)\<rparr>) }"

definition GetSCTimestamp :: "pdu_parser \<Rightarrow> int \<times> pdu_parser" where
  "GetSCTimestamp s = (0, s\<lparr>mCur := mCur s + 7\<rparr>)"

definition pp_GetAddress :: "pdu_parser \<Rightarrow> (gsm_address \<times> pdu_parser) option" where
  "pp_GetAddress s = do {
     p \<leftarrow> pp_mPdu s;
     b \<leftarrow> arr_at (mData p) (mCur s);
     let lengthBytes = 2 + (uint b + 1) div 2;
     a \<leftarrow> GsmSmsAddress_of_data (drop (nat (mCur s)) (mData p)) lengthBytes;
     Some (a, s\<lparr>mCur := mCur s + lengthBytes\<rparr>) }"

text \<open>
  The parser of hexadecimal strings; \<open>pdu\<close> is the memory from the start of the string on, and
  \<^verbatim>\<open>m_cPdu\<close> is an index into it.
\<close>

definition hex_octet :: "u8 list \<Rightarrow> int \<Rightarrow> int option" where
  "hex_octet mem i = do {
     a \<leftarrow> arr_at mem i; b \<leftarrow> arr_at mem (i + 1);
     Some (push_bit 4 (HexChar2Value a) OR HexChar2Value b) }"

definition GetScaLen :: "u8 list \<Rightarrow> pdu_parser \<Rightarrow> (int \<times> pdu_parser) option" where
  "GetScaLen pdu s = do {
     n \<leftarrow> hex_octet pdu 0;
     Some (n, s\<lparr>m_cPdu := 0, m_scalen := n\<rparr>) }"

definition GetSca :: "u8 list \<Rightarrow> pdu_parser \<Rightarrow> pdu_parser option" where
  "GetSca pdu s = do {
     (n, s) \<leftarrow> GetScaLen pdu s;
     buf \<leftarrow> copy_in (m_sca s) 0 pdu ((n + 1) * 2);
     Some (s\<lparr>m_sca := buf\<rparr>) }"

definition GetSmsClass :: "u8 list option \<Rightarrow> pdu_parser \<Rightarrow> (int \<times> pdu_parser) option" where
  "GetSmsClass pdu s = do {
     pdu \<leftarrow> pdu;
     s \<leftarrow> GetSca pdu s;
     let cur = (m_scalen s + 1) * 2 + 2;
     do_len \<leftarrow> hex_octet pdu cur;
     let cur = cur + (if do_len mod 2 = 0 then do_len + 4 else do_len + 5) + 2;
     a \<leftarrow> arr_at pdu (cur + 1);
     b \<leftarrow> arr_at pdu cur;
     let c = HexChar2Value a AND 0x3;
     Some (c, s\<lparr>m_cPdu := cur, m_smsclass := c\<rparr>) }"

section \<open>Broadcast configurations\<close>

definition MAX_BCST_INFO_NUM :: nat where "MAX_BCST_INFO_NUM = 50"

definition BroadcastSmsConfigs :: "'c list option \<Rightarrow> u8 \<Rightarrow> 'c list option" where
  "BroadcastSmsConfigs configs num =
     (case configs of
        None \<Rightarrow> Some []
      | Some xs \<Rightarrow> let n = min (unat num) MAX_BCST_INFO_NUM in
          if n \<le> length xs then Some (take n xs) else None)"

definition BroadcastSmsConfigs_encode ::
    "nat \<Rightarrow> 'c option list option \<Rightarrow> nat \<Rightarrow> (int \<times> 'c list option) option" where
  "BroadcastSmsConfigs_encode psize data datalen =
     (case data of
        None \<Rightarrow> Some (-1, None)
      | Some ptrs \<Rightarrow>
          if datalen = 0 then Some (-1, None)
          else let num = datalen div psize in
            if num > length ptrs then None
            else if None \<in> set (take num ptrs) then Some (-1, None)
            else do {
              cs \<leftarrow> BroadcastSmsConfigs (Some (map the (take num ptrs))) (of_nat num);
              Some (0, Some cs) })"

definition GetConfigsNumber :: "'c list option \<Rightarrow> u8" where
  "GetConfigsNumber cfg = (case cfg of None \<Rightarrow> 0 | Some cs \<Rightarrow> of_nat (length cs))"

section \<open>Hexadecimal strings and octets\<close>

lemma hexcharint_nth: "n < 16 \<Longrightarrow> HexCharToInt (HEX_CHARS ! n) = word_of_nat n"
proof -
  have "list_all (\<lambda>n. HexCharToInt (HEX_CHARS ! n) = word_of_nat n) [0..<16]" by code_simp
  then show "n < 16 \<Longrightarrow> ?thesis" by (simp add: list_all_iff)
qed

lemma raw_octet: "push_bit 4 (word_of_nat (unat b div 16)) OR word_of_nat (unat b mod 16) = (b :: u8)"
proof -
  have h: "word_of_nat (unat b div 16) = drop_bit 4 b"
    using nibbles(1) [of b] by (simp add: word_unat_eq_iff unat_drop_bit_eq drop_bit_eq_div unat_of_nat unat_div_distrib)
  have l: "word_of_nat (unat b mod 16) = take_bit 4 b"
    using nibbles(2) [of b]
    by (simp add: word_unat_eq_iff unat_of_nat unsigned_take_bit_eq take_bit_eq_mod unat_mod_distrib)
  show ?thesis unfolding h l by (rule byte_eqI) (auto simp: bit_simps)
qed

lemma raw_loop_hexdump:
  "length xs \<le> length z \<Longrightarrow> raw_loop (hexdump xs) (length pre) (pre @ z) = Some (pre @ xs @ drop (length xs) z)"
proof (induction xs arbitrary: pre z)
  case Nil
  then show ?case by (simp add: hexdump_def)
next
  case (Cons x xs)
  then obtain y z' where z: "z = y # z'" by (cases z) auto
  have "raw_loop (hexdump xs) (length (pre @ [x])) ((pre @ [x]) @ z') = Some ((pre @ [x]) @ xs @ drop (length xs) z')"
    using Cons.prems z by (intro Cons.IH) simp
  then show ?case
    using raw_octet [of x] hexcharint_nth [OF nibbles(1) [of x]] hexcharint_nth [OF nibbles(2) [of x]]
    by (simp add: hexdump_Cons hex2_def z list_update_append)
qed

lemma ConvertToRaw_sized_hexdump:
  assumes "length xs \<le> length out" and "length out = n"
  shows "ConvertToRaw_sized (hexdump xs) out (int n) = Some (length xs, xs @ drop (length xs) out)"
proof (cases "xs = []")
  case True
  then show ?thesis by (simp add: ConvertToRaw_sized_def hexdump_def)
next
  case False
  then have "hexdump xs \<noteq> []" using length_hexdump [of xs] by (metis length_0_conv mult_eq_0_iff zero_neq_numeral)
  then show ?thesis
    using assms raw_loop_hexdump [of xs out "[]"] False
    by (cases xs) (simp_all add: ConvertToRaw_sized_def)
qed

lemma copy_in_fit: "i + n \<le> length dst \<Longrightarrow> n \<le> length src \<Longrightarrow>
    copy_in dst i src (int n) = Some (take i dst @ take n src @ drop (i + n) dst)"
  by (simp add: copy_in_def)

lemma hex_octet_dump:
  assumes "i < length xs"
  shows "hex_octet (hexdump xs @ rest) (2 * int i) = Some (uint (xs ! i))"
proof -
  have idx: "hexdump xs ! (2 * i) = HEX_CHARS ! (unat (xs ! i) div 16) \<and>
      hexdump xs ! (2 * i + 1) = HEX_CHARS ! (unat (xs ! i) mod 16)"
    using assms
  proof (induction xs arbitrary: i)
    case (Cons x xs)
    then show ?case by (cases i) (auto simp: hexdump_Cons hex2_def)
  qed simp
  have n: "2 * int i + 1 = int (2 * i + 1)" "2 * int i = int (2 * i)" by simp_all
  have read: "arr_at (hexdump xs @ rest) (int k) = Some (hexdump xs ! k)" if "k < 2 * length xs" for k
    using that by (simp add: arr_at_def nth_append)
  have "push_bit 4 (int (unat (xs ! i) div 16)) OR int (unat (xs ! i) mod 16) = uint (xs ! i)"
  proof -
    let ?b = "uint (xs ! i)"
    have "int (unat (xs ! i) div 16) = drop_bit 4 ?b" "int (unat (xs ! i) mod 16) = take_bit 4 ?b"
      by (simp_all add: drop_bit_eq_div take_bit_eq_mod zdiv_int zmod_int)
    moreover have "push_bit 4 (drop_bit 4 ?b) OR take_bit 4 ?b = ?b"
      by (rule bit_eqI) (auto simp: bit_simps)
    ultimately show ?thesis by simp
  qed
  then show ?thesis
    unfolding hex_octet_def n(1) unfolding n(2)
    using assms idx read [of "2 * i"] read [of "2 * i + 1"]
      hex_chars_nth [OF nibbles(1) [of "xs ! i"]] hex_chars_nth [OF nibbles(2) [of "xs ! i"]]
    by simp
qed

lemma hex_digit_dump:
  assumes "i < length xs"
  shows "arr_at (hexdump xs @ rest) (2 * int i + 1) = Some (HEX_CHARS ! (unat (xs ! i) mod 16)) \<and>
    (\<exists>c. arr_at (hexdump xs @ rest) (2 * int i) = Some c)"
proof -
  have "hexdump xs ! (2 * i + 1) = HEX_CHARS ! (unat (xs ! i) mod 16)"
    using assms
  proof (induction xs arbitrary: i)
    case (Cons x xs)
    then show ?case by (cases i) (auto simp: hexdump_Cons hex2_def)
  qed simp
  moreover have "nat (2 * int i + 1) = 2 * i + 1" "nat (2 * int i) = 2 * i" by linarith+
  ultimately show ?thesis using assms by (simp add: arr_at_def nth_append)
qed

lemma GetSmsClass_steps:
  assumes "GetSca pdu s = Some (s\<lparr>m_cPdu := 0, m_scalen := k, m_sca := buf\<rparr>)"
    and "i = (k + 1) * 2 + 2" and "hex_octet pdu i = Some n"
    and "j = i + (if n mod 2 = 0 then n + 4 else n + 5) + 2"
    and "arr_at pdu (j + 1) = Some a" and "arr_at pdu j = Some b"
    and "HexChar2Value a AND 0x3 = c"
  shows "GetSmsClass (Some pdu) s =
    Some (c, s\<lparr>m_cPdu := j, m_scalen := k, m_sca := buf, m_smsclass := c\<rparr>)"
proof -
  have k: "m_scalen (s\<lparr>m_cPdu := 0, m_scalen := k, m_sca := buf\<rparr>) = k" by simp
  show ?thesis
    unfolding GetSmsClass_def Option.bind.bind_lunit assms(1) Let_def k assms(2) [symmetric]
      assms(3) assms(4) [symmetric] assms(5-7)
    by simp
qed

section \<open>Properties\<close>

definition smsc_octets :: "u8 list option \<Rightarrow> u8 list" where
  "smsc_octets c = (case c of None \<Rightarrow> [0] | Some xs \<Rightarrow> xs)"

text \<open>
  A short message that the framework gives as two hexadecimal strings is sent as the octets of the
  service center followed by the octets of the unit.  A missing service center is one zero octet, as
  the format demands, but an empty string becomes no octet at all.
\<close>

theorem gsm_sms_octets:
  assumes "length (smsc_octets c) \<le> 12" and "length p \<le> 244" and "length stat = 256"
  shows "\<exists>m. GsmSms_encode (map_option hexdump c) (Some (hexdump p)) = Some m \<and>
    GsmSms_GetLength m = Some (int (length (smsc_octets c) + length p)) \<and>
    (\<exists>rest. GsmSms_GetRawByte stat m = Some (smsc_octets c @ p @ rest))"
proof -
  have hex: "Pdu_of_hex (Some (hexdump p)) =
      Some \<lparr>mData = p @ replicate (244 - length p) 0, mLen = int (length p), mHex = None\<rparr>"
    using assms(2) ConvertToRaw_sized_hexdump [of p "replicate 244 0" 244]
    by (simp add: Pdu_of_hex_def Pdu_SetRawData_def Pdu_new_def sms_sizes)
  obtain addr where center: "SmsCenter_of_hex (map_option hexdump c) =
      Some (SmsCenter_new\<lparr>sc_mAddr := smsc_octets c @ addr, sc_mLen := int (length (smsc_octets c))\<rparr>)"
  proof (cases c)
    case None
    then show thesis
      using that [of "replicate 11 0"]
      by (simp add: SmsCenter_of_hex_def SmsCenter_new_def smsc_octets_def sms_sizes Let_def
        flip: replicate_Suc)
  next
    case (Some xs)
    then show thesis
      using that [of "replicate (12 - length xs) 0"] assms(1)
        ConvertToRaw_sized_hexdump [of xs "replicate 12 0" 12]
      by (simp add: SmsCenter_of_hex_def SmsCenter_new_def smsc_octets_def sms_sizes Let_def)
  qed
  let ?c = "SmsCenter_new\<lparr>sc_mAddr := smsc_octets c @ addr, sc_mLen := int (length (smsc_octets c))\<rparr>"
  let ?p = "\<lparr>mData = p @ replicate (244 - length p) 0, mLen = int (length p), mHex = None\<rparr>"
  have "\<exists>rest. GsmSms_GetRawByte stat (GsmSms_Init\<lparr>mSmsc := Some ?c, mPdu := Some ?p\<rparr>) =
      Some (smsc_octets c @ p @ rest)"
    using assms by (simp add: GsmSms_GetRawByte_def copy_in_fit)
  then show ?thesis
    using hex center by (simp add: GsmSms_encode_def GsmSms_GetLength_def)
qed

theorem gsm_sms_octets_witness:
  "\<exists>m. GsmSms_encode (map_option hexdump (Some [7, 0x91])) (Some (hexdump [4, 0x0B])) = Some m \<and>
    GsmSms_GetLength m = Some 4"
proof -
  have "length (replicate 256 (0 :: u8)) = 256" by simp
  then show ?thesis
    using gsm_sms_octets [of "Some [7, 0x91]" "[4, 0x0B]" "replicate 256 0"] by (auto simp: smsc_octets_def)
qed

text \<open>
  C35. The class of an incoming message is found for every address length: it is the two low bits of the
  coding scheme.  The bit that tells whether there is a class at all is not looked at, so the octet
  0xC2, an indication that e-mail waits, counts as class 2.
\<close>

theorem sms_class_of_pdu:
  assumes "length sca \<le> 11" and "length addr = (unat n + 1) div 2" and "length (m_sca s) = 24"
  shows "map_option fst (GetSmsClass (Some (hexdump
      (of_nat (length sca) # sca @ [fo, n, toa] @ addr @ [pid, dcs] @ rest) @ mem)) s) = Some (uint dcs mod 4)"
proof -
  let ?xs = "of_nat (length sca) # sca @ [fo, n, toa] @ addr @ [pid, dcs] @ rest"
  let ?k = "length sca" and ?d = "length sca + 5 + length addr"
  have sca: "uint (of_nat ?k :: u8) = int ?k"
    using assms(1) by (simp add: unsigned_of_nat take_bit_nat_eq_self)
  have o0: "hex_octet (hexdump ?xs @ mem) 0 = Some (int ?k)"
    using hex_octet_dump [of 0 ?xs mem] sca by simp
  have "?xs ! (?k + 2) = n" by (simp add: nth_append)
  then have o1: "hex_octet (hexdump ?xs @ mem) ((int ?k + 1) * 2 + 2) = Some (uint n)"
    using hex_octet_dump [of "?k + 2" ?xs mem] by (simp add: algebra_simps)
  have "?xs ! ?d = dcs" by (simp add: nth_append)
  then have o2: "arr_at (hexdump ?xs @ mem) (2 * int ?d + 1) = Some (HEX_CHARS ! (unat dcs mod 16))"
    "\<exists>c. arr_at (hexdump ?xs @ mem) (2 * int ?d) = Some c"
    using hex_digit_dump [of ?d ?xs mem] by simp_all
  have adr: "(if uint n mod 2 = 0 then uint n + 4 else uint n + 5) = 2 * int (length addr) + 4"
  proof -
    have "uint n = int (unat n)" by simp
    then show ?thesis unfolding assms(2) by presburger
  qed
  have cur: "(int ?k + 1) * 2 + 2 + (2 * int (length addr) + 4) + 2 = 2 * int ?d" by simp
  have twice: "(int ?k + 1) * 2 = int ((?k + 1) * 2)" by simp
  have copy: "\<exists>buf. copy_in (m_sca s) 0 (hexdump ?xs @ mem) ((int ?k + 1) * 2) = Some buf"
    unfolding twice
    by (rule exI, rule copy_in_fit) (use assms(1,3) in simp_all)
  have cls: "HexChar2Value (HEX_CHARS ! (unat dcs mod 16)) AND 0x3 = uint dcs mod 4"
  proof -
    have "int (unat dcs mod 16) AND 3 = take_bit 2 (int (unat dcs mod 16))"
      by (simp add: take_bit_eq_mask mask_eq_exp_minus_1)
    also have "\<dots> = uint dcs mod 4" by (simp add: take_bit_eq_mod zmod_int mod_mod_cancel)
    finally show ?thesis using hex_chars_nth [OF nibbles(2) [of dcs]] by simp
  qed
  obtain buf where b: "GetSca (hexdump ?xs @ mem) s = Some (s\<lparr>m_cPdu := 0, m_scalen := int ?k, m_sca := buf\<rparr>)"
    using o0 copy by (auto simp: GetSca_def GetScaLen_def)
  obtain c where c: "arr_at (hexdump ?xs @ mem) (2 * int ?d) = Some c" using o2(2) by blast
  have "GetSmsClass (Some (hexdump ?xs @ mem)) s = Some (uint dcs mod 4,
      s\<lparr>m_cPdu := 2 * int ?d, m_scalen := int ?k, m_sca := buf, m_smsclass := uint dcs mod 4\<rparr>)"
    by (rule GetSmsClass_steps [OF b _ o1 _ o2(1) c cls]) (use adr cur in simp_all)
  then show ?thesis by simp
qed

theorem sms_class_of_pdu_witness:
  "map_option fst (GetSmsClass (Some (hexdump [1, 0x91, 4, 2, 0x91, 0x21, 0, 0xC2, 0] @ [0])) (PduParser_new (replicate 24 0) None))
     = Some 2"
  using sms_class_of_pdu [of "[0x91]" "[0x21]" 2 "PduParser_new (replicate 24 0) None" 4 "0x91" 0 "0xC2" "[0]" "[0]"]
  by (simp add: PduParser_new_def)

end
