(* ===== verification/Bit_Stream.thy ===== *)
theory Bit_Stream
  imports Ril_Prelude
begin

text \<open>
  \<^verbatim>\<open>sitril/util/bitwiseiostream.cpp\<close>: fields of one to eight bits, most significant bit first, read
  from and written to an array of octets.  A stream is its array, which has at most 255 octets, and the
  position in bits; \<^verbatim>\<open>m_uEnd\<close> is eight times the length of the array.
\<close>

section \<open>The streams\<close>

record bit_stream =
  m_pbBuf :: "u8 list"
  m_uPos :: nat

definition m_uEnd :: "bit_stream \<Rightarrow> nat" where
  "m_uEnd s = 8 * length (m_pbBuf s)"

definition stream_over :: "u8 list \<Rightarrow> bit_stream" where
  "stream_over xs = \<lparr>m_pbBuf = xs, m_uPos = 0\<rparr>"

text \<open>A field that does not fit reads as zero and is not written.\<close>

definition bi_Read :: "nat \<Rightarrow> bit_stream \<Rightarrow> (u8 \<times> bit_stream) option" where
  "bi_Read bits s =
     (let index = m_uPos s div 8; offset = 16 - m_uPos s mod 8 - bits
      in if bits > 8 \<or> m_uPos s + bits > m_uEnd s then Some (0, s)
         else do {
           a \<leftarrow> arr_get (m_pbBuf s) index;
           b \<leftarrow> (if offset < 8 then arr_get (m_pbBuf s) (index + 1) else Some 0);
           let data = (push_bit 8 (ucast a) OR ucast b :: u16);
           let data = drop_bit offset data AND drop_bit (16 - bits) 0xFFFF;
           Some (ucast data, s\<lparr>m_uPos := m_uPos s + bits\<rparr>) })"

definition bo_Write :: "nat \<Rightarrow> u8 \<Rightarrow> bit_stream \<Rightarrow> bit_stream option" where
  "bo_Write bits data s =
     (if bits > 8 \<or> m_uPos s + bits > m_uEnd s then Some s
      else do {
        let temp = (ucast data :: u16) AND drop_bit (16 - bits) 0xFFFF;
        let index = m_uPos s div 8;
        let offset = 16 - m_uPos s mod 8 - bits;
        let temp = push_bit offset temp;
        a \<leftarrow> arr_get (m_pbBuf s) index;
        buf \<leftarrow> arr_set (m_pbBuf s) index (a OR ucast (drop_bit 8 temp));
        buf \<leftarrow> (if offset < 8 then do {
                   b \<leftarrow> arr_get buf (index + 1);
                   arr_set buf (index + 1) (b OR ucast temp) }
                 else Some buf);
        Some (s\<lparr>m_pbBuf := buf, m_uPos := m_uPos s + bits\<rparr>) })"

definition bo_GetArrayIndex :: "bit_stream \<Rightarrow> nat" where
  "bo_GetArrayIndex s = m_uPos s div 8"

text \<open>A sequence of calls of \<^verbatim>\<open>Write\<close>.\<close>

fun bo_writes :: "(nat \<times> u8) list \<Rightarrow> bit_stream \<Rightarrow> bit_stream option" where
  "bo_writes [] s = Some s"
| "bo_writes ((n, v) # fs) s = (case bo_Write n v s of None \<Rightarrow> None | Some s \<Rightarrow> bo_writes fs s)"

section \<open>Bits\<close>

definition bit_at :: "u8 list \<Rightarrow> nat \<Rightarrow> bool" where
  "bit_at xs i = bit (xs ! (i div 8)) (7 - i mod 8)"

lemma ones_mask: "n \<le> 16 \<Longrightarrow> drop_bit (16 - n) (0xFFFF :: u16) = mask n"
proof -
  assume n: "n \<le> 16"
  have "(0xFFFF :: u16) = mask 16" by (simp add: mask_eq_exp_minus_1)
  then have "drop_bit (16 - n) (0xFFFF :: u16) = drop_bit (16 - n) (mask 16)" by (rule arg_cong)
  also have "\<dots> = mask n" by (rule bit_word_eqI) (use n in \<open>auto simp: bit_simps\<close>)
  finally show ?thesis .
qed

lemma bi_Read_fit:
  assumes "n \<le> 8" and "0 < n" and "m_uPos s + n \<le> m_uEnd s"
  obtains v where "bi_Read n s = Some (v, s\<lparr>m_uPos := m_uPos s + n\<rparr>)"
    and "\<And>j. bit v j \<longleftrightarrow> j < n \<and> bit_at (m_pbBuf s) (m_uPos s + n - 1 - j)"
proof -
  define p i o' where d: "p = m_uPos s mod 8" "i = m_uPos s div 8" "o' = 16 - p - n"
  have pos: "m_uPos s = 8 * i + p" and p: "p < 8" using d by simp_all
  have i: "i < length (m_pbBuf s)" using assms pos unfolding m_uEnd_def by linarith
  have i1: "o' < 8 \<Longrightarrow> i + 1 < length (m_pbBuf s)"
    using assms pos p d(3) unfolding m_uEnd_def by linarith
  define b where "b = (if o' < 8 then m_pbBuf s ! (i + 1) else 0)"
  define dat :: u16 where "dat = push_bit 8 (ucast (m_pbBuf s ! i)) OR ucast b"
  define v :: u8 where "v = ucast (drop_bit o' dat AND drop_bit (16 - n) 0xFFFF)"
  have r: "bi_Read n s = Some (v, s\<lparr>m_uPos := m_uPos s + n\<rparr>)"
    using assms i i1 unfolding bi_Read_def v_def dat_def b_def d Let_def by (auto simp: d)
  have bits: "bit v j \<longleftrightarrow> j < n \<and> bit_at (m_pbBuf s) (m_uPos s + n - 1 - j)" for j
  proof (cases "j < n")
    case False
    then show ?thesis using assms by (auto simp: v_def ones_mask bit_simps)
  next
    case True
    have v: "bit v j = bit dat (o' + j)"
      using True assms p d by (auto simp: v_def ones_mask bit_simps)
    define k where "k = p + n - 1 - j"
    have eq: "m_uPos s + n - 1 - j = 8 * i + k" using True pos k_def by linarith
    have oj: "o' + j = 15 - k" using True assms p d k_def by linarith
    have k: "k \<le> 14" using True assms p k_def by linarith
    show ?thesis
    proof (cases "k < 8")
      case True
      have "\<not> bit b (15 - k)" using True by (auto dest: bit_imp_le_length)
      then have "bit dat (o' + j) = bit (m_pbBuf s ! i) (7 - k)"
        using True oj by (auto simp: dat_def bit_simps)
      then show ?thesis using \<open>j < n\<close> v True unfolding eq by (simp add: bit_at_def)
    next
      case False
      then have o: "o' < 8" using oj by linarith
      have "bit dat (o' + j) = bit (m_pbBuf s ! (i + 1)) (15 - k)"
        using oj o False k by (auto simp: dat_def b_def bit_simps)
      moreover obtain m where m: "k = m + 8" "m < 8" using False k that [of "k - 8"] by simp
      have "(8 * i + k) div 8 = i + 1" and "(8 * i + k) mod 8 = k - 8"
        using m by simp_all
      moreover have "7 - (k - 8) = 15 - k" using False k by simp
      ultimately show ?thesis using \<open>j < n\<close> v unfolding eq by (simp add: bit_at_def)
    qed
  qed
  show thesis by (rule that [OF r bits])
qed

lemma bo_Write_fit:
  assumes "n \<le> 8" and "0 < n" and "m_uPos s + n \<le> m_uEnd s"
  obtains buf where "bo_Write n v s = Some (s\<lparr>m_pbBuf := buf, m_uPos := m_uPos s + n\<rparr>)"
    and "length buf = length (m_pbBuf s)"
    and "\<And>i. i < m_uEnd s \<Longrightarrow> bit_at buf i \<longleftrightarrow> bit_at (m_pbBuf s) i \<or>
           m_uPos s \<le> i \<and> i < m_uPos s + n \<and> bit v (m_uPos s + n - 1 - i)"
proof -
  define p i o' where d: "p = m_uPos s mod 8" "i = m_uPos s div 8" "o' = 16 - p - n"
  have pos: "m_uPos s = 8 * i + p" and p: "p < 8" using d by simp_all
  have i: "i < length (m_pbBuf s)" using assms pos unfolding m_uEnd_def by linarith
  have i1: "o' < 8 \<Longrightarrow> i + 1 < length (m_pbBuf s)"
    using assms pos p d(3) unfolding m_uEnd_def by linarith
  define t :: u16 where "t = push_bit o' ((ucast v :: u16) AND drop_bit (16 - n) 0xFFFF)"
  have t: "bit t k \<longleftrightarrow> o' \<le> k \<and> k < o' + n \<and> bit v (k - o')" if "k < 16" for k
    using that assms by (auto simp: t_def ones_mask bit_simps)
  define b1 where "b1 = (m_pbBuf s)[i := m_pbBuf s ! i OR ucast (drop_bit 8 t)]"
  define buf where "buf = (if o' < 8 then b1[i + 1 := b1 ! (i + 1) OR ucast t] else b1)"
  have w: "bo_Write n v s = Some (s\<lparr>m_pbBuf := buf, m_uPos := m_uPos s + n\<rparr>)"
    using assms i i1 unfolding bo_Write_def buf_def b1_def t_def d Let_def by (auto simp: d)
  have len: "length buf = length (m_pbBuf s)" by (simp add: buf_def b1_def)
  have at_i: "buf ! i = m_pbBuf s ! i OR ucast (drop_bit 8 t)"
    using i by (simp add: buf_def b1_def)
  have at_i1: "i + 1 < length (m_pbBuf s) \<Longrightarrow>
      buf ! (i + 1) = (if o' < 8 then m_pbBuf s ! (i + 1) OR ucast t else m_pbBuf s ! (i + 1))"
    using i by (simp add: buf_def b1_def)
  have other: "q \<noteq> i \<Longrightarrow> q \<noteq> i + 1 \<Longrightarrow> buf ! q = m_pbBuf s ! q" for q
    by (simp add: buf_def b1_def)
  have bits: "bit_at buf j \<longleftrightarrow> bit_at (m_pbBuf s) j \<or>
      m_uPos s \<le> j \<and> j < m_uPos s + n \<and> bit v (m_uPos s + n - 1 - j)" if j: "j < m_uEnd s" for j
  proof -
    define q r where qr: "q = j div 8" "r = j mod 8"
    have jq: "j = 8 * q + r" and r: "r < 8" using qr by simp_all
    consider "q = i" | "q = i + 1" | "q \<noteq> i" "q \<noteq> i + 1" by blast
    then show ?thesis
    proof cases
      case 1
      have "bit t (15 - r) \<longleftrightarrow> m_uPos s \<le> j \<and> j < m_uPos s + n \<and> bit v (m_uPos s + n - 1 - j)"
      proof -
        have "15 - r - o' = m_uPos s + n - 1 - j" if "o' \<le> 15 - r"
          using that 1 jq pos p r d assms by linarith
        moreover have "o' \<le> 15 - r \<and> 15 - r < o' + n \<longleftrightarrow> m_uPos s \<le> j \<and> j < m_uPos s + n"
          using 1 jq pos p r d assms by linarith
        ultimately show ?thesis using t [of "15 - r"] r by auto
      qed
      moreover have "bit_at buf j \<longleftrightarrow> bit_at (m_pbBuf s) j \<or> bit t (15 - r)"
        using 1 r at_i by (auto simp: bit_at_def qr [symmetric] bit_simps)
      ultimately show ?thesis by simp
    next
      case 2
      have in1: "i + 1 < length (m_pbBuf s)" using 2 j jq unfolding m_uEnd_def by linarith
      have "o' < 8 \<and> bit t (7 - r) \<longleftrightarrow> m_uPos s \<le> j \<and> j < m_uPos s + n \<and> bit v (m_uPos s + n - 1 - j)"
      proof -
        have "7 - r - o' = m_uPos s + n - 1 - j" if "o' \<le> 7 - r"
          using that 2 jq pos p r d assms by linarith
        moreover have "o' < 8 \<and> o' \<le> 7 - r \<and> 7 - r < o' + n \<longleftrightarrow> m_uPos s \<le> j \<and> j < m_uPos s + n"
          using 2 jq pos p r d assms by linarith
        ultimately show ?thesis using t [of "7 - r"] r by auto
      qed
      moreover have "bit_at buf j \<longleftrightarrow> bit_at (m_pbBuf s) j \<or> o' < 8 \<and> bit t (7 - r)"
        using 2 r at_i1 [OF in1] by (auto simp: bit_at_def qr [symmetric] bit_simps)
      ultimately show ?thesis by simp
    next
      case 3
      then have "\<not> (m_uPos s \<le> j \<and> j < m_uPos s + n)"
        using jq pos p r assms by linarith
      then show ?thesis using 3 other by (auto simp: bit_at_def qr [symmetric])
    qed
  qed
  show thesis by (rule that [OF w len bits])
qed
section \<open>What was written is read back\<close>

text \<open>The array has the fields from position \<open>p\<close> on.\<close>

fun holds_at :: "u8 list \<Rightarrow> nat \<Rightarrow> (nat \<times> u8) list \<Rightarrow> bool" where
  "holds_at xs p [] = True"
| "holds_at xs p ((n, v) # fs) \<longleftrightarrow>
     (\<forall>j<n. bit_at xs (p + n - 1 - j) = bit v j) \<and> holds_at xs (p + n) fs"

definition total_bits :: "(nat \<times> u8) list \<Rightarrow> nat" where
  "total_bits fs = sum_list (map fst fs)"

definition fields_ok :: "(nat \<times> u8) list \<Rightarrow> bool" where
  "fields_ok fs \<longleftrightarrow> (\<forall>(n, v)\<in>set fs. 0 < n \<and> n \<le> 8)"

lemma total_bits_simps [simp]:
  "total_bits [] = 0" "total_bits ((n, v) # fs) = n + total_bits fs"
  "total_bits (fs @ gs) = total_bits fs + total_bits gs"
  by (simp_all add: total_bits_def)

lemma fields_ok_simps [simp]:
  "fields_ok []" "fields_ok ((n, v) # fs) \<longleftrightarrow> 0 < n \<and> n \<le> 8 \<and> fields_ok fs"
  "fields_ok (fs @ gs) \<longleftrightarrow> fields_ok fs \<and> fields_ok gs"
  by (auto simp: fields_ok_def)

lemma holds_at_append [simp]:
  "holds_at xs p (fs @ gs) \<longleftrightarrow> holds_at xs p fs \<and> holds_at xs (p + total_bits fs) gs"
  by (induction xs p fs rule: holds_at.induct) (auto simp: add.assoc)

lemma holds_at_cong:
  assumes "fields_ok fs" and "\<And>i. p \<le> i \<Longrightarrow> i < p + total_bits fs \<Longrightarrow> bit_at xs i = bit_at ys i"
  shows "holds_at xs p fs = holds_at ys p fs"
  using assms
proof (induction xs p fs rule: holds_at.induct)
  case (2 xs p n v fs)
  have "bit_at xs (p + n - 1 - j) = bit_at ys (p + n - 1 - j)" if "j < n" for j
    using that by (intro 2(3)) auto
  moreover have "holds_at xs (p + n) fs = holds_at ys (p + n) fs"
    using 2 by (intro 2(1)) auto
  ultimately show ?case by auto
qed simp

lemma bit_at_prefix: "i < 8 * length xs \<Longrightarrow> bit_at (xs @ ys) i = bit_at xs i"
  by (auto simp: bit_at_def nth_append)

lemma bo_writes_holds:
  assumes "fields_ok fs" and "m_uPos s + total_bits fs \<le> m_uEnd s"
    and "\<And>i. m_uPos s \<le> i \<Longrightarrow> i < m_uEnd s \<Longrightarrow> \<not> bit_at (m_pbBuf s) i"
  shows "\<exists>buf. bo_writes fs s = Some (s\<lparr>m_pbBuf := buf, m_uPos := m_uPos s + total_bits fs\<rparr>) \<and>
    length buf = length (m_pbBuf s) \<and> holds_at buf (m_uPos s) fs \<and>
    (\<forall>i<m_uPos s. i < m_uEnd s \<longrightarrow> bit_at buf i = bit_at (m_pbBuf s) i)"
  using assms
proof (induction fs s rule: bo_writes.induct)
  case (2 n v fs s)
  obtain b where b: "bo_Write n v s = Some (s\<lparr>m_pbBuf := b, m_uPos := m_uPos s + n\<rparr>)"
    and len: "length b = length (m_pbBuf s)"
    and bits: "\<And>i. i < m_uEnd s \<Longrightarrow> bit_at b i \<longleftrightarrow> bit_at (m_pbBuf s) i \<or>
           m_uPos s \<le> i \<and> i < m_uPos s + n \<and> bit v (m_uPos s + n - 1 - i)"
    using bo_Write_fit [of n s v] 2(2,3) by auto
  let ?t = "s\<lparr>m_pbBuf := b, m_uPos := m_uPos s + n\<rparr>"
  have e: "m_uEnd ?t = m_uEnd s" using len by (simp add: m_uEnd_def)
  have "\<exists>buf. bo_writes fs ?t = Some (?t\<lparr>m_pbBuf := buf, m_uPos := m_uPos ?t + total_bits fs\<rparr>) \<and>
    length buf = length (m_pbBuf ?t) \<and> holds_at buf (m_uPos ?t) fs \<and>
    (\<forall>i<m_uPos ?t. i < m_uEnd ?t \<longrightarrow> bit_at buf i = bit_at (m_pbBuf ?t) i)"
  proof (rule 2(1) [OF b])
    fix i assume "m_uPos ?t \<le> i" and "i < m_uEnd ?t"
    then show "\<not> bit_at (m_pbBuf ?t) i" using bits [of i] e 2(4) [of i] by auto
  qed (use 2(2,3) e in auto)
  then obtain buf where w: "bo_writes fs ?t = Some (?t\<lparr>m_pbBuf := buf, m_uPos := m_uPos s + n + total_bits fs\<rparr>)"
    and l: "length buf = length b" and h: "holds_at buf (m_uPos s + n) fs"
    and keep: "\<And>i. i < m_uPos s + n \<Longrightarrow> i < m_uEnd s \<Longrightarrow> bit_at buf i = bit_at b i"
    using e by auto
  have "bit_at buf (m_uPos s + n - 1 - j) = bit v j" if "j < n" for j
    using that keep [of "m_uPos s + n - 1 - j"] bits [of "m_uPos s + n - 1 - j"]
      2(4) [of "m_uPos s + n - 1 - j"] 2(3) by auto
  then have "holds_at buf (m_uPos s) ((n, v) # fs)" using h by simp
  moreover have "bit_at buf i = bit_at (m_pbBuf s) i" if "i < m_uPos s" "i < m_uEnd s" for i
    using that keep [of i] bits [of i] by auto
  ultimately show ?case using b w l len by (auto simp: add.assoc)
next
  case (1 s)
  then show ?case by (intro exI [of _ "m_pbBuf s"]) simp
qed

lemma bi_Read_holds:
  assumes "holds_at (m_pbBuf s) (m_uPos s) ((n, v) # fs)" and "0 < n" and "n \<le> 8"
    and "m_uPos s + n \<le> m_uEnd s"
  shows "bi_Read n s = Some (take_bit n v, s\<lparr>m_uPos := m_uPos s + n\<rparr>)"
proof -
  obtain w where w: "bi_Read n s = Some (w, s\<lparr>m_uPos := m_uPos s + n\<rparr>)"
    and bits: "\<And>j. bit w j \<longleftrightarrow> j < n \<and> bit_at (m_pbBuf s) (m_uPos s + n - 1 - j)"
    using bi_Read_fit [of n s] assms(2-) by blast
  have "w = take_bit n v"
    by (rule bit_word_eqI) (use bits assms(1) in \<open>auto simp: bit_simps\<close>)
  then show ?thesis using w by simp
qed

lemma bi_Read_total:
  assumes "0 < n"
  obtains v p where "bi_Read n s = Some (v, s\<lparr>m_uPos := p\<rparr>)"
proof (cases "n > 8 \<or> m_uPos s + n > m_uEnd s")
  case True
  then have "bi_Read n s = Some (0, s\<lparr>m_uPos := m_uPos s\<rparr>)" by (simp add: bi_Read_def)
  then show thesis by (rule that)
next
  case False
  then show thesis using bi_Read_fit [of n s] assms that by (metis not_le)
qed

end
