(* ===== verification/Cdma_Sms.thy ===== *)
theory Cdma_Sms
  imports Bit_Stream
begin

text \<open>
  \<^verbatim>\<open>sitril/fw/cdmasmsdata.cpp\<close>: CDMA short messages.  The framework's structure
  \<^verbatim>\<open>RIL_CDMA_SMS_Message\<close> is turned into the transport layer message the modem sends, and an
  incoming transport layer message is turned into that structure.  An enumeration is the integer that
  holds it.  The local array of the builder has 348 octets, the arrays of the structure 36 and 255;
  a write outside is \<open>None\<close>.
\<close>

section \<open>The structure of the framework\<close>

definition RIL_CDMA_SMS_ADDRESS_MAX :: nat where "RIL_CDMA_SMS_ADDRESS_MAX = 36"
definition RIL_CDMA_SMS_SUBADDRESS_MAX :: nat where "RIL_CDMA_SMS_SUBADDRESS_MAX = 36"
definition RIL_CDMA_SMS_BEARER_DATA_MAX :: int where "RIL_CDMA_SMS_BEARER_DATA_MAX = 255"
definition MAX_CDMA_SMS_MSG_SIZE :: nat where "MAX_CDMA_SMS_MSG_SIZE = 348"

lemmas cdma_sizes = RIL_CDMA_SMS_ADDRESS_MAX_def RIL_CDMA_SMS_SUBADDRESS_MAX_def
  RIL_CDMA_SMS_BEARER_DATA_MAX_def MAX_CDMA_SMS_MSG_SIZE_def

record cdma_address =
  digit_mode :: int
  number_mode :: int
  number_type :: int
  number_plan :: int
  number_of_digits :: u8
  digits :: "u8 list"

record cdma_subaddress =
  subaddressType :: int
  odd_digits :: u8
  sub_number_of_digits :: u8
  sub_digits :: "u8 list"

record cdma_sms =
  uTeleserviceID :: int
  bIsServicePresent :: u8
  uServicecategory :: int
  sAddress :: cdma_address
  sSubAddress :: cdma_subaddress
  uBearerDataLen :: int
  aBearerData :: "u8 list"

text \<open>\<^verbatim>\<open>memset\<close> of the structure.\<close>

definition cdma_zero :: cdma_sms where
  "cdma_zero = \<lparr>uTeleserviceID = 0, bIsServicePresent = 0, uServicecategory = 0,
     sAddress = \<lparr>digit_mode = 0, number_mode = 0, number_type = 0, number_plan = 0,
       number_of_digits = 0, digits = replicate 36 0\<rparr>,
     sSubAddress = \<lparr>subaddressType = 0, odd_digits = 0, sub_number_of_digits = 0,
       sub_digits = replicate 36 0\<rparr>,
     uBearerDataLen = 0, aBearerData = replicate 255 0\<rparr>"

section \<open>Building the transport layer message\<close>

text \<open>The length of the bearer data is narrowed to an octet.\<close>

definition bearer_len :: "cdma_sms \<Rightarrow> nat" where
  "bearer_len m = unat (word_of_int (min (uBearerDataLen m) RIL_CDMA_SMS_BEARER_DATA_MAX) :: u8)"

text \<open>
  \<^verbatim>\<open>GetSubparameterDataFromBearerData\<close>: the length octet of the subparameter and where its
  data start.
\<close>

function subparam_loop :: "u8 list \<Rightarrow> nat \<Rightarrow> u8 \<Rightarrow> nat \<Rightarrow> (u8 \<times> nat) option" where
  "subparam_loop xs n subparam index =
     (if index + 2 < n
      then (if xs ! index = subparam then Some (xs ! (index + 1), index + 2)
            else subparam_loop xs n subparam (index + 2 + unat (xs ! (index + 1))))
      else None)"
  by auto
termination by (relation "measure (\<lambda>(xs, n, subparam, index). n - index)") auto

declare subparam_loop.simps [simp del]

definition GetSubparameterDataFromBearerData :: "cdma_sms \<Rightarrow> u8 \<Rightarrow> (u8 \<times> nat) option" where
  "GetSubparameterDataFromBearerData m subparam =
     subparam_loop (aBearerData m) (bearer_len m) subparam 0"

text \<open>1 is a delivery, 2 a submission, which is also what anything else is taken for.\<close>

definition cdma_message_type :: "cdma_sms \<Rightarrow> u8" where
  "cdma_message_type m =
     (case GetSubparameterDataFromBearerData m 0 of
        None \<Rightarrow> 2
      | Some (len, i) \<Rightarrow>
          (if len = 0 then 2
           else let t = drop_bit 4 (aBearerData m ! i) AND 0x0F in if t = 1 \<or> t = 2 then t else 2))"

definition int16_bytes :: "int \<Rightarrow> u8 list" where
  "int16_bytes i = (let u = (word_of_int i :: u16) in [ucast (drop_bit 8 u AND 0xFF), ucast (u AND 0xFF)])"

definition digit_count :: "u8 \<Rightarrow> nat" where
  "digit_count n = min (unat n) RIL_CDMA_SMS_ADDRESS_MAX"

text \<open>The calls of \<^verbatim>\<open>Write\<close> for an address and for a subaddress.\<close>

definition address_head :: "cdma_address \<Rightarrow> (nat \<times> u8) list" where
  "address_head a =
     [(1, word_of_int (digit_mode a)), (1, word_of_int (number_mode a))] @
     (if digit_mode a = 1
      then (3, word_of_int (number_type a)) #
           (if number_mode a = 0 then [(4, word_of_int (number_plan a))] else [])
      else [])"

definition address_fields :: "cdma_address \<Rightarrow> (nat \<times> u8) list" where
  "address_fields a =
     address_head a @ (8, of_nat (digit_count (number_of_digits a))) #
     map (\<lambda>d. (if digit_mode a = 1 then 8 else 4, d)) (take (digit_count (number_of_digits a)) (digits a))"

definition subaddress_fields :: "cdma_subaddress \<Rightarrow> (nat \<times> u8) list" where
  "subaddress_fields a =
     [(3, word_of_int (subaddressType a)), (1, odd_digits a),
      (8, of_nat (digit_count (sub_number_of_digits a)))] @
     map (Pair 8) (take (digit_count (sub_number_of_digits a)) (sub_digits a))"

text \<open>Writing fields into a fresh array and copying the octets that are in use.\<close>

definition bit_block :: "nat \<Rightarrow> (nat \<times> u8) list \<Rightarrow> u8 list option" where
  "bit_block cap fs = do {
     s \<leftarrow> bo_writes fs (stream_over (replicate cap 0));
     let n = bo_GetArrayIndex s + 1;
     if n \<le> cap then Some (take n (m_pbBuf s)) else None }"

definition param :: "u8 \<Rightarrow> u8 list \<Rightarrow> u8 list" where
  "param pid xs = pid # of_nat (length xs) # xs"

text \<open>Appending octets to the local array \<^verbatim>\<open>msg\<close> at \<^verbatim>\<open>index\<close>.\<close>

definition msg_put :: "u8 list \<Rightarrow> u8 list \<times> nat \<Rightarrow> (u8 list \<times> nat) option" where
  "msg_put xs st = (case st of (buf, index) \<Rightarrow> do {
     buf \<leftarrow> arr_blit buf index xs;
     Some (buf, index + length xs) })"

text \<open>\<open>reply\<close>: the system property does not switch the bearer reply option off.\<close>

definition ConstructTransportLayerMsg :: "bool \<Rightarrow> cdma_sms \<Rightarrow> u8 list option" where
  "ConstructTransportLayerMsg reply m = do {
     let submit = (cdma_message_type m = 2);
     let st = (replicate MAX_CDMA_SMS_MSG_SIZE 0, 0);
     st \<leftarrow> msg_put [0] st;
     st \<leftarrow> msg_put (param 0 (int16_bytes (uTeleserviceID m))) st;
     st \<leftarrow> (if uServicecategory m \<noteq> 0 then msg_put (param 1 (int16_bytes (uServicecategory m))) st
            else Some st);
     address \<leftarrow> bit_block (RIL_CDMA_SMS_ADDRESS_MAX + 3) (address_fields (sAddress m));
     st \<leftarrow> msg_put (param (if submit then 4 else 2) address) st;
     st \<leftarrow> (if digit_count (sub_number_of_digits (sSubAddress m)) \<noteq> 0 then do {
              subaddress \<leftarrow> bit_block (RIL_CDMA_SMS_SUBADDRESS_MAX + 2) (subaddress_fields (sSubAddress m));
              msg_put (param (if submit then 5 else 3) subaddress) st }
            else Some st);
     st \<leftarrow> (if reply then msg_put (param 6 [0]) st else Some st);
     (msg, n) \<leftarrow> msg_put (param 8 (take (bearer_len m) (aBearerData m))) st;
     Some (take n msg) }"

section \<open>Reading a transport layer message\<close>

fun digits_loop :: "nat \<Rightarrow> nat \<Rightarrow> nat \<Rightarrow> u8 list \<Rightarrow> bit_stream \<Rightarrow> (u8 list \<times> bit_stream) option" where
  "digits_loop bits i 0 ds s = Some (ds, s)"
| "digits_loop bits i (Suc n) ds s = do {
     (v, s) \<leftarrow> bi_Read bits s;
     ds \<leftarrow> arr_set ds i v;
     digits_loop bits (i + 1) n ds s }"

definition read_address :: "u8 list \<Rightarrow> cdma_address \<Rightarrow> cdma_address option" where
  "read_address xs a = do {
     let s = stream_over xs;
     (v, s) \<leftarrow> bi_Read 1 s;
     let a = a\<lparr>digit_mode := uint v\<rparr>;
     (v, s) \<leftarrow> bi_Read 1 s;
     let a = a\<lparr>number_mode := uint v\<rparr>;
     (a, s) \<leftarrow> (if digit_mode a = 1 then do {
                  (v, s) \<leftarrow> bi_Read 3 s;
                  let a = a\<lparr>number_type := uint v\<rparr>;
                  (if number_mode a = 0 then do {
                     (v, s) \<leftarrow> bi_Read 4 s;
                     Some (a\<lparr>number_plan := uint v\<rparr>, s) }
                   else Some (a, s)) }
                else Some (a, s));
     (v, s) \<leftarrow> bi_Read 8 s;
     let a = a\<lparr>number_of_digits := v\<rparr>;
     (ds, s) \<leftarrow> digits_loop (if digit_mode a = 1 then 8 else 4) 0 (unat v) (digits a) s;
     Some (a\<lparr>digits := ds\<rparr>) }"

definition read_subaddress :: "u8 list \<Rightarrow> cdma_subaddress \<Rightarrow> cdma_subaddress option" where
  "read_subaddress xs a = do {
     let s = stream_over xs;
     (v, s) \<leftarrow> bi_Read 3 s;
     let a = a\<lparr>subaddressType := uint v\<rparr>;
     (v, s) \<leftarrow> bi_Read 1 s;
     let a = a\<lparr>odd_digits := v\<rparr>;
     (v, s) \<leftarrow> bi_Read 8 s;
     let a = a\<lparr>sub_number_of_digits := v\<rparr>;
     (ds, s) \<leftarrow> digits_loop 8 0 (unat v) (sub_digits a) s;
     Some (a\<lparr>sub_digits := ds\<rparr>) }"

definition be16 :: "u8 \<Rightarrow> u8 \<Rightarrow> int" where
  "be16 a b = uint ((push_bit 8 (ucast a) AND 0xFF00) OR ucast b :: u16)"

text \<open>
  One parameter.  The two numbers are read as two octets whatever the length of the parameter says.
\<close>

definition read_param :: "u8 list \<Rightarrow> u8 \<Rightarrow> nat \<Rightarrow> nat \<Rightarrow> cdma_sms \<Rightarrow> cdma_sms option" where
  "read_param msg pid i n m =
     (let xs = take n (drop i msg) in
      if pid = 0 then do {
        a \<leftarrow> arr_get msg i; b \<leftarrow> arr_get msg (i + 1);
        Some (m\<lparr>uTeleserviceID := be16 a b\<rparr>) }
      else if pid = 1 then do {
        a \<leftarrow> arr_get msg i; b \<leftarrow> arr_get msg (i + 1);
        Some (m\<lparr>bIsServicePresent := 1, uServicecategory := be16 a b\<rparr>) }
      else if pid = 4 \<or> pid = 2 then do {
        a \<leftarrow> read_address xs (sAddress m);
        Some (m\<lparr>sAddress := a\<rparr>) }
      else if pid = 5 \<or> pid = 3 then do {
        a \<leftarrow> read_subaddress xs (sSubAddress m);
        Some (m\<lparr>sSubAddress := a\<rparr>) }
      else if pid = 8 then do {
        bearer \<leftarrow> arr_blit (aBearerData m) 0 xs;
        Some (m\<lparr>uBearerDataLen := int n, aBearerData := bearer\<rparr>) }
      else Some m)"

function params_loop :: "u8 list \<Rightarrow> nat \<Rightarrow> cdma_sms \<Rightarrow> cdma_sms option" where
  "params_loop msg index m =
     (if index \<ge> length msg then Some m
      else if index + 1 \<ge> length msg then Some m
      else let pid = msg ! index; n = unat (msg ! (index + 1)); i = index + 2 in
        if n = 0 then params_loop msg i m
        else if i + n > length msg then Some m
        else (case read_param msg pid i n m of None \<Rightarrow> None | Some m \<Rightarrow> params_loop msg (i + n) m))"
  by pat_completeness auto
termination by (relation "measure (\<lambda>(msg, index, m). length msg - index)") auto

declare params_loop.simps [simp del]

definition ConstructRilCdmaSmsMsg :: "u8 list \<Rightarrow> cdma_sms \<Rightarrow> (int \<times> cdma_sms) option" where
  "ConstructRilCdmaSmsMsg msg m = do {
     t \<leftarrow> arr_get msg 0;
     if t \<noteq> 0 \<and> t \<noteq> 1 then Some (-1, m)
     else do { m \<leftarrow> params_loop msg 1 m; Some (0, m) } }"

text \<open>
  The constructors.  \<open>data\<close> is the memory the pointer refers to, \<open>len\<close> the sixteen bit length given
  with it, which becomes unsigned; the result holds the message and the structure, if any.
\<close>

definition CCdmaSmsMessage_of_modem :: "u8 list option \<Rightarrow> int \<Rightarrow> (u8 list \<times> cdma_sms) option option" where
  "CCdmaSmsMessage_of_modem data len =
     (case data of
        None \<Rightarrow> Some None
      | Some xs \<Rightarrow>
          if len = 0 then Some None
          else let n = (if len > int MAX_CDMA_SMS_MSG_SIZE then MAX_CDMA_SMS_MSG_SIZE
                        else unat (word_of_int len :: u16)) in
            if n \<le> length xs then do {
              (r, m) \<leftarrow> ConstructRilCdmaSmsMsg (take n xs) cdma_zero;
              Some (Some (take n xs, m)) }
            else None)"

definition CCdmaSmsMessage_of_framework :: "bool \<Rightarrow> cdma_sms option \<Rightarrow> (u8 list \<times> cdma_sms) option option" where
  "CCdmaSmsMessage_of_framework reply rcsm =
     (case rcsm of
        None \<Rightarrow> Some None
      | Some m \<Rightarrow> do { msg \<leftarrow> ConstructTransportLayerMsg reply m; Some (Some (msg, m)) })"

section \<open>Reading back a block of fields\<close>

lemma bit_block_holds:
  assumes "fields_ok fs" and "total_bits fs < 8 * cap"
  obtains xs where "bit_block cap fs = Some xs" and "length xs = total_bits fs div 8 + 1"
    and "holds_at xs 0 fs"
proof -
  let ?s = "stream_over (replicate cap 0)"
  have none: "\<not> bit_at (m_pbBuf ?s) i" if "i < m_uEnd ?s" for i
    using that by (auto simp: bit_at_def stream_over_def m_uEnd_def less_mult_imp_div_less mult.commute)
  obtain buf where w: "bo_writes fs ?s = Some (?s\<lparr>m_pbBuf := buf, m_uPos := total_bits fs\<rparr>)"
    and len: "length buf = cap" and h: "holds_at buf 0 fs"
    using bo_writes_holds [of fs ?s] assms none by (auto simp: stream_over_def m_uEnd_def)
  have n: "total_bits fs div 8 + 1 \<le> cap" using assms(2) by linarith
  have "holds_at (take (total_bits fs div 8 + 1) buf) 0 fs = holds_at buf 0 fs"
  proof (rule holds_at_cong [OF assms(1)])
    fix i assume "i < 0 + total_bits fs"
    then have "i < 8 * length (take (total_bits fs div 8 + 1) buf)" using n len by auto
    from bit_at_prefix [OF this, of "drop (total_bits fs div 8 + 1) buf"]
    show "bit_at (take (total_bits fs div 8 + 1) buf) i = bit_at buf i" by simp
  qed
  then show thesis
    using that [of "take (total_bits fs div 8 + 1) buf"] w len h n
    by (simp add: bit_block_def bo_GetArrayIndex_def)
qed

lemma digits_loop_holds:
  assumes "holds_at (m_pbBuf s) (m_uPos s) (map (Pair bits) vs)" and "0 < bits" and "bits \<le> 8"
    and "m_uPos s + bits * length vs \<le> m_uEnd s" and "i + length vs \<le> length ds"
  shows "digits_loop bits i (length vs) ds s =
    Some (take i ds @ map (take_bit bits) vs @ drop (i + length vs) ds,
          s\<lparr>m_uPos := m_uPos s + bits * length vs\<rparr>)"
  using assms
proof (induction vs arbitrary: i ds s)
  case Nil
  then show ?case by simp
next
  case (Cons v vs)
  let ?s = "s\<lparr>m_uPos := m_uPos s + bits\<rparr>" and ?ds = "ds[i := take_bit bits v]"
  have r: "bi_Read bits s = Some (take_bit bits v, ?s)"
    by (rule bi_Read_holds [where fs = "map (Pair bits) vs"]) (use Cons.prems in auto)
  have ih: "digits_loop bits (i + 1) (length vs) ?ds ?s =
    Some (take (i + 1) ?ds @ map (take_bit bits) vs @ drop (i + 1 + length vs) ?ds,
          ?s\<lparr>m_uPos := m_uPos ?s + bits * length vs\<rparr>)"
    by (rule Cons.IH) (use Cons.prems in \<open>auto simp: m_uEnd_def\<close>)
  have "take (i + 1) ?ds = take i ds @ [take_bit bits v]"
    using Cons.prems(5) by (simp add: take_Suc_update)
  then show ?case using r ih Cons.prems(5) by (simp add: add.assoc drop_update_cancel)
qed

lemma field_value: "0 \<le> d \<Longrightarrow> d < 2 ^ n \<Longrightarrow> n \<le> 8 \<Longrightarrow> uint (take_bit n (word_of_int d :: u8)) = d"
  by (simp add: unsigned_take_bit_eq unsigned_of_int take_bit_take_bit take_bit_int_eq_self min_def)

lemma digit_count_le: "digit_count n \<le> 36"
  by (simp add: digit_count_def cdma_sizes)

definition canonical_address :: "cdma_address \<Rightarrow> bool" where
  "canonical_address a \<longleftrightarrow>
     0 \<le> digit_mode a \<and> digit_mode a < 2 \<and> 0 \<le> number_mode a \<and> number_mode a < 2 \<and>
     0 \<le> number_type a \<and> number_type a < 8 \<and> 0 \<le> number_plan a \<and> number_plan a < 16 \<and>
     (number_type a = 0 \<or> digit_mode a = 1) \<and>
     (number_plan a = 0 \<or> digit_mode a = 1 \<and> number_mode a = 0) \<and>
     unat (number_of_digits a) \<le> 36 \<and> length (digits a) = 36 \<and>
     drop (unat (number_of_digits a)) (digits a) = replicate (36 - unat (number_of_digits a)) 0 \<and>
     (digit_mode a = 1 \<or> list_all (\<lambda>d. d < 16) (take (unat (number_of_digits a)) (digits a)))"

definition canonical_subaddress :: "cdma_subaddress \<Rightarrow> bool" where
  "canonical_subaddress a \<longleftrightarrow>
     0 \<le> subaddressType a \<and> subaddressType a < 8 \<and> odd_digits a < 2 \<and>
     unat (sub_number_of_digits a) \<le> 36 \<and> length (sub_digits a) = 36 \<and>
     drop (unat (sub_number_of_digits a)) (sub_digits a) =
       replicate (36 - unat (sub_number_of_digits a)) 0 \<and>
     (sub_number_of_digits a = 0 \<longrightarrow> a = sSubAddress cdma_zero)"

text \<open>
  A structure that says nothing a message cannot carry: numbers in the range of their fields, fields
  that do not apply are zero, arrays are zero behind what is in use.
\<close>

definition cdma_canonical :: "cdma_sms \<Rightarrow> bool" where
  "cdma_canonical m \<longleftrightarrow>
     0 \<le> uTeleserviceID m \<and> uTeleserviceID m < 65536 \<and>
     0 \<le> uServicecategory m \<and> uServicecategory m < 65536 \<and>
     bIsServicePresent m = (if uServicecategory m = 0 then 0 else 1) \<and>
     canonical_address (sAddress m) \<and> canonical_subaddress (sSubAddress m) \<and>
     0 \<le> uBearerDataLen m \<and> uBearerDataLen m \<le> 255 \<and> length (aBearerData m) = 255 \<and>
     drop (nat (uBearerDataLen m)) (aBearerData m) = replicate (255 - nat (uBearerDataLen m)) 0"

lemma address_fields_ok: "fields_ok (address_fields a)"
  by (auto simp: address_fields_def address_head_def fields_ok_def)

lemma subaddress_fields_ok: "fields_ok (subaddress_fields a)"
  by (auto simp: subaddress_fields_def fields_ok_def)

lemma total_bits_const: "total_bits (map (\<lambda>d. (k, d)) vs) = k * length vs"
  by (induction vs) auto

lemma take_bit_8 [simp]: "take_bit 8 (x :: u8) = x"
  by (rule bit_word_eqI) (simp add: bit_simps)

lemma map_octets [simp]: "map (take_bit 8) vs = (vs :: u8 list)"
  by (simp add: map_idI)

lemma take_bit_nibble: "(d :: u8) < 16 \<Longrightarrow> take_bit 4 d = d"
  by (simp add: word_unat_eq_iff unsigned_take_bit_eq take_bit_nat_eq_self word_less_nat_alt)

lemma take_bit_flag: "(d :: u8) < 2 \<Longrightarrow> take_bit (Suc 0) d = d"
  by (simp add: word_unat_eq_iff word_less_nat_alt unat_mod_distrib)

lemma map_nibbles: "list_all (\<lambda>d. d < 16) vs \<Longrightarrow> map (take_bit 4) vs = (vs :: u8 list)"
  by (induction vs) (auto simp: take_bit_nibble)

text \<open>The stream over \<open>xs\<close> at position \<open>p\<close>.\<close>

definition stream_at :: "u8 list \<Rightarrow> nat \<Rightarrow> bit_stream" where
  "stream_at xs p = \<lparr>m_pbBuf = xs, m_uPos = p\<rparr>"

lemma stream_over_at: "stream_over xs = stream_at xs 0"
  by (simp add: stream_over_def stream_at_def)

lemma read_field:
  assumes "holds_at xs p ((n, v) # fs)" and "0 < n" and "n \<le> 8" and "p + n \<le> 8 * length xs"
  shows "bi_Read n (stream_at xs p) = Some (take_bit n v, stream_at xs (p + n))"
  using bi_Read_holds [of "stream_at xs p" n v fs] assms
  by (simp add: stream_at_def m_uEnd_def)

lemma read_digits:
  assumes "holds_at xs p (map (Pair bits) vs)" and "0 < bits" and "bits \<le> 8"
    and "p + bits * length vs \<le> 8 * length xs" and "length vs \<le> length ds"
  shows "digits_loop bits 0 (length vs) ds (stream_at xs p) =
    Some (map (take_bit bits) vs @ drop (length vs) ds, stream_at xs (p + bits * length vs))"
  using digits_loop_holds [of "stream_at xs p" bits vs 0 ds] assms
  by (simp add: stream_at_def m_uEnd_def)

lemma read_address_fields:
  assumes "canonical_address a" and "holds_at xs 0 (address_fields a)"
    and "total_bits (address_fields a) \<le> 8 * length xs"
  shows "read_address xs (sAddress cdma_zero) = Some a"
proof -
  let ?n = "unat (number_of_digits a)" and ?bits = "if digit_mode a = 1 then 8 else 4 :: nat"
  let ?vs = "take ?n (digits a)"
  have c: "digit_count (number_of_digits a) = ?n" "length ?vs = ?n"
    using assms(1) by (auto simp: digit_count_def cdma_sizes canonical_address_def)
  have fs: "address_fields a = address_head a @ (8, number_of_digits a) # map (Pair ?bits) ?vs"
    by (simp add: address_fields_def c)
  define dv nv tv pv where v:
    "dv = take_bit 1 (word_of_int (digit_mode a) :: u8)" "nv = take_bit 1 (word_of_int (number_mode a) :: u8)"
    "tv = take_bit 3 (word_of_int (number_type a) :: u8)" "pv = take_bit 4 (word_of_int (number_plan a) :: u8)"
  have val: "uint dv = digit_mode a" "uint nv = number_mode a" "uint tv = number_type a" "uint pv = number_plan a"
    unfolding v by (rule field_value; use assms(1) in \<open>simp add: canonical_address_def\<close>)+
  have ds: "map (take_bit ?bits) ?vs @ drop (length ?vs) (replicate 36 0) = digits a"
  proof -
    have "map (take_bit ?bits) ?vs = ?vs"
      using assms(1) map_nibbles [of ?vs] by (auto simp: canonical_address_def)
    then show ?thesis
      using assms(1) append_take_drop_id [of ?n "digits a"] by (simp add: canonical_address_def)
  qed
  define h where "h = total_bits (address_head a)"
  have n: "bi_Read 8 (stream_at xs h) = Some (number_of_digits a, stream_at xs (h + 8))"
    and loop: "digits_loop ?bits 0 ?n (replicate 36 0) (stream_at xs (h + 8)) =
      Some (digits a, stream_at xs (h + 8 + ?bits * ?n))"
  proof -
    have "holds_at xs h ((8, number_of_digits a) # map (Pair ?bits) ?vs)"
      using assms(2) by (simp add: fs h_def)
    moreover have "h + 8 + ?bits * ?n \<le> 8 * length xs"
      using assms(3) c(2) total_bits_const [of ?bits ?vs] by (simp add: fs h_def)
    moreover have "?n \<le> 36" using assms(1) by (simp add: canonical_address_def)
    ultimately show "bi_Read 8 (stream_at xs h) = Some (number_of_digits a, stream_at xs (h + 8))"
      and "digits_loop ?bits 0 ?n (replicate 36 0) (stream_at xs (h + 8)) =
        Some (digits a, stream_at xs (h + 8 + ?bits * ?n))"
      using read_field [of xs h 8 "number_of_digits a"] read_digits [of xs "h + 8" ?bits ?vs "replicate 36 0"]
        c(2) ds by (auto split: if_splits)
  qed
  have head: "holds_at xs 0 (address_head a)" and len: "h \<le> 8 * length xs"
    using assms(2,3) by (auto simp: fs h_def)
  have zero: "sAddress cdma_zero = \<lparr>digit_mode = 0, number_mode = 0, number_type = 0, number_plan = 0,
      number_of_digits = 0, digits = replicate 36 0\<rparr>"
    by (simp add: cdma_zero_def)
  define rest where "rest = drop 2 (address_head a)"
  have "address_head a = (1, word_of_int (digit_mode a)) # (1, word_of_int (number_mode a)) # rest"
    by (simp add: rest_def address_head_def)
  then have h0: "holds_at xs 0 ((1, word_of_int (digit_mode a)) # (1, word_of_int (number_mode a)) # rest)"
    using head by (rule subst)
  have len2: "2 + total_bits rest \<le> 8 * length xs"
    using len by (simp add: h_def rest_def address_head_def)
  have h1: "holds_at xs 1 ((1, word_of_int (number_mode a)) # rest)" and h2: "holds_at xs 2 rest"
    using h0 by (auto simp only: holds_at.simps add_0 one_add_one)
  have r1: "bi_Read 1 (stream_at xs 0) = Some (dv, stream_at xs 1)"
    and r2: "bi_Read 1 (stream_at xs 1) = Some (nv, stream_at xs 2)"
    using read_field [OF h0] read_field [OF h1] len2 by (simp_all only: v) (simp_all del: One_nat_def)
  consider "digit_mode a = 1" "number_mode a = 0" | "digit_mode a = 1" "number_mode a = 1"
    | "digit_mode a = 0" using assms(1) unfolding canonical_address_def by linarith
  then show ?thesis
  proof cases
    case 1
    have rest: "rest = [(3, word_of_int (number_type a)), (4, word_of_int (number_plan a))]"
      using 1 by (simp add: rest_def address_head_def)
    have h5: "holds_at xs 5 [(4, word_of_int (number_plan a))]"
      using h2 unfolding rest by (simp only: holds_at.simps) simp
    have "bi_Read 3 (stream_at xs 2) = Some (tv, stream_at xs 5)"
      and "bi_Read 4 (stream_at xs 5) = Some (pv, stream_at xs 9)"
      using read_field [OF h2 [unfolded rest]] read_field [OF h5] len2 by (simp_all add: v rest)
    then show ?thesis
      using 1 r1 r2 n loop val
      by (simp add: read_address_def stream_over_at zero address_head_def h_def Let_def)
  next
    case 2
    have rest: "rest = [(3, word_of_int (number_type a))]"
      using 2 by (simp add: rest_def address_head_def)
    have "bi_Read 3 (stream_at xs 2) = Some (tv, stream_at xs 5)"
      using read_field [OF h2 [unfolded rest]] len2 by (simp add: v rest)
    then show ?thesis
      using 2 r1 r2 n loop val assms(1)
      by (simp add: read_address_def stream_over_at zero address_head_def h_def canonical_address_def Let_def)
  next
    case 3
    then show ?thesis
      using r1 r2 n loop val assms(1)
      by (simp add: read_address_def stream_over_at zero address_head_def h_def canonical_address_def Let_def
        numeral_2_eq_2)
  qed
qed

lemma read_subaddress_fields:
  assumes "canonical_subaddress a" and "holds_at xs 0 (subaddress_fields a)"
    and "total_bits (subaddress_fields a) \<le> 8 * length xs"
  shows "read_subaddress xs (sSubAddress cdma_zero) = Some a"
proof -
  let ?n = "unat (sub_number_of_digits a)" and ?vs = "take (unat (sub_number_of_digits a)) (sub_digits a)"
  have c: "digit_count (sub_number_of_digits a) = ?n" "length ?vs = ?n" "?n \<le> 36"
    using assms(1) by (auto simp: digit_count_def cdma_sizes canonical_subaddress_def)
  have fs: "subaddress_fields a = (3, word_of_int (subaddressType a)) # (1, odd_digits a) #
      (8, sub_number_of_digits a) # map (Pair 8) ?vs"
    by (simp add: subaddress_fields_def c)
  define tv where tv: "tv = take_bit 3 (word_of_int (subaddressType a) :: u8)"
  have val: "uint tv = subaddressType a" and odd: "take_bit (Suc 0) (odd_digits a) = odd_digits a"
    unfolding tv using assms(1) take_bit_flag
    by (auto intro!: field_value simp: canonical_subaddress_def simp del: take_bit_Suc)
  have len: "12 + 8 * ?n \<le> 8 * length xs"
    using assms(3) c(2) total_bits_const [of 8 ?vs] by (simp add: fs)
  have h0: "holds_at xs 0 ((3, word_of_int (subaddressType a)) # (1, odd_digits a) #
      (8, sub_number_of_digits a) # map (Pair 8) ?vs)"
    using assms(2) fs by simp
  then have h1: "holds_at xs 3 ((1, odd_digits a) # (8, sub_number_of_digits a) # map (Pair 8) ?vs)"
    and h2: "holds_at xs 4 ((8, sub_number_of_digits a) # map (Pair 8) ?vs)"
    and h3: "holds_at xs 12 (map (Pair 8) ?vs)"
    by auto
  have ds: "map (take_bit 8) ?vs @ drop (length ?vs) (replicate 36 0) = sub_digits a"
    using assms(1) append_take_drop_id [of ?n "sub_digits a"] by (simp add: canonical_subaddress_def)
  have "bi_Read 3 (stream_at xs 0) = Some (tv, stream_at xs 3)"
    "bi_Read (Suc 0) (stream_at xs 3) = Some (take_bit (Suc 0) (odd_digits a), stream_at xs 4)"
    "bi_Read 8 (stream_at xs 4) = Some (sub_number_of_digits a, stream_at xs 12)"
    "digits_loop 8 0 ?n (replicate 36 0) (stream_at xs 12) = Some (sub_digits a, stream_at xs (12 + 8 * ?n))"
    using read_field [OF h0] read_field [OF h1] read_field [OF h2] read_digits [OF h3, of "replicate 36 0"]
      len c ds by (simp_all add: tv del: take_bit_Suc)
  then show ?thesis
    using val odd by (simp add: read_subaddress_def stream_over_at cdma_zero_def Let_def)
qed

section \<open>The message as a list of parameters\<close>

text \<open>What the builder composes, without the array it composes it in.\<close>

definition encode_params :: "(u8 \<times> u8 list) list \<Rightarrow> u8 list" where
  "encode_params ps = concat (map (\<lambda>(pid, xs). param pid xs) ps)"

lemma encode_params_simps [simp]:
  "encode_params [] = []" "encode_params ((pid, xs) # ps) = param pid xs @ encode_params ps"
  "encode_params (ps @ qs) = encode_params ps @ encode_params qs"
  by (simp_all add: encode_params_def)

lemma length_param [simp]: "length (param pid xs) = length xs + 2"
  by (simp add: param_def)

abbreviation msg_state :: "u8 list \<Rightarrow> u8 list \<times> nat" where
  "msg_state acc \<equiv> (acc @ replicate (MAX_CDMA_SMS_MSG_SIZE - length acc) 0, length acc)"

definition msg_ok :: "u8 list \<Rightarrow> (u8 list \<times> nat) option" where
  "msg_ok acc = (if length acc \<le> MAX_CDMA_SMS_MSG_SIZE then Some (msg_state acc) else None)"

lemma msg_put_ok:
  "Option.bind (msg_ok acc) (\<lambda>st. Option.bind (msg_put xs st) k) = Option.bind (msg_ok (acc @ xs)) k"
  by (auto simp: msg_ok_def msg_put_def arr_blit_def)

lemma msg_ok_result:
  "Option.bind (msg_ok acc) (\<lambda>(msg, n). Some (take n msg)) =
     (if length acc \<le> MAX_CDMA_SMS_MSG_SIZE then Some acc else None)"
  by (simp add: msg_ok_def)

definition transport_params :: "bool \<Rightarrow> cdma_sms \<Rightarrow> u8 list \<Rightarrow> u8 list \<Rightarrow> (u8 \<times> u8 list) list" where
  "transport_params reply m address subaddress =
     (let submit = (cdma_message_type m = 2) in
      [(0, int16_bytes (uTeleserviceID m))] @
      (if uServicecategory m \<noteq> 0 then [(1, int16_bytes (uServicecategory m))] else []) @
      [(if submit then 4 else 2, address)] @
      (if sub_number_of_digits (sSubAddress m) \<noteq> 0 then [(if submit then 5 else 3, subaddress)] else []) @
      (if reply then [(6, [0])] else []) @
      [(8, take (bearer_len m) (aBearerData m))])"

definition transport_msg :: "bool \<Rightarrow> cdma_sms \<Rightarrow> u8 list \<Rightarrow> u8 list \<Rightarrow> u8 list" where
  "transport_msg reply m address subaddress =
     0 # encode_params (transport_params reply m address subaddress)"

lemma digit_count_eq_0: "digit_count n = 0 \<longleftrightarrow> n = 0"
  by (auto simp: digit_count_def cdma_sizes unat_eq_0 min_def)

lemma ConstructTransportLayerMsg_eq:
  assumes "bit_block (RIL_CDMA_SMS_ADDRESS_MAX + 3) (address_fields (sAddress m)) = Some address"
    and "bit_block (RIL_CDMA_SMS_SUBADDRESS_MAX + 2) (subaddress_fields (sSubAddress m)) = Some subaddress"
  shows "ConstructTransportLayerMsg reply m =
    (if length (transport_msg reply m address subaddress) \<le> MAX_CDMA_SMS_MSG_SIZE
     then Some (transport_msg reply m address subaddress) else None)"
proof -
  have start: "Option.bind (msg_put xs (replicate MAX_CDMA_SMS_MSG_SIZE 0, 0)) k =
      Option.bind (msg_ok []) (\<lambda>st. Option.bind (msg_put xs st) k)" for xs and k :: "_ \<Rightarrow> u8 list option"
    by (simp add: msg_ok_def)
  show ?thesis
    unfolding ConstructTransportLayerMsg_def transport_msg_def transport_params_def Let_def start assms
      digit_count_eq_0
    by (cases "uServicecategory m = 0"; cases "sub_number_of_digits (sSubAddress m) = 0"; cases reply)
      (simp_all add: msg_put_ok msg_ok_result assms(2))
qed

lemma cdma_zero_simps [simp]:
  "bIsServicePresent cdma_zero = 0" "uServicecategory cdma_zero = 0" "uBearerDataLen cdma_zero = 0"
  "aBearerData cdma_zero = replicate 255 0"
  by (simp_all add: cdma_zero_def)

text \<open>What the parser makes of a list of parameters.\<close>

fun read_params :: "(u8 \<times> u8 list) list \<Rightarrow> cdma_sms \<Rightarrow> cdma_sms option" where
  "read_params [] m = Some m"
| "read_params ((pid, xs) # ps) m =
     (if xs = [] then read_params ps m
      else case read_param xs pid 0 (length xs) m of None \<Rightarrow> None | Some m \<Rightarrow> read_params ps m)"

definition params_ok :: "(u8 \<times> u8 list) list \<Rightarrow> bool" where
  "params_ok ps \<longleftrightarrow> (\<forall>(pid, xs)\<in>set ps. length xs \<le> 255 \<and> (pid = 0 \<or> pid = 1 \<longrightarrow> 2 \<le> length xs))"

lemma params_ok_simps [simp]:
  "params_ok []"
  "params_ok ((pid, xs) # ps) \<longleftrightarrow> length xs \<le> 255 \<and> (pid = 0 \<or> pid = 1 \<longrightarrow> 2 \<le> length xs) \<and> params_ok ps"
  "params_ok (ps @ qs) \<longleftrightarrow> params_ok ps \<and> params_ok qs"
  by (auto simp: params_ok_def)

lemma read_param_local:
  assumes "pid = 0 \<or> pid = 1 \<Longrightarrow> 2 \<le> length xs" and "xs \<noteq> []"
  shows "read_param (pre @ xs @ post) pid (length pre) (length xs) m = read_param xs pid 0 (length xs) m"
proof (cases "pid = 0 \<or> pid = 1")
  case True
  then have "2 \<le> length xs" using assms(1) by auto
  then show ?thesis using True by (auto simp: read_param_def arr_get_def nth_append Let_def)
next
  case False
  then show ?thesis by (simp add: read_param_def)
qed

lemma params_loop_encode:
  "params_ok ps \<Longrightarrow> params_loop (pre @ encode_params ps) (length pre) m = read_params ps m"
proof (induction ps arbitrary: pre m)
  case Nil
  then show ?case by (simp add: params_loop.simps)
next
  case (Cons p ps)
  obtain pid xs where p: "p = (pid, xs)" by fastforce
  let ?msg = "pre @ encode_params (p # ps)" and ?i = "length pre + 2"
  let ?pre = "pre @ [pid, of_nat (length xs)]"
  have msg: "?msg = ?pre @ xs @ encode_params ps" and i: "?i = length ?pre"
    by (simp_all add: p param_def)
  have n: "unat (of_nat (length xs) :: u8) = length xs"
    using Cons.prems p by (simp add: unsigned_of_nat take_bit_nat_eq_self)
  have step: "params_loop ?msg (length pre) m =
      (if xs = [] then params_loop ?msg ?i m
       else case read_param ?msg pid ?i (length xs) m of
         None \<Rightarrow> None | Some m \<Rightarrow> params_loop ?msg (?i + length xs) m)"
    by (subst params_loop.simps) (simp add: p param_def nth_append n Let_def numeral_2_eq_2 split: option.split)
  have rest: "params_loop ?msg (?i + length xs) m' = read_params ps m'" for m'
    using Cons.IH [of "?pre @ xs" m'] Cons.prems p by (simp add: msg param_def)
  show ?case
  proof (cases "xs = []")
    case True
    then show ?thesis using step rest [of m] by (simp add: p)
  next
    case False
    have "read_param ?msg pid ?i (length xs) m = read_param xs pid 0 (length xs) m"
      unfolding msg i using Cons.prems p False by (intro read_param_local) simp_all
    then show ?thesis using step rest False by (simp add: p split: option.split)
  qed
qed

lemma be16_bytes: "0 \<le> i \<Longrightarrow> i < 65536 \<Longrightarrow> \<exists>a b. int16_bytes i = [a, b] \<and> be16 a b = i"
proof -
  assume i: "0 \<le> i" "i < 65536"
  let ?u = "word_of_int i :: u16"
  have masks: "(0xFF :: u16) = mask 8" "(0xFF00 :: u16) = push_bit 8 (mask 8)"
    by (simp_all add: mask_eq_exp_minus_1)
  have "(push_bit 8 (ucast (ucast (drop_bit 8 ?u AND 0xFF) :: u8)) AND 0xFF00) OR
      ucast (ucast (?u AND 0xFF) :: u8) = ?u"
    unfolding masks by (rule bit_word_eqI) (auto simp: bit_simps)
  moreover have "uint ?u = i" using i by (simp add: unsigned_of_int take_bit_int_eq_self)
  ultimately show ?thesis by (simp add: int16_bytes_def be16_def Let_def)
qed

lemma bearer_len_canonical: "cdma_canonical m \<Longrightarrow> bearer_len m = nat (uBearerDataLen m)"
  by (simp add: cdma_canonical_def bearer_len_def cdma_sizes unsigned_of_int take_bit_int_eq_self)

lemma params_ok_transport:
  assumes "length address \<le> 39" and "length subaddress \<le> 38"
  shows "params_ok (transport_params reply m address subaddress)"
proof -
  have "length (int16_bytes i) = 2" for i by (simp add: int16_bytes_def Let_def)
  moreover have "bearer_len m \<le> 255" 
    using unsigned_less [of "word_of_int (min (uBearerDataLen m) 255) :: u8", where 'a = nat] by (simp add: bearer_len_def cdma_sizes)
  ultimately show ?thesis
    using assms by (auto simp: transport_params_def Let_def)
qed

lemma read_params_transport:
  assumes "cdma_canonical m" and "address \<noteq> []" and "subaddress \<noteq> []"
    and "read_address address (sAddress cdma_zero) = Some (sAddress m)"
    and "read_subaddress subaddress (sSubAddress cdma_zero) = Some (sSubAddress m)"
  shows "read_params (transport_params reply m address subaddress) cdma_zero = Some m"
proof -
  obtain a b where t: "int16_bytes (uTeleserviceID m) = [a, b]" "be16 a b = uTeleserviceID m"
    using be16_bytes [of "uTeleserviceID m"] assms(1) by (auto simp: cdma_canonical_def)
  obtain c d where s: "int16_bytes (uServicecategory m) = [c, d]" "be16 c d = uServicecategory m"
    using be16_bytes [of "uServicecategory m"] assms(1) by (auto simp: cdma_canonical_def)
  let ?bearer = "take (bearer_len m) (aBearerData m)"
  have len: "length ?bearer = nat (uBearerDataLen m)" "length ?bearer \<le> 255" "length (aBearerData m) = 255"
    using assms(1) bearer_len_canonical [OF assms(1)] by (auto simp: cdma_canonical_def)
  have bearer: "?bearer @ replicate (255 - length ?bearer) 0 = aBearerData m"
    using assms(1) bearer_len_canonical [OF assms(1)] append_take_drop_id [of "bearer_len m" "aBearerData m"] len
    by (simp add: cdma_canonical_def)
  have empty: "?bearer = [] \<Longrightarrow> uBearerDataLen m = 0 \<and> aBearerData m = replicate 255 0"
    using len bearer assms(1) by (auto simp: cdma_canonical_def)
  have sub: "sub_number_of_digits (sSubAddress m) = 0 \<Longrightarrow> sSubAddress m = sSubAddress cdma_zero"
    using assms(1) by (simp add: cdma_canonical_def canonical_subaddress_def)
  have present: "bIsServicePresent m = (if uServicecategory m = 0 then 0 else 1)"
    using assms(1) by (simp add: cdma_canonical_def)
  have bl: "?bearer \<noteq> [] \<Longrightarrow> arr_blit (replicate 255 0) 0 ?bearer = Some (aBearerData m)"
    using len bearer by (simp add: arr_blit_def)
  have p1: "read_params ((0, int16_bytes (uTeleserviceID m)) # ps) z =
      read_params ps (z\<lparr>uTeleserviceID := uTeleserviceID m\<rparr>)" for ps z
    using t by (simp add: read_param_def arr_get_def)
  have p2: "read_params ((1, int16_bytes (uServicecategory m)) # ps) z =
      read_params ps (z\<lparr>bIsServicePresent := 1, uServicecategory := uServicecategory m\<rparr>)" for ps z
    using s by (simp add: read_param_def arr_get_def)
  have p3: "sAddress z = sAddress cdma_zero \<Longrightarrow>
      read_params ((if b then 4 else 2, address) # ps) z = read_params ps (z\<lparr>sAddress := sAddress m\<rparr>)" for ps z b
    using assms by (simp add: read_param_def)
  have p4: "sSubAddress z = sSubAddress cdma_zero \<Longrightarrow>
      read_params ((if b then 5 else 3, subaddress) # ps) z =
      read_params ps (z\<lparr>sSubAddress := sSubAddress m\<rparr>)" for ps z b
    using assms by (simp add: read_param_def)
  have p5: "read_params ((6, [0]) # ps) z = read_params ps z" for ps z
    by (simp add: read_param_def)
  have p6: "aBearerData z = replicate 255 0 \<Longrightarrow> uBearerDataLen z = 0 \<Longrightarrow>
      read_params [(8, ?bearer)] z =
      Some (z\<lparr>uBearerDataLen := uBearerDataLen m, aBearerData := aBearerData m\<rparr>)" for z
  proof (cases "?bearer = []")
    case True
    then show "aBearerData z = replicate 255 0 \<Longrightarrow> uBearerDataLen z = 0 \<Longrightarrow> ?thesis"
      using empty by (simp only: read_params.simps if_True) simp
  next
    case False
    then show "aBearerData z = replicate 255 0 \<Longrightarrow> uBearerDataLen z = 0 \<Longrightarrow> ?thesis"
      using bl len assms(1) append_take_drop_id [of "nat (uBearerDataLen m)" "aBearerData m"]
      by (simp add: read_param_def cdma_canonical_def)
  qed
  show ?thesis
    unfolding transport_params_def Let_def append.simps
    by (cases "uServicecategory m = 0"; cases "sub_number_of_digits (sSubAddress m) = 0"; cases reply)
      (auto simp: p1 p2 p3 p4 p5 p6 present sub simp del: read_params.simps intro!: cdma_sms.equality)
qed

section \<open>Properties\<close>

lemma total_bits_address: "total_bits (address_fields a) < 8 * (RIL_CDMA_SMS_ADDRESS_MAX + 3)"
proof -
  have "length (take (digit_count (number_of_digits a)) (digits a)) \<le> 36"
    using digit_count_le [of "number_of_digits a"] by simp
  moreover have "total_bits (address_head a) \<le> 9" by (simp add: address_head_def)
  ultimately show ?thesis
    by (simp add: address_fields_def total_bits_const cdma_sizes)
qed

lemma total_bits_subaddress: "total_bits (subaddress_fields a) < 8 * (RIL_CDMA_SMS_SUBADDRESS_MAX + 2)"
proof -
  have "length (take (digit_count (sub_number_of_digits a)) (sub_digits a)) \<le> 36"
    using digit_count_le [of "sub_number_of_digits a"] by simp
  then show ?thesis
    by (simp add: subaddress_fields_def total_bits_const cdma_sizes)
qed

text \<open>The two blocks, which always exist, and the length of the message they make.\<close>

lemma transport_blocks:
  obtains address subaddress where
    "bit_block (RIL_CDMA_SMS_ADDRESS_MAX + 3) (address_fields a) = Some address"
    "bit_block (RIL_CDMA_SMS_SUBADDRESS_MAX + 2) (subaddress_fields b) = Some subaddress"
    "length address = total_bits (address_fields a) div 8 + 1" "holds_at address 0 (address_fields a)"
    "length subaddress = total_bits (subaddress_fields b) div 8 + 1"
    "holds_at subaddress 0 (subaddress_fields b)"
  using bit_block_holds [OF address_fields_ok total_bits_address]
    bit_block_holds [OF subaddress_fields_ok total_bits_subaddress] by metis

definition transport_length :: "bool \<Rightarrow> cdma_sms \<Rightarrow> nat" where
  "transport_length reply m =
     5 + (if uServicecategory m \<noteq> 0 then 4 else 0) +
     (total_bits (address_fields (sAddress m)) div 8 + 3) +
     (if sub_number_of_digits (sSubAddress m) \<noteq> 0
      then total_bits (subaddress_fields (sSubAddress m)) div 8 + 3 else 0) +
     (if reply then 3 else 0) + (min (length (aBearerData m)) (bearer_len m) + 2)"

lemma length_transport_msg:
  assumes "length address = total_bits (address_fields (sAddress m)) div 8 + 1"
    and "length subaddress = total_bits (subaddress_fields (sSubAddress m)) div 8 + 1"
  shows "length (transport_msg reply m address subaddress) = transport_length reply m"
proof -
  have "length (int16_bytes i) = 2" for i by (simp add: int16_bytes_def Let_def)
  then show ?thesis
    using assms by (simp add: transport_msg_def transport_params_def transport_length_def Let_def)
qed

text \<open>
  C12. A structure that fits survives the way to the modem format and back: the octets the builder
  composes for it are read by the parser as the same structure, for addresses of both digit modes, with
  and without service category, subaddress and bearer reply option.
\<close>

theorem cdma_sms_round_trip:
  assumes "cdma_canonical m" and "transport_length reply m \<le> MAX_CDMA_SMS_MSG_SIZE"
  shows "\<exists>msg. CCdmaSmsMessage_of_framework reply (Some m) = Some (Some (msg, m)) \<and>
    CCdmaSmsMessage_of_modem (Some msg) (int (length msg)) = Some (Some (msg, m))"
proof -
  obtain address subaddress where blocks:
    "bit_block (RIL_CDMA_SMS_ADDRESS_MAX + 3) (address_fields (sAddress m)) = Some address"
    "bit_block (RIL_CDMA_SMS_SUBADDRESS_MAX + 2) (subaddress_fields (sSubAddress m)) = Some subaddress"
    and len: "length address = total_bits (address_fields (sAddress m)) div 8 + 1"
      "length subaddress = total_bits (subaddress_fields (sSubAddress m)) div 8 + 1"
    and holds: "holds_at address 0 (address_fields (sAddress m))"
      "holds_at subaddress 0 (subaddress_fields (sSubAddress m))"
    by (rule transport_blocks)
  let ?ps = "transport_params reply m address subaddress" and ?msg = "transport_msg reply m address subaddress"
  have fits: "length ?msg \<le> 348" using assms(2) length_transport_msg [OF len] by (simp add: cdma_sizes)
  have built: "ConstructTransportLayerMsg reply m = Some ?msg"
    using ConstructTransportLayerMsg_eq [OF blocks] fits by (simp add: cdma_sizes)
  have short: "length address \<le> 39" "length subaddress \<le> 38"
    using len total_bits_address [of "sAddress m"] total_bits_subaddress [of "sSubAddress m"]
    by (simp_all add: cdma_sizes)
  have "read_address address (sAddress cdma_zero) = Some (sAddress m)"
    using assms(1) holds(1) len(1) by (intro read_address_fields) (auto simp: cdma_canonical_def)
  moreover have "read_subaddress subaddress (sSubAddress cdma_zero) = Some (sSubAddress m)"
    using assms(1) holds(2) len(2) by (intro read_subaddress_fields) (auto simp: cdma_canonical_def)
  ultimately have "read_params ?ps cdma_zero = Some m"
    using assms(1) len by (intro read_params_transport) auto
  then have "params_loop ?msg 1 cdma_zero = Some m"
    using params_loop_encode [OF params_ok_transport [OF short], of "[0]"] by (simp add: transport_msg_def)
  then have parsed: "ConstructRilCdmaSmsMsg ?msg cdma_zero = Some (0, m)"
    by (simp add: ConstructRilCdmaSmsMsg_def transport_msg_def arr_get_def)
  have "?msg \<noteq> []" by (simp add: transport_msg_def)
  then have "CCdmaSmsMessage_of_modem (Some ?msg) (int (length ?msg)) = Some (Some (?msg, m))"
    using parsed fits by (simp add: CCdmaSmsMessage_of_modem_def cdma_sizes Let_def unsigned_of_nat
      take_bit_nat_eq_self)
  then show ?thesis using built by (auto simp: CCdmaSmsMessage_of_framework_def)
qed



theorem cdma_sms_round_trip_witness:
  "let m = cdma_zero\<lparr>uTeleserviceID := 4098, sAddress := \<lparr>digit_mode = 0, number_mode = 0,
       number_type = 0, number_plan = 0, number_of_digits = 3, digits = [5, 5, 1] @ replicate 33 0\<rparr>,
       uBearerDataLen := 2, aBearerData := [0, 3] @ replicate 253 0\<rparr> in
   \<exists>msg. CCdmaSmsMessage_of_framework True (Some m) = Some (Some (msg, m)) \<and>
     CCdmaSmsMessage_of_modem (Some msg) (int (length msg)) = Some (Some (msg, m))"
  unfolding Let_def
  by (rule cdma_sms_round_trip)
    (simp_all add: cdma_canonical_def canonical_address_def canonical_subaddress_def cdma_zero_def
      transport_length_def address_fields_def address_head_def digit_count_def cdma_sizes bearer_len_def)

end
