(* ===== verification/Cdma_Sms_Parser.thy ===== *)
theory Cdma_Sms_Parser
  imports Cdma_Sms
begin

text \<open>
  \<^verbatim>\<open>sitril/fw/cdmasmsdata.cpp\<close>, continued: which incoming transport layer messages make the
  parser write outside the arrays of the structure or read behind the message, and the request data of
  the other CDMA requests (acknowledgement, writing to the card, broadcast configurations).
\<close>

section \<open>The other CDMA requests\<close>

text \<open>
  \<^verbatim>\<open>CdmaSmsAckRequestData::encode\<close> reads the first two octets of
  \<^verbatim>\<open>RIL_CDMA_SMS_Ack\<close>, a structure of two 32-bit integers.
\<close>

definition CdmaSmsAck_encode :: "u8 list option \<Rightarrow> nat \<Rightarrow> (int \<times> u8 \<times> u8) option" where
  "CdmaSmsAck_encode data datalen =
     (case data of
        None \<Rightarrow> Some (-1, 0, 0)
      | Some xs \<Rightarrow>
          if datalen = 0 then Some (-1, 0, 0)
          else do { a \<leftarrow> arr_get xs 0; b \<leftarrow> arr_get xs 1; Some (0, a, b) })"

definition int_bytes :: "int \<Rightarrow> u8 list" where
  "int_bytes i = (let u = word_of_int i :: u32 in
     [ucast u, ucast (drop_bit 8 u), ucast (drop_bit 16 u), ucast (drop_bit 24 u)])"

definition ril_cdma_sms_ack :: "int \<Rightarrow> int \<Rightarrow> u8 list" where
  "ril_cdma_sms_ack uErrorClass uSMSCauseCode = int_bytes uErrorClass @ int_bytes uSMSCauseCode"

definition ruim_status :: "int \<Rightarrow> u8" where
  "ruim_status status =
     (if status = 0 then 0 else if status = 1 then 1 else if status = 2 then 2
      else if status = 3 then 3 else 0)"

definition CdmaSmsWriteToRuim_encode ::
    "bool \<Rightarrow> (int \<times> cdma_sms) option \<Rightarrow> nat \<Rightarrow> (int \<times> u8 \<times> (u8 list \<times> cdma_sms) option) option" where
  "CdmaSmsWriteToRuim_encode reply args datalen =
     (case args of
        None \<Rightarrow> Some (-1, 0, None)
      | Some (status, m) \<Rightarrow>
          if datalen = 0 then Some (-1, 0, None)
          else do {
            c \<leftarrow> CCdmaSmsMessage_of_framework reply (Some m);
            Some (0, ruim_status status, c) })"

definition CdmaSms_encode ::
    "bool \<Rightarrow> cdma_sms option \<Rightarrow> nat \<Rightarrow> (int \<times> (u8 list \<times> cdma_sms) option) option" where
  "CdmaSms_encode reply data datalen =
     (if data = None \<or> datalen = 0 then Some (-1, None)
      else do { c \<leftarrow> CCdmaSmsMessage_of_framework reply data; Some (0, c) })"

text \<open>
  Broadcast configurations, an array of pointers to entries.  The constructor receives the number as an
  octet and keeps at most fifty.
\<close>

definition MAX_CDMA_BCST_INFO_NUM :: nat where "MAX_CDMA_BCST_INFO_NUM = 50"

definition CCdmaBroadcastSmsConfigs :: "'c list option \<Rightarrow> u8 \<Rightarrow> 'c list option" where
  "CCdmaBroadcastSmsConfigs configs num =
     (case configs of
        None \<Rightarrow> Some []
      | Some xs \<Rightarrow> let n = min (unat num) MAX_CDMA_BCST_INFO_NUM in
          if n \<le> length xs then Some (take n xs) else None)"

text \<open>
  \<open>data\<close> are the pointers, \<open>psize\<close> is the size of a pointer.  The number of entries is an
  \<^verbatim>\<open>int\<close> that the constructor receives as an octet.
\<close>

definition CdmaBroadcast_encode ::
    "nat \<Rightarrow> 'c option list option \<Rightarrow> nat \<Rightarrow> (int \<times> 'c list option) option" where
  "CdmaBroadcast_encode psize data datalen =
     (case data of
        None \<Rightarrow> Some (-1, None)
      | Some ptrs \<Rightarrow>
          if datalen = 0 then Some (-1, None)
          else let num = datalen div psize in
            if num > length ptrs then None
            else if None \<in> set (take num ptrs) then Some (-1, None)
            else do {
              cs \<leftarrow> CCdmaBroadcastSmsConfigs (Some (map the (take num ptrs))) (of_nat num);
              Some (0, Some cs) })"

definition CdmaBroadcast_GetConfigsNumber :: "'c list option \<Rightarrow> u8" where
  "CdmaBroadcast_GetConfigsNumber cfg = (case cfg of None \<Rightarrow> 0 | Some cs \<Rightarrow> of_nat (length cs))"

section \<open>Where the parser leaves its arrays\<close>

lemma digits_loop_None:
  assumes "0 < bits" and "i \<le> length ds"
  shows "digits_loop bits i n ds s = None \<longleftrightarrow> length ds < i + n"
  using assms
proof (induction n arbitrary: i ds s)
  case 0
  then show ?case by simp
next
  case (Suc n)
  obtain v p where r: "bi_Read bits s = Some (v, s\<lparr>m_uPos := p\<rparr>)"
    using bi_Read_total [OF Suc.prems(1)] by blast
  show ?case
  proof (cases "i < length ds")
    case True
    then show ?thesis
      using r Suc.IH [of "i + 1" "ds[i := v]" "s\<lparr>m_uPos := p\<rparr>"] Suc.prems by simp
  next
    case False
    then show ?thesis using r Suc.prems by (simp add: arr_set_def)
  qed
qed

lemma stream_at_simps [simp]:
  "m_pbBuf (stream_at xs p) = xs" "m_uPos (stream_at xs p) = p"
  "m_uEnd (stream_at xs p) = 8 * length xs" "(stream_at xs p)\<lparr>m_uPos := q\<rparr> = stream_at xs q"
  by (simp_all add: stream_at_def m_uEnd_def)

lemma read_flag:
  assumes "p + 1 \<le> 8 * length xs"
  shows "bi_Read 1 (stream_at xs p) = Some (if bit_at xs p then 1 else 0, stream_at xs (p + 1))"
proof (rule bi_Read_fit [of 1 "stream_at xs p"])
  fix v assume r: "bi_Read 1 (stream_at xs p) = Some (v, (stream_at xs p)\<lparr>m_uPos := m_uPos (stream_at xs p) + 1\<rparr>)"
    and bits: "\<And>j. bit v j \<longleftrightarrow> j < 1 \<and> bit_at (m_pbBuf (stream_at xs p)) (m_uPos (stream_at xs p) + 1 - 1 - j)"
  have "v = (if bit_at xs p then 1 else 0)"
    by (rule bit_word_eqI) (auto simp: bits bit_1_iff)
  then show ?thesis using r by simp
qed (use assms in simp_all)

text \<open>How many digits the octets of an address, and of a subaddress, announce.\<close>

definition announced_at :: "u8 list \<Rightarrow> nat \<Rightarrow> nat" where
  "announced_at xs p = (case bi_Read 8 (stream_at xs p) of Some (v, s) \<Rightarrow> unat v | None \<Rightarrow> 0)"

definition announced_digits :: "u8 list \<Rightarrow> nat" where
  "announced_digits xs =
     announced_at xs (if bit_at xs 0 then (if bit_at xs 1 then 5 else 9) else 2)"

lemma read_fit:
  assumes "0 < n" and "n \<le> 8" and "p + n \<le> 8 * length xs"
  obtains v where "bi_Read n (stream_at xs p) = Some (v, stream_at xs (p + n))"
  by (rule bi_Read_fit [of n "stream_at xs p"]) (use assms that in simp_all)

lemma read_beyond: "8 * length xs < p + n \<Longrightarrow> bi_Read n (stream_at xs p) = Some (0, stream_at xs p)"
  by (simp add: bi_Read_def)

lemma read_any:
  assumes "0 < n"
  obtains v q where "bi_Read n (stream_at xs p) = Some (v, stream_at xs q)"
proof (rule bi_Read_total [of n "stream_at xs p"])
  fix v q assume "bi_Read n (stream_at xs p) = Some (v, (stream_at xs p)\<lparr>m_uPos := q\<rparr>)"
  then show thesis using that by simp
qed (rule assms)

lemma read_subaddress_None:
  assumes "length (sub_digits a) = 36" and "xs \<noteq> []"
  shows "read_subaddress xs a = None \<longleftrightarrow> 36 < announced_at xs 4"
proof -
  have len: "8 \<le> 8 * length xs" using assms(2) by (cases xs) auto
  obtain v where r1: "bi_Read 3 (stream_at xs 0) = Some (v, stream_at xs 3)"
    using read_fit [of 3 0 xs] len by auto
  obtain w where r2: "bi_Read (Suc 0) (stream_at xs 3) = Some (w, stream_at xs 4)"
    using read_flag [of 3 xs] len by simp
  obtain u q where r3: "bi_Read 8 (stream_at xs 4) = Some (u, stream_at xs q)"
    using read_any [of 8 xs 4] by auto
  have "read_subaddress xs a = None \<longleftrightarrow>
      digits_loop 8 0 (unat u) (sub_digits a) (stream_at xs q) = None"
    using r1 r2 r3 by (auto simp: read_subaddress_def stream_over_at Let_def split: bind_splits)
  then show ?thesis using digits_loop_None [of 8 0 "sub_digits a"] assms r3 by (simp add: announced_at_def)
qed

lemma announced_beyond: "8 * length xs < p + 8 \<Longrightarrow> announced_at xs p = 0"
  by (simp add: announced_at_def read_beyond)

lemma read_address_None:
  assumes "length (digits a) = 36" and "xs \<noteq> []"
  shows "read_address xs a = None \<longleftrightarrow> 36 < announced_digits xs"
proof -
  have len: "8 \<le> 8 * length xs" using assms(2) by (cases xs) auto
  have r1: "bi_Read (Suc 0) (stream_at xs 0) = Some (if bit_at xs 0 then 1 else 0, stream_at xs (Suc 0))"
    and r2: "bi_Read (Suc 0) (stream_at xs (Suc 0)) = Some (if bit_at xs 1 then 1 else 0, stream_at xs 2)"
    using read_flag [of 0 xs] read_flag [of 1 xs] len by (simp_all add: numeral_2_eq_2)
  obtain t where r3: "bi_Read 3 (stream_at xs 2) = Some (t, stream_at xs 5)"
    using read_fit [of 3 2 xs] len by auto
  have tail: "announced_at xs p = unat v \<and>
      (digits_loop bits 0 (unat v) (digits a) (stream_at xs q) = None \<longleftrightarrow> 36 < unat v)"
    if "bi_Read 8 (stream_at xs p) = Some (v, stream_at xs q)" "0 < bits" for v p q bits
    using that digits_loop_None [of bits 0 "digits a"] assms(1) by (simp add: announced_at_def)
  consider "\<not> bit_at xs 0" | "bit_at xs 0" "bit_at xs 1" | "bit_at xs 0" "\<not> bit_at xs 1" by blast
  then show ?thesis
  proof cases
    case 1
    obtain v q where r: "bi_Read 8 (stream_at xs 2) = Some (v, stream_at xs q)"
      using read_any [of 8 xs 2] by auto
    show ?thesis
      using 1 r1 r2 r tail [OF r, of 4]
      by (auto simp: read_address_def stream_over_at announced_digits_def Let_def split: bind_splits)
  next
    case 2
    obtain v q where r: "bi_Read 8 (stream_at xs 5) = Some (v, stream_at xs q)"
      using read_any [of 8 xs 5] by auto
    show ?thesis
      using 2 r1 r2 r3 r tail [OF r, of 8]
      by (auto simp: read_address_def stream_over_at announced_digits_def Let_def split: bind_splits)
  next
    case 3
    define p where "p = (if 9 \<le> 8 * length xs then 9 else 5::nat)"
    obtain w where r4: "bi_Read 4 (stream_at xs 5) = Some (w, stream_at xs p)"
    proof (cases "9 \<le> 8 * length xs")
      case True
      show thesis by (rule read_fit [of 4 5 xs]) (use True that p_def in auto)
    next
      case False
      then show thesis using read_beyond [of xs 5 4] that by (simp add: p_def)
    qed
    obtain v q where r: "bi_Read 8 (stream_at xs p) = Some (v, stream_at xs q)"
      using read_any [of 8 xs p] by auto
    have "announced_at xs p = announced_at xs 9"
      using announced_beyond [of xs p] announced_beyond [of xs 9] by (auto simp: p_def)
    then show ?thesis
      using 3 r1 r2 r3 r4 r tail [OF r, of 8]
      by (auto simp: read_address_def stream_over_at announced_digits_def Let_def split: bind_splits)
  qed
qed

text \<open>Parameters that make the parser leave an array.\<close>

definition bad_param :: "u8 list \<Rightarrow> u8 \<Rightarrow> nat \<Rightarrow> nat \<Rightarrow> bool" where
  "bad_param msg pid i n \<longleftrightarrow>
     (let xs = take n (drop i msg) in
      if pid = 0 \<or> pid = 1 then n = 1 \<and> i + 1 = length msg
      else if pid = 2 \<or> pid = 4 then 36 < announced_digits xs
      else if pid = 3 \<or> pid = 5 then 36 < announced_at xs 4 else False)"

definition cdma_arrays :: "cdma_sms \<Rightarrow> bool" where
  "cdma_arrays m \<longleftrightarrow> length (digits (sAddress m)) = 36 \<and> length (sub_digits (sSubAddress m)) = 36 \<and>
     length (aBearerData m) = 255"

lemma read_param_None:
  assumes "cdma_arrays m" and "0 < n" and "n \<le> 255" and "i + n \<le> length msg"
  shows "read_param msg pid i n m = None \<longleftrightarrow> bad_param msg pid i n"
proof -
  let ?xs = "take n (drop i msg)"
  have xs: "?xs \<noteq> []" "length ?xs = n" and i: "i < length msg" using assms by auto
  have i1: "i + 1 < length msg \<longleftrightarrow> \<not> (n = 1 \<and> i + 1 = length msg)" using assms(2,4) by auto
  consider "pid = 0 \<or> pid = 1" | "pid = 2 \<or> pid = 4" | "pid = 3 \<or> pid = 5" | "pid = 8"
    | "pid \<notin> {0, 1, 2, 3, 4, 5, 8}" by blast
  then show ?thesis
  proof cases
    case 1
    then show ?thesis using i i1 by (auto simp: read_param_def bad_param_def arr_get_def Let_def)
  next
    case 2
    then show ?thesis using read_address_None [of "sAddress m" ?xs] assms(1) xs(1)
      by (auto simp: read_param_def bad_param_def cdma_arrays_def Let_def split: bind_splits)
  next
    case 3
    then show ?thesis using read_subaddress_None [of "sSubAddress m" ?xs] assms(1) xs(1)
      by (auto simp: read_param_def bad_param_def cdma_arrays_def Let_def split: bind_splits)
  next
    case 4
    then show ?thesis using assms xs(2) by (simp add: read_param_def bad_param_def cdma_arrays_def arr_blit_def)
  next
    case 5
    then show ?thesis by (simp add: read_param_def bad_param_def)
  qed
qed

text \<open>The parameters the parser visits: identifier, offset and length.\<close>

function params_at :: "u8 list \<Rightarrow> nat \<Rightarrow> (u8 \<times> nat \<times> nat) list" where
  "params_at msg index =
     (if index + 1 \<ge> length msg then []
      else let n = unat (msg ! (index + 1)); i = index + 2 in
        if n = 0 then params_at msg i
        else if i + n > length msg then []
        else (msg ! index, i, n) # params_at msg (i + n))"
  by pat_completeness auto
termination by (relation "measure (\<lambda>(msg, index). length msg - index)") auto

declare params_at.simps [simp del]

lemma digits_loop_length: "digits_loop bits i n ds s = Some (ds', s') \<Longrightarrow> length ds' = length ds"
proof (induction n arbitrary: i ds s)
  case (Suc n)
  then show ?case
    by (auto split: bind_splits dest: Suc.IH arr_set_length)
qed simp

lemma read_address_digits:
  assumes "read_address xs a = Some a'"
  obtains bits n s s' where "digits_loop bits 0 n (digits a) s = Some (digits a', s')"
  using assms by (auto simp: read_address_def Let_def split: bind_splits if_splits)

lemma read_subaddress_digits:
  assumes "read_subaddress xs a = Some a'"
  obtains n s s' where "digits_loop 8 0 n (sub_digits a) s = Some (sub_digits a', s')"
  using assms by (auto simp: read_subaddress_def Let_def split: bind_splits)

lemma read_address_length: "read_address xs a = Some a' \<Longrightarrow> length (digits a') = length (digits a)"
  by (metis read_address_digits digits_loop_length)

lemma read_subaddress_length:
  "read_subaddress xs a = Some a' \<Longrightarrow> length (sub_digits a') = length (sub_digits a)"
  by (metis read_subaddress_digits digits_loop_length)

lemma read_param_address:
  "pid = 2 \<or> pid = 4 \<Longrightarrow> read_param msg pid i n m =
     map_option (\<lambda>a. m\<lparr>sAddress := a\<rparr>) (read_address (take n (drop i msg)) (sAddress m))"
  by (cases "read_address (take n (drop i msg)) (sAddress m)") (auto simp: read_param_def)

lemma read_param_subaddress:
  "pid = 3 \<or> pid = 5 \<Longrightarrow> read_param msg pid i n m =
     map_option (\<lambda>a. m\<lparr>sSubAddress := a\<rparr>) (read_subaddress (take n (drop i msg)) (sSubAddress m))"
  by (cases "read_subaddress (take n (drop i msg)) (sSubAddress m)") (auto simp: read_param_def)

lemma read_param_bearer:
  "read_param msg 8 i n m = map_option (\<lambda>b. m\<lparr>uBearerDataLen := int n, aBearerData := b\<rparr>)
     (arr_blit (aBearerData m) 0 (take n (drop i msg)))"
  by (cases "arr_blit (aBearerData m) 0 (take n (drop i msg))") (auto simp: read_param_def)

lemma read_param_number:
  "pid = 0 \<or> pid = 1 \<Longrightarrow> read_param msg pid i n m = Some m' \<Longrightarrow>
   sAddress m' = sAddress m \<and> sSubAddress m' = sSubAddress m \<and> aBearerData m' = aBearerData m"
  by (cases "i + 1 < length msg"; cases "i < length msg") (auto simp: read_param_def arr_get_def)

lemma read_param_other:
  "pid \<notin> {0, 1, 2, 3, 4, 5, 8} \<Longrightarrow> read_param msg pid i n m = Some m"
  by (simp add: read_param_def)

lemma read_param_arrays:
  assumes "read_param msg pid i n m = Some m'" and "cdma_arrays m"
  shows "cdma_arrays m'"
proof -
  consider "pid = 0 \<or> pid = 1" | "pid = 2 \<or> pid = 4" | "pid = 3 \<or> pid = 5" | "pid = 8"
    | "pid \<notin> {0, 1, 2, 3, 4, 5, 8}" by blast
  then show ?thesis
  proof cases
    case 1
    then show ?thesis using read_param_number [OF 1 assms(1)] assms(2) by (simp add: cdma_arrays_def)
  next
    case 2
    then show ?thesis using assms by (auto simp: read_param_address cdma_arrays_def dest: read_address_length)
  next
    case 3
    then show ?thesis using assms by (auto simp: read_param_subaddress cdma_arrays_def dest: read_subaddress_length)
  next
    case 4
    then show ?thesis using assms by (auto simp: read_param_bearer cdma_arrays_def dest: arr_blit_length)
  next
    case 5
    then show ?thesis using read_param_other [OF 5, of msg i n m] assms by simp
  qed
qed

lemma params_loop_None:
  "cdma_arrays m \<Longrightarrow>
   params_loop msg index m = None \<longleftrightarrow> (\<exists>(pid, i, n)\<in>set (params_at msg index). bad_param msg pid i n)"
proof (induction msg index m rule: params_loop.induct)
  case (1 msg index m)
  let ?n = "unat (msg ! (index + 1))" and ?i = "index + 2"
  consider "index + 1 \<ge> length msg" | "index + 1 < length msg" "?n = 0"
    | "index + 1 < length msg" "?n \<noteq> 0" "?i + ?n > length msg"
    | "index + 1 < length msg" "?n \<noteq> 0" "?i + ?n \<le> length msg" by linarith
  then show ?case
  proof cases
    case 1
    then show ?thesis by (simp add: params_loop.simps [of msg index] params_at.simps [of msg index])
  next
    case 2
    then show ?thesis using "1.IH"(1) "1.prems"
      by (subst params_loop.simps, subst params_at.simps) (simp add: Let_def)
  next
    case 3
    then show ?thesis by (simp add: params_loop.simps [of msg index] params_at.simps [of msg index] Let_def)
  next
    case 4
    have "?n \<le> 255" using unsigned_less [of "msg ! (index + 1)", where 'a = nat] by simp
    then have bad: "read_param msg (msg ! index) ?i ?n m = None \<longleftrightarrow> bad_param msg (msg ! index) ?i ?n"
      using read_param_None [of m ?n ?i msg] "1.prems" 4 by simp
    have loop: "params_loop msg index m =
        (case read_param msg (msg ! index) ?i ?n m of None \<Rightarrow> None | Some m \<Rightarrow> params_loop msg (?i + ?n) m)"
      using 4 by (subst params_loop.simps) (simp add: Let_def numeral_2_eq_2 split: option.split)
    have at: "params_at msg index = (msg ! index, ?i, ?n) # params_at msg (?i + ?n)"
      using 4 by (subst params_at.simps) (simp add: Let_def numeral_2_eq_2)
    show ?thesis
    proof (cases "read_param msg (msg ! index) ?i ?n m")
      case None
      then show ?thesis using bad loop at by simp
    next
      case (Some m')
      then have "params_loop msg (?i + ?n) m' = None \<longleftrightarrow>
          (\<exists>(pid, i, n)\<in>set (params_at msg (?i + ?n)). bad_param msg pid i n)"
        using "1.IH"(2) 4 read_param_arrays [OF Some "1.prems"] by fastforce
      then show ?thesis using bad loop at Some by simp
    qed
  qed
qed

section \<open>Properties\<close>

lemma cdma_zero_arrays: "cdma_arrays cdma_zero"
  by (simp add: cdma_arrays_def cdma_zero_def)

text \<open>
  C32. An incoming transport layer message of at most 348 octets makes the parser leave its memory exactly
  when its type is point to point or broadcast and one of the parameters it walks through is bad: a
  two-octet number cut off by the end of the message, or an address or subaddress that announces more
  than 36 digits, which are written behind the array of the structure.
\<close>

theorem cdma_sms_parser_faults:
  assumes "0 < length msg" and "length msg \<le> MAX_CDMA_SMS_MSG_SIZE"
  shows "CCdmaSmsMessage_of_modem (Some msg) (int (length msg)) = None \<longleftrightarrow>
    (msg ! 0 = 0 \<or> msg ! 0 = 1) \<and> (\<exists>(pid, i, n)\<in>set (params_at msg 1). bad_param msg pid i n)"
proof -
  have n: "unat (word_of_int (int (length msg)) :: u16) = length msg"
    using assms(2) by (simp add: cdma_sizes unsigned_of_nat take_bit_nat_eq_self)
  have "CCdmaSmsMessage_of_modem (Some msg) (int (length msg)) = None \<longleftrightarrow>
      ConstructRilCdmaSmsMsg msg cdma_zero = None"
    using assms n by (simp add: CCdmaSmsMessage_of_modem_def Let_def split: bind_splits)
  also have "\<dots> \<longleftrightarrow> (msg ! 0 = 0 \<or> msg ! 0 = 1) \<and> params_loop msg 1 cdma_zero = None"
    using assms(1) by (auto simp: ConstructRilCdmaSmsMsg_def split: bind_splits)
  finally show ?thesis using params_loop_None [OF cdma_zero_arrays, of msg 1] by simp
qed

theorem cdma_sms_parser_faults_witness:
  "CCdmaSmsMessage_of_modem (Some [0, 4, 2, 0x09, 0x40]) 5 = None"
proof -
  let ?msg = "[0, 4, 2, 0x09, 0x40] :: u8 list"
  have "(4, 3, 2) \<in> set (params_at ?msg 1)"
    by (subst params_at.simps) simp
  moreover have "bad_param ?msg 4 3 2" by code_simp
  ultimately show ?thesis
    using cdma_sms_parser_faults [of ?msg] by (auto simp: cdma_sizes)
qed

text \<open>
  The acknowledgement of a CDMA short message never carries the cause code of the framework: the
  structure holds two 32-bit integers, and what is sent as the cause is the second octet of the error
  class, which is zero for both error classes.
\<close>

theorem cdma_ack_ignores_cause:
  "CdmaSmsAck_encode (Some (ril_cdma_sms_ack uErrorClass uSMSCauseCode)) 8 =
     Some (0, word_of_int uErrorClass, word_of_int (drop_bit 8 uErrorClass))"
proof -
  have "ucast (word_of_int uErrorClass :: u32) = (word_of_int uErrorClass :: u8)"
    by (rule bit_word_eqI) (simp add: bit_simps)
  moreover have "ucast (drop_bit 8 (word_of_int uErrorClass :: u32)) = (word_of_int (drop_bit 8 uErrorClass) :: u8)"
    by (rule bit_word_eqI) (simp add: bit_simps)
  ultimately show ?thesis
    by (simp add: CdmaSmsAck_encode_def ril_cdma_sms_ack_def int_bytes_def Let_def)
qed

text \<open>
  The number of broadcast configurations is narrowed to an octet before it is limited: of \<open>k\<close>
  configurations the first \<open>min (k mod 256) 50\<close> are kept, none at all of 256.
\<close>

theorem cdma_broadcast_wraps:
  assumes "0 < psize" and "cs \<noteq> []"
  shows "CdmaBroadcast_encode psize (Some (map Some cs)) (psize * length cs) =
    Some (0, Some (take (min (length cs mod 256) MAX_CDMA_BCST_INFO_NUM) cs))"
proof -
  have "unat (of_nat (length cs) :: u8) = length cs mod 256"
    by (simp add: unsigned_of_nat take_bit_eq_mod)
  moreover have "min (length cs mod 256) MAX_CDMA_BCST_INFO_NUM \<le> length cs"
    using mod_less_eq_dividend [of "length cs" 256] by linarith
  ultimately show ?thesis
    using assms by (auto simp: CdmaBroadcast_encode_def CCdmaBroadcastSmsConfigs_def Let_def comp_def)
qed

theorem cdma_broadcast_wraps_witness:
  "CdmaBroadcast_encode 4 (Some (map Some (replicate 256 ()))) 1024 = Some (0, Some [])"
  using cdma_broadcast_wraps [of 4 "replicate 256 ()"] by simp

end
