(* ===== verification/Sms_Protocol.thy ===== *)
theory Sms_Protocol
  imports Sms_Pdu Rcm_Header Cdma_Sms_Parser
begin

text \<open>
  The messages of the short message service: \<^verbatim>\<open>protocol/sit/protocolsmsbuilder.cpp\<close>,
  \<^verbatim>\<open>protocol/sit/protocolsmsadapter.cpp\<close> with the packed structures of
  \<^verbatim>\<open>sitdef.h\<close>, and the conversion of service center numbers, \<^verbatim>\<open>util/sms_util.cpp\<close>.
  The token of a request is an argument, an octet of a structure that was never written is taken from
  \<open>junk\<close>, the inner \<open>None\<close> is \<^verbatim>\<open>NULL\<close>.
\<close>

section \<open>Building requests\<close>

definition sit_message :: "u32 \<Rightarrow> int \<Rightarrow> u8 list \<Rightarrow> modem_raw" where
  "sit_message tok mid body =
     md_new (rcm_bytes (InitRequestHeader_token mid (int (RCM_HEADER_SIZE + length body)) tok) @ body) True"

definition int32_bytes :: "int \<Rightarrow> u8 list" where "int32_bytes i = u32_bytes (word_of_int i)"
definition le16_bytes :: "int \<Rightarrow> u8 list" where "le16_bytes i = u16_bytes (word_of_int i)"

text \<open>
  \<open>domain\<close> is the value of the property, whose conversion to unsigned makes a negative one large; the
  pointers come with the memory behind them.
\<close>

definition sms_domain :: "int \<Rightarrow> u8" where
  "sms_domain domain = (if 0 \<le> domain \<and> domain \<le> 3 then word_of_int domain else 0)"

definition BuildSendSms ::
    "u32 \<Rightarrow> int \<Rightarrow> u8 list option \<Rightarrow> int \<Rightarrow> u8 list option \<Rightarrow> int \<Rightarrow> bool \<Rightarrow> modem_raw option option" where
  "BuildSendSms tok domain smsc smscLen pdu pduSize bExpectMore =
     (case pdu of
        None \<Rightarrow> Some None
      | Some xs \<Rightarrow> do {
          x \<leftarrow> arr_get xs 0;
          (if x = 0 then Some None
           else if pduSize \<le> 0 \<or> pduSize > int MAX_GSM_SMS_TPDU_SIZE then Some None
           else do {
             (n, sca) \<leftarrow> (case smsc of
                 None \<Rightarrow> Some (1, replicate MAX_GSM_SMS_SERVICE_CENTER_ADDR 0)
               | Some ys \<Rightarrow>
                   if smscLen \<le> 0 \<or> smscLen > int MAX_GSM_SMS_SERVICE_CENTER_ADDR
                   then Some (1, replicate MAX_GSM_SMS_SERVICE_CENTER_ADDR 0)
                   else do {
                     sca \<leftarrow> copy_in (replicate MAX_GSM_SMS_SERVICE_CENTER_ADDR 0) 0 ys smscLen;
                     Some (word_of_int smscLen, sca) });
             sms \<leftarrow> copy_in (replicate MAX_GSM_SMS_TPDU_SIZE 0) 0 xs pduSize;
             Some (Some (sit_message tok (if bExpectMore then 0x101 else 0x100)
               ([sms_domain domain, n] @ sca @ [word_of_int pduSize] @ sms))) }) })"

definition ack_result :: "int \<Rightarrow> int" where
  "ack_result result = (if (result AND 0xFF) = 0 then 0 else 1)"

definition BuildSmsAck :: "u32 \<Rightarrow> int \<Rightarrow> int \<Rightarrow> int \<Rightarrow> modem_raw option" where
  "BuildSmsAck tok result tpid err =
     (if result < 0 then None else if tpid < 0 then None
      else Some (sit_message tok 0x102
        (int32_bytes (ack_result result) @ [word_of_int tpid] @ int32_bytes err)))"

definition BuildSmsAck_pdu ::
    "u8 list \<Rightarrow> u32 \<Rightarrow> int \<Rightarrow> int \<Rightarrow> u8 list \<Rightarrow> int \<Rightarrow> modem_raw option option" where
  "BuildSmsAck_pdu junk tok result tpid pdu pduSize =
     (if result < 0 then Some None else if tpid < 0 then Some None
      else do {
        tpdu \<leftarrow> copy_in (take MAX_GSM_SMS_TPDU_SIZE junk) 0 pdu pduSize;
        Some (Some (sit_message tok 0x10B
          (int32_bytes (ack_result result) @ [word_of_int tpid, word_of_int pduSize] @ tpdu))) })"

definition BuildSmscAddress_get :: "u32 \<Rightarrow> modem_raw" where
  "BuildSmscAddress_get tok = sit_message tok 0x108 []"

definition BuildSmscAddress_set :: "u32 \<Rightarrow> int \<Rightarrow> u8 list \<Rightarrow> modem_raw option" where
  "BuildSmscAddress_set tok sca_len sca =
     (if length sca < MAX_GSM_SMS_SERVICE_CENTER_ADDR then None
      else Some (sit_message tok 0x109 (word_of_int sca_len # take MAX_GSM_SMS_SERVICE_CENTER_ADDR sca)))"

definition BuildSmsMemoryStatus :: "u32 \<Rightarrow> int \<Rightarrow> modem_raw" where
  "BuildSmsMemoryStatus tok status = sit_message tok 0x10A (int32_bytes (if status = 0 then 0 else 1))"

definition BuildWriteSmsToSim :: "u32 \<Rightarrow> int \<Rightarrow> int \<Rightarrow> int \<Rightarrow> u8 list option \<Rightarrow> modem_raw option option" where
  "BuildWriteSmsToSim tok status index pduSize pdu =
     (if pduSize \<le> 0 \<or> pduSize > int MAX_GSM_SMS_TPDU_SIZE then Some None
      else case pdu of
        None \<Rightarrow> Some None
      | Some xs \<Rightarrow>
          if \<not> (0 \<le> status \<and> status \<le> 3) then Some None
          else do {
            d \<leftarrow> copy_in (replicate MAX_GSM_SMS_TPDU_SIZE 0) 0 xs pduSize;
            Some (Some (sit_message tok 0x103
              (int32_bytes status @ int32_bytes index @ [word_of_int pduSize] @ d))) })"

definition BuildDeleteSmsOnSim :: "u32 \<Rightarrow> int \<Rightarrow> modem_raw" where
  "BuildDeleteSmsOnSim tok index = sit_message tok 0x104 (int32_bytes index)"

definition BuildGetBroadcastSmsConfig :: "u32 \<Rightarrow> modem_raw" where
  "BuildGetBroadcastSmsConfig tok = sit_message tok 0x105 []"

record bcst_info =
  fromServiceId :: int
  toServiceId :: int
  fromCodeScheme :: int
  toCodeScheme :: int
  bcst_selected :: u8

text \<open>One packed item: two 16-bit integers and three octets.\<close>

definition bcst_item :: "bcst_info \<Rightarrow> u8 list" where
  "bcst_item c = le16_bytes (fromServiceId c) @ le16_bytes (toServiceId c) @
     [word_of_int (fromCodeScheme c), word_of_int (toCodeScheme c), bcst_selected c]"

definition BuildSetBroadcastSmsConfig :: "u32 \<Rightarrow> bcst_info list option \<Rightarrow> int \<Rightarrow> modem_raw option option" where
  "BuildSetBroadcastSmsConfig tok configs num =
     (case configs of
        None \<Rightarrow> Some None
      | Some cs \<Rightarrow>
          if num \<le> 0 then Some None
          else let n = nat (min num (int MAX_BCST_INFO_NUM)) in
            if n > length cs then None
            else Some (Some (sit_message tok 0x106 (of_nat n # concat (map bcst_item (take n cs))))))"

definition BuildSmsBroadcastActivation :: "u32 \<Rightarrow> int \<Rightarrow> modem_raw" where
  "BuildSmsBroadcastActivation tok bcst_act = sit_message tok 0x107 (int32_bytes bcst_act)"

definition BuildGetStoredSmsCount :: "u32 \<Rightarrow> int \<Rightarrow> modem_raw" where
  "BuildGetStoredSmsCount tok sim_id = sit_message tok 0x121 [if sim_id = 0 then 0 else 1]"

subsection \<open>CDMA requests\<close>

definition MAX_CDMA_SMS_RUIM_MSG_SIZE :: nat where "MAX_CDMA_SMS_RUIM_MSG_SIZE = 253"

definition BuildSendCdmaSms :: "u32 \<Rightarrow> u8 list option \<Rightarrow> int \<Rightarrow> modem_raw option option" where
  "BuildSendCdmaSms tok msg msgLen =
     (case msg of
        None \<Rightarrow> Some None
      | Some xs \<Rightarrow>
          if msgLen \<le> 0 then Some None
          else if msgLen > int MAX_CDMA_SMS_MSG_SIZE then Some None
          else if msgLen > int (length xs) then None
          else Some (Some (sit_message tok 0x111 (le16_bytes msgLen @ take (nat msgLen) xs))))"

definition BuildSendCdmaSmsAck :: "u32 \<Rightarrow> int \<Rightarrow> int \<Rightarrow> int \<Rightarrow> modem_raw" where
  "BuildSendCdmaSmsAck tok tpid errClass errCode =
     sit_message tok 0x112 [word_of_int tpid, word_of_int errClass, word_of_int errCode]"

definition sit_ruim_status :: "int \<Rightarrow> u8" where
  "sit_ruim_status status =
     (if status = 0 then 0x03 else if status = 1 then 0x01 else if status = 2 then 0x07
      else if status = 3 then 0x05 else 0x03)"

definition BuildWriteCdmaSmsToRuim :: "u32 \<Rightarrow> int \<Rightarrow> u8 list option \<Rightarrow> int \<Rightarrow> modem_raw option option" where
  "BuildWriteCdmaSmsToRuim tok status msg msgLen =
     (case msg of
        None \<Rightarrow> Some None
      | Some xs \<Rightarrow>
          if msgLen \<le> 0 then Some None
          else if msgLen > int MAX_CDMA_SMS_RUIM_MSG_SIZE then Some None
          else if msgLen > int (length xs) then None
          else Some (Some (sit_message tok 0x116
            ([sit_ruim_status status, word_of_int msgLen] @ take (nat msgLen) xs))))"

definition BuildDeleteCdmaSmsOnRuim :: "u32 \<Rightarrow> int \<Rightarrow> modem_raw" where
  "BuildDeleteCdmaSmsOnRuim tok index = sit_message tok 0x117 [word_of_int index]"

definition BuildGetCdmaBroadcastSmsConfig :: "u32 \<Rightarrow> modem_raw" where
  "BuildGetCdmaBroadcastSmsConfig tok = sit_message tok 0x113 []"

record cdma_bcst_info =
  service_category :: int
  language :: int
  cdma_selected :: u8

definition cdma_bcst_item :: "cdma_bcst_info \<Rightarrow> u8 list" where
  "cdma_bcst_item c = le16_bytes (service_category c) @ [word_of_int (language c)]"

definition BuildSetCdmaBroadcastSmsConfig ::
    "u32 \<Rightarrow> cdma_bcst_info list option \<Rightarrow> int \<Rightarrow> modem_raw option option" where
  "BuildSetCdmaBroadcastSmsConfig tok configs num =
     (case configs of
        None \<Rightarrow> Some None
      | Some cs \<Rightarrow>
          if num \<le> 0 then Some None
          else let n = nat (min num (int MAX_CDMA_BCST_INFO_NUM)) in
            if n > length cs then None
            else Some (Some (sit_message tok 0x114 (of_nat n # concat (map cdma_bcst_item (take n cs))))))"

definition BuildCdmaSmsBroadcastActivation :: "u32 \<Rightarrow> int \<Rightarrow> modem_raw" where
  "BuildCdmaSmsBroadcastActivation tok act = sit_message tok 0x115 [if act = 0 then 0 else 1]"

section \<open>Reading answers and indications\<close>

text \<open>A field of the raw message, if its id is one of \<open>ids\<close>; the guard of every accessor.\<close>

definition field_if :: "int list \<Rightarrow> 'a \<Rightarrow> (u8 list \<Rightarrow> 'a option) \<Rightarrow> modem_raw \<Rightarrow> 'a option" where
  "field_if ids dflt rd m =
     (if mr_data m = [] then Some dflt
      else do {
        i \<leftarrow> get_u16 (mr_data m) 2;
        (if uint i \<in> set ids then rd (mr_data m) else Some dflt) })"

definition get_s32 :: "u8 list \<Rightarrow> nat \<Rightarrow> int option" where
  "get_s32 xs i = map_option sint (get_u32 xs i)"

definition get_s16 :: "u8 list \<Rightarrow> nat \<Rightarrow> int option" where
  "get_s16 xs i = map_option sint (get_u16 xs i)"

definition send_sms_ids :: "int list" where "send_sms_ids = [0x100, 0x101]"

definition SendSms_GetRef :: "modem_raw \<Rightarrow> int option" where
  "SendSms_GetRef = field_if send_sms_ids (-1) (\<lambda>xs. map_option (\<lambda>i. i AND 0xFF) (get_s32 xs 12))"

definition SendSms_GetSmsRspErrorCode :: "modem_raw \<Rightarrow> int option" where
  "SendSms_GetSmsRspErrorCode = field_if send_sms_ids (-1) (\<lambda>xs. get_s32 xs 261)"

definition SendSms_GetPduSize :: "modem_raw \<Rightarrow> int option" where
  "SendSms_GetPduSize = field_if send_sms_ids 0 (\<lambda>xs. map_option uint (arr_get xs 16))"

definition SendSms_GetPdu :: "modem_raw \<Rightarrow> u8 list option option" where
  "SendSms_GetPdu = field_if send_sms_ids None (\<lambda>xs. do {
     n \<leftarrow> arr_get xs 16;
     (if n = 0 then Some None
      else do { x \<leftarrow> arr_get xs 17; Some (if x = 0 then None else Some (drop 17 xs)) }) })"

definition WriteSms_GetIndex :: "modem_raw \<Rightarrow> int option" where
  "WriteSms_GetIndex = field_if [0x103] (-1) (\<lambda>xs. get_s32 xs 12)"

definition WriteSms_GetIndexLen :: "modem_raw \<Rightarrow> int option" where
  "WriteSms_GetIndexLen = field_if [0x10E] (-1) (\<lambda>xs. Some 4)"

definition NewBcst_GetBcst :: "modem_raw \<Rightarrow> u8 list option option" where
  "NewBcst_GetBcst = field_if [0x110] None (\<lambda>xs. do {
     n \<leftarrow> arr_get xs 8; Some (if n = 0 then None else Some (drop 9 xs)) })"

definition NewBcst_GetBcstLen :: "modem_raw \<Rightarrow> int option" where
  "NewBcst_GetBcstLen = field_if [0x110] (-1) (\<lambda>xs. map_option uint (arr_get xs 8))"

text \<open>\<^verbatim>\<open>ProtocolSmscAddrRespAdapter\<close>: the array of 24 octets and the length.\<close>

definition SmscAddr_Init :: "modem_raw \<Rightarrow> (u8 list \<times> int) option" where
  "SmscAddr_Init = field_if [0x108] (replicate 24 0, 0) (\<lambda>xs. do {
     err \<leftarrow> arr_get xs 10;
     (if err \<noteq> 0 then Some (replicate 24 0, 0)
      else do {
        len \<leftarrow> get_u16 xs 4;
        (if uint len \<le> int RCM_HEADER_SIZE then Some (replicate 24 0, 0)
         else do {
           x \<leftarrow> arr_get xs 12;
           let n = min (uint x) (int MAX_GSM_SMS_SERVICE_CENTER_ADDR);
           buf \<leftarrow> copy_in (replicate 24 0) 0 (drop 13 xs) n;
           Some (buf, n) }) }) })"

text \<open>
  \<^verbatim>\<open>ProtocolNewSmsIndAdapter\<close>: the unit as hexadecimal digits in an array of 489 characters, the
  length counts what would have been printed.
\<close>

definition TPDU_TEXT_SIZE :: nat where "TPDU_TEXT_SIZE = 2 * MAX_GSM_SMS_TPDU_SIZE + 1"

fun tpdu_loop :: "u8 list \<Rightarrow> nat \<Rightarrow> u8 list \<Rightarrow> (nat \<times> u8 list) option" where
  "tpdu_loop [] len buf = Some (len, buf)"
| "tpdu_loop (x # xs) len buf =
     (if len < TPDU_TEXT_SIZE
      then (case snprintf_at buf len (TPDU_TEXT_SIZE - len - 1) (hex2 x) of
              None \<Rightarrow> None | Some (k, buf) \<Rightarrow> tpdu_loop xs (len + k) buf)
      else tpdu_loop xs len buf)"

record new_sms_ind =
  ni_tpdu :: "u8 list"
  ni_tpid :: int
  ni_len :: nat

definition NewSms_Init :: new_sms_ind where
  "NewSms_Init = \<lparr>ni_tpdu = replicate TPDU_TEXT_SIZE 0, ni_tpid = -1, ni_len = 0\<rparr>"

definition NewSmsIndAdapter :: "modem_raw \<Rightarrow> new_sms_ind option" where
  "NewSmsIndAdapter = field_if [0x10C, 0x10D] NewSms_Init (\<lambda>xs. do {
     tpid \<leftarrow> arr_get xs 8;
     n \<leftarrow> arr_get xs 9;
     (if 10 + unat n > length xs then None
      else do {
        (len, buf) \<leftarrow> tpdu_loop (take (unat n) (drop 10 xs)) 0 (ni_tpdu NewSms_Init);
        Some \<lparr>ni_tpdu = buf, ni_tpid = uint tpid, ni_len = len\<rparr> }) })"

definition NewSms_GetPdu :: "new_sms_ind \<Rightarrow> u8 list option" where
  "NewSms_GetPdu a = (if ni_len a = 0 \<or> ni_tpdu a ! 0 = 0 then None else Some (cstring (ni_tpdu a)))"

fun bcst_items :: "u8 list \<Rightarrow> nat \<Rightarrow> nat \<Rightarrow> bcst_info list option" where
  "bcst_items xs at 0 = Some []"
| "bcst_items xs at (Suc n) = do {
     a \<leftarrow> get_s16 xs at; b \<leftarrow> get_s16 xs (at + 2);
     c \<leftarrow> arr_get xs (at + 4); d \<leftarrow> arr_get xs (at + 5); s \<leftarrow> arr_get xs (at + 6);
     cs \<leftarrow> bcst_items xs (at + 7) n;
     Some (\<lparr>fromServiceId = a, toServiceId = b, fromCodeScheme = uint c, toCodeScheme = uint d,
            bcst_selected = s\<rparr> # cs) }"

definition GetBcstSmsConf :: "modem_raw \<Rightarrow> bcst_info list option option" where
  "GetBcstSmsConf = field_if [0x105] None (\<lambda>xs. do {
     num \<leftarrow> arr_get xs 12;
     (if num = 0 then Some None
      else do {
        cs \<leftarrow> bcst_items xs 13 (min (unat num) MAX_BCST_INFO_NUM);
        cs \<leftarrow> BroadcastSmsConfigs (Some cs) (of_nat (min (unat num) MAX_BCST_INFO_NUM));
        Some (Some cs) }) })"

definition SmsCapacity_GetSimId :: "modem_raw \<Rightarrow> int option" where
  "SmsCapacity_GetSimId = field_if [0x121] (-1) (\<lambda>xs. map_option uint (arr_get xs 12))"

definition SmsCapacity_GetTotalNum :: "modem_raw \<Rightarrow> int option" where
  "SmsCapacity_GetTotalNum = field_if [0x121] 0 (\<lambda>xs. get_s16 xs 13)"

definition SmsCapacity_GetUsedNum :: "modem_raw \<Rightarrow> int option" where
  "SmsCapacity_GetUsedNum = field_if [0x121] 0 (\<lambda>xs. get_s16 xs 15)"

definition CdmaSendSms_GetRef :: "modem_raw \<Rightarrow> int option" where
  "CdmaSendSms_GetRef = field_if [0x111] (-1) (\<lambda>xs. get_s16 xs 12)"

definition CdmaSendSms_GetErrorClass :: "modem_raw \<Rightarrow> int option" where
  "CdmaSendSms_GetErrorClass = field_if [0x111] (-1) (\<lambda>xs. map_option uint (arr_get xs 14))"

definition CdmaSendSms_GetCauseCode :: "modem_raw \<Rightarrow> int option" where
  "CdmaSendSms_GetCauseCode = field_if [0x111] (-1) (\<lambda>xs. map_option uint (arr_get xs 15))"

text \<open>The message and its transaction id; the length goes through a signed parameter.\<close>

definition CdmaNewSmsInd :: "modem_raw \<Rightarrow> ((u8 list \<times> cdma_sms) option \<times> int) option" where
  "CdmaNewSmsInd m =
     (if mr_data m = [] then Some (None, -1)
      else do {
        len \<leftarrow> get_u16 (mr_data m) 9;
        i \<leftarrow> get_u16 (mr_data m) 2;
        (if 0 < len \<and> uint i = 0x118 then do {
           c \<leftarrow> CCdmaSmsMessage_of_modem (Some (drop 11 (mr_data m))) (sint len);
           t \<leftarrow> arr_get (mr_data m) 8;
           Some (c, uint t) }
         else Some (None, -1)) })"

definition CdmaWriteSms_GetIndex :: "modem_raw \<Rightarrow> int option" where
  "CdmaWriteSms_GetIndex = field_if [0x116] (-1) (\<lambda>xs. map_option uint (arr_get xs 12))"

fun cdma_bcst_items :: "u8 list \<Rightarrow> nat \<Rightarrow> nat \<Rightarrow> cdma_bcst_info list option" where
  "cdma_bcst_items xs at 0 = Some []"
| "cdma_bcst_items xs at (Suc n) = do {
     a \<leftarrow> get_s16 xs at; b \<leftarrow> arr_get xs (at + 2);
     cs \<leftarrow> cdma_bcst_items xs (at + 3) n;
     Some (\<lparr>service_category = a, language = uint b, cdma_selected = 1\<rparr> # cs) }"

definition GetCdmaBcstSmsConf :: "modem_raw \<Rightarrow> cdma_bcst_info list option option" where
  "GetCdmaBcstSmsConf = field_if [0x113] None (\<lambda>xs. do {
     num \<leftarrow> arr_get xs 12;
     (if num = 0 then Some None
      else do {
        cs \<leftarrow> cdma_bcst_items xs 13 (min (unat num) MAX_CDMA_BCST_INFO_NUM);
        cs \<leftarrow> CCdmaBroadcastSmsConfigs (Some cs) (of_nat (min (unat num) MAX_CDMA_BCST_INFO_NUM));
        Some (Some cs) }) })"

definition TELESERVICE_IDENTIFIER_MWI :: int where "TELESERVICE_IDENTIFIER_MWI = 0x40000"

definition CdmaVoiceMsgWaiting :: "modem_raw \<Rightarrow> cdma_sms option option" where
  "CdmaVoiceMsgWaiting = field_if [0x120] None (\<lambda>xs. do {
     n \<leftarrow> arr_get xs 8;
     Some (Some (cdma_zero\<lparr>uTeleserviceID := TELESERVICE_IDENTIFIER_MWI, uBearerDataLen := 1,
       aBearerData := (aBearerData cdma_zero)[0 := n]\<rparr>)) })"

end
