(* ===== verification/Ims_Builder.thy ===== *)
theory Ims_Builder
  imports Sms_Protocol
begin

text \<open>
  \<^verbatim>\<open>protocol/sit/protocolimsbuilder.cpp\<close> and the table of
  \<^verbatim>\<open>protocolimsadapter.cpp\<close>: the messages of the IMS stack are passed through, only the header
  is built here.  The tables pair a request or indication id of \<^verbatim>\<open>ril_oem.h\<close> with a message id
  of \<^verbatim>\<open>sitdef.h\<close>.  The builder for a list of calls is left out.
\<close>

section \<open>Tables\<close>

definition aims_request_map :: "(int \<times> int) list" where
  "aims_request_map =
     [(10150, 0xD00), (10151, 0xD02), (10152, 0xD03), (10153, 0xD06), (10154, 0xD07),
      (10155, 0xD08), (10156, 0xD09), (10157, 0xD0A), (10158, 0xD0B), (10159, 0xD0C),
      (10160, 0xD0D), (10161, 0xD0F), (10162, 0xD10), (10163, 0xD12), (10164, 0xD13),
      (10165, 0xD14), (10166, 0xD15), (10167, 0xD16), (10168, 0xD17), (10169, 0xD18),
      (10170, 0xD19), (10171, 0xD1B), (10172, 0xD1C), (10173, 0xD1D), (10174, 0xD1F),
      (10175, 0xD22), (10176, 0xD24), (10177, 0xD25), (10178, 0xD26), (10179, 0xD27),
      (10180, 0xD28), (10183, 0xD2B), (10184, 0xD2E), (10186, 0xD38), (10187, 0xD39),
      (10188, 0xD3A), (10189, 0xD3B), (10190, 0xD3C), (10191, 0xD3D), (10192, 0xD60),
      (10193, 0xD62), (10194, 0xD64), (10501, 0xD40), (10502, 0xD42), (10503, 0xD44),
      (10504, 0xD46), (10505, 0xD48), (10506, 0xD5A), (10507, 0xD4C), (10508, 0xD4E),
      (10509, 0xD50), (10510, 0xD52), (10511, 0xD54), (10195, 0xD71), (10196, 0xD36),
      (10197, 0xD37), (10198, 0xD72), (10300, 0xF00), (10301, 0xF02), (10302, 0x935)]"

definition aims_ind_map :: "(int \<times> int) list" where
  "aims_ind_map =
     [(10181, 0xD29), (10182, 0xD2A), (10185, 0xD30)]"

definition aims_result_map :: "(int \<times> int) list" where
  "aims_result_map =
     [(20131, 0xD01), (20132, 0xD04), (20133, 0xD05), (20134, 0xD0E), (20135, 0xD11),
      (20136, 0xD1A), (20137, 0xD1E), (20138, 0xD20), (20139, 0xD21), (20140, 0xD23),
      (20141, 0xD2A), (20142, 0xD2C), (20143, 0xD2D), (20144, 0xD2F), (20145, 0xD31),
      (20146, 0xD32), (20147, 0xD33), (20148, 0xD34), (20149, 0xD35), (20150, 0xD3E),
      (20151, 0xD3F), (20163, 0xD61), (20165, 0xD63), (20152, 0xD41), (20153, 0xD43),
      (20154, 0xD45), (20155, 0xD47), (20156, 0xD49), (20157, 0xD4B), (20158, 0xD4D),
      (20159, 0xD4F), (20160, 0xD51), (20161, 0xD53), (20162, 0xD55), (20300, 0xF01),
      (20301, 0xF03), (20302, 0xF04), (20303, 0xF05), (20166, 0xD70), (20167, 0xD65),
      (20168, 0xD74), (20169, 0xD73)]"

section \<open>Builders\<close>

definition MAX_IMS_RCM_SIZE :: nat where "MAX_IMS_RCM_SIZE = 16 * 1024 + 30"

text \<open>
  \<open>data\<close> is the payload of length \<^verbatim>\<open>datalen\<close>; without data the length is zero.  The header is
  written before the length is checked, and the buffer has room for it.
\<close>

definition BuildAimsPDU :: "u32 \<Rightarrow> int \<Rightarrow> u8 list option \<Rightarrow> modem_raw option" where
  "BuildAimsPDU tok requestId data =
     (if requestId < 0 then None
      else let raw = (case data of None \<Rightarrow> [] | Some xs \<Rightarrow> xs) in
        case map_of aims_request_map requestId of
          None \<Rightarrow> None
        | Some protocolId \<Rightarrow>
            if RCM_HEADER_SIZE + length raw > MAX_IMS_RCM_SIZE then None
            else Some (sit_message tok protocolId raw))"

definition BuildAimsIndPDU :: "int \<Rightarrow> u8 list option \<Rightarrow> modem_raw option" where
  "BuildAimsIndPDU requestId data =
     (if requestId < 0 then None
      else let raw = (case data of None \<Rightarrow> [] | Some xs \<Rightarrow> xs); len = RCM_IND_HEADER_SIZE + length raw in
        case map_of aims_ind_map requestId of
          None \<Rightarrow> None
        | Some protocolId \<Rightarrow>
            if len > MAX_IMS_RCM_SIZE then None
            else Some (md_new (rcm_ind_bytes (InitIndRequestHeader protocolId (int len)) @ raw) True))"

text \<open>The configuration is read as 121 octets, whatever the framework sent.\<close>

definition BuildSetConfig :: "u32 \<Rightarrow> u8 list \<Rightarrow> modem_raw option" where
  "BuildSetConfig tok data =
     (if length data < 121 then None else Some (sit_message tok 0xB00 (take 121 data)))"

definition BuildGetConfig :: "u32 \<Rightarrow> modem_raw" where
  "BuildGetConfig tok = sit_message tok 0xB01 []"

definition BuildEmergencyCallStatus :: "u32 \<Rightarrow> u8 \<Rightarrow> u8 \<Rightarrow> modem_raw" where
  "BuildEmergencyCallStatus tok nStatus nRat = sit_message tok 0x712 [nStatus, nRat]"

text \<open>The indication an incoming message is reported as; the first entry with its id counts.\<close>

definition aims_GetResultId :: "modem_raw \<Rightarrow> int option" where
  "aims_GetResultId m =
     (if mr_data m = [] then Some (-1)
      else do {
        i \<leftarrow> get_u16 (mr_data m) 2;
        Some (case find (\<lambda>(res, sit). uint i = sit) aims_result_map of
                Some (res, sit) \<Rightarrow> res | None \<Rightarrow> -1) })"

end
