(* ===== verification/Sms_Number.thy ===== *)
theory Sms_Number
  imports Sms_Pdu
begin

text \<open>
  \<^verbatim>\<open>sitril/util/sms_util.cpp\<close>: the number of the service center as text and as the packed
  decimal digits of the modem, low digit first, with a filler behind an odd number of digits.
\<close>

section \<open>From packed digits to text\<close>

definition RIL_TOA_UNKNOWN :: u8 where "RIL_TOA_UNKNOWN = 0x81"
definition RIL_TOA_INTERNATIONAL :: u8 where "RIL_TOA_INTERNATIONAL = 0x91"

lemmas toa_defs = RIL_TOA_UNKNOWN_def RIL_TOA_INTERNATIONAL_def

function bcd_loop :: "u8 list \<Rightarrow> nat \<Rightarrow> nat \<Rightarrow> nat \<Rightarrow> u8 list \<Rightarrow> int \<Rightarrow> (u8 list \<times> int) option" where
  "bcd_loop tpdu n i j buf len =
     (if j < n then
        (case arr_get tpdu j of
           None \<Rightarrow> None
         | Some b \<Rightarrow>
             (case arr_set buf i ((b AND 0x0F) + 0x30) of
                None \<Rightarrow> None
              | Some buf \<Rightarrow>
                  if drop_bit 4 b = 0x0F then Some (buf, len - 1)
                  else (case arr_set buf (i + 1) ((drop_bit 4 b AND 0x0F) + 0x30) of
                          None \<Rightarrow> None | Some buf \<Rightarrow> bcd_loop tpdu n (i + 2) (j + 1) buf len)))
      else Some (buf, len))"
  by pat_completeness auto
termination by (relation "measure (\<lambda>(tpdu, n, i, j, buf, len). n - j)") auto

declare bcd_loop.simps [simp del]

definition strncpy_in :: "u8 list \<Rightarrow> u8 list \<Rightarrow> int \<Rightarrow> u8 list option" where
  "strncpy_in dst src n =
     (if n < 0 \<or> nat n > length src \<and> 0 \<notin> set src then None
      else let t = takeWhile (\<lambda>c. c \<noteq> 0) (take (nat n) src)
           in arr_blit dst 0 (t @ replicate (nat n - length t) 0))"

definition ConvertSmscBcdToNumber :: "u8 list \<Rightarrow> int \<Rightarrow> u8 list \<Rightarrow> int \<Rightarrow> (int \<times> u8 list) option" where
  "ConvertSmscBcdToNumber tpdu tpduLen smsc smscLen =
     (if tpduLen \<le> 0 then Some (-1, smsc)
      else do {
        let len = (tpduLen - 1) * 2;
        let buf = replicate (2 * MAX_GSM_SMS_SERVICE_CENTER_ADDR) 0;
        t \<leftarrow> arr_get tpdu 1;
        (buf, len) \<leftarrow> (if t = RIL_TOA_INTERNATIONAL then bcd_loop tpdu (nat tpduLen) 1 2 (buf[0 := 0x2B]) (len - 1)
                       else if t = RIL_TOA_UNKNOWN then bcd_loop tpdu (nat tpduLen) 0 2 buf (len - 1)
                       else bcd_loop tpdu (nat tpduLen) 0 1 buf len);
        (if len > smscLen then Some (-1, smsc)
         else do { smsc \<leftarrow> strncpy_in smsc buf len; Some (len, smsc) }) })"

section \<open>From text to packed digits\<close>

fun number_loop :: "nat \<Rightarrow> u8 list \<Rightarrow> nat \<Rightarrow> nat \<Rightarrow> u8 list \<Rightarrow> (nat \<times> nat \<times> u8 list) option" where
  "number_loop insert_point [] i j buf = Some (i, j, buf)"
| "number_loop insert_point (c # cs) i j buf =
     (if i mod 2 = insert_point then do {
        buf \<leftarrow> arr_set buf j (c AND 0x0F);
        number_loop insert_point cs (i + 1) j buf }
      else do {
        x \<leftarrow> arr_get buf j;
        buf \<leftarrow> arr_set buf j (x OR (push_bit 4 c AND 0xF0));
        number_loop insert_point cs (i + 1) (j + 1) buf })"

definition number_finish :: "nat \<Rightarrow> nat \<times> nat \<times> u8 list \<Rightarrow> (nat \<times> u8 list) option" where
  "number_finish insert_point st = (case st of (i, j, buf) \<Rightarrow>
     (if insert_point \<noteq> 0 \<and> i mod 2 = 0 \<or> insert_point = 0 \<and> i mod 2 = 1 then do {
        x \<leftarrow> arr_get buf j;
        buf \<leftarrow> arr_set buf j (x OR 0xF0);
        Some (j + 1, buf) }
      else Some (j, buf)))"

text \<open>\<open>smsc\<close> is a C string, whose length the caller passes.\<close>

definition ConvertSmscNumberToBcd :: "u8 list \<Rightarrow> u8 list \<Rightarrow> int \<Rightarrow> (int \<times> u8 list) option" where
  "ConvertSmscNumberToBcd smsc tpdu tpduLen =
     (if smsc = [] then Some (-1, tpdu)
      else do {
        let buf = replicate MAX_GSM_SMS_SERVICE_CENTER_ADDR 0;
        let intl = (hd smsc = 0x2B);
        let buf = buf[1 := (if intl then RIL_TOA_INTERNATIONAL else RIL_TOA_UNKNOWN)];
        let insert_point = (if intl then 1 else 0);
        st \<leftarrow> number_loop insert_point (if intl then tl smsc else smsc) (if intl then 1 else 0) 2 buf;
        (j, buf) \<leftarrow> number_finish insert_point st;
        buf \<leftarrow> arr_set buf 0 (of_nat (j - 1));
        (if int j > tpduLen then Some (-1, tpdu)
         else do { tpdu \<leftarrow> copy_in tpdu 0 buf (int j); Some (int j, tpdu) }) })"

definition IsSmscLenValid :: "u8 list \<Rightarrow> bool" where
  "IsSmscLenValid smsc \<longleftrightarrow>
     length smsc \<le> (MAX_GSM_SMS_SERVICE_CENTER_ADDR - 2) * 2 +
       (if smsc \<noteq> [] \<and> hd smsc = 0x2B then 1 else 0)"

section \<open>Packing and unpacking digits\<close>

definition is_digit :: "u8 \<Rightarrow> bool" where "is_digit c \<longleftrightarrow> 0x30 \<le> c \<and> c \<le> 0x39"

fun bcd_pack :: "u8 list \<Rightarrow> u8 list" where
  "bcd_pack [] = []"
| "bcd_pack [a] = [(a AND 0x0F) OR 0xF0]"
| "bcd_pack (a # b # cs) = ((a AND 0x0F) OR (push_bit 4 b AND 0xF0)) # bcd_pack cs"

lemma length_bcd_pack: "length (bcd_pack ds) = (length ds + 1) div 2"
  by (induction ds rule: bcd_pack.induct) auto

lemma digit_cases:
  assumes "is_digit c"
  shows "c \<in> set [0x30, 0x31, 0x32, 0x33, 0x34, 0x35, 0x36, 0x37, 0x38, 0x39]"
proof -
  have "unat c \<in> {0x30..0x39}" using assms by (auto simp: is_digit_def word_le_nat_alt)
  then have "unat c = 0x30 \<or> unat c = 0x31 \<or> unat c = 0x32 \<or> unat c = 0x33 \<or> unat c = 0x34 \<or>
      unat c = 0x35 \<or> unat c = 0x36 \<or> unat c = 0x37 \<or> unat c = 0x38 \<or> unat c = 0x39"
    unfolding atLeastAtMost_iff by presburger
  then show ?thesis by (auto simp: word_unat_eq_iff)
qed

lemma digit_pair:
  assumes "is_digit a" and "is_digit b"
  shows "((a AND 0x0F) OR (push_bit 4 b AND 0xF0) AND 0x0F) + 0x30 = a"
    and "(((a AND 0x0F) OR (push_bit 4 b AND 0xF0)) AND 0x0F) + 0x30 = a"
    and "drop_bit 4 ((a AND 0x0F) OR (push_bit 4 b AND 0xF0)) \<noteq> 0x0F"
    and "(drop_bit 4 ((a AND 0x0F) OR (push_bit 4 b AND 0xF0)) AND 0x0F) + 0x30 = b"
    and "(((a AND 0x0F) OR 0xF0) AND 0x0F) + 0x30 = a"
    and "drop_bit 4 ((a AND 0x0F) OR 0xF0 :: u8) = 0x0F"
proof -
  let ?D = "[0x30, 0x31, 0x32, 0x33, 0x34, 0x35, 0x36, 0x37, 0x38, 0x39] :: u8 list"
  have "\<forall>a\<in>set ?D. \<forall>b\<in>set ?D.
      ((a AND 0x0F) OR (push_bit 4 b AND 0xF0) AND 0x0F) + 0x30 = a \<and>
      (((a AND 0x0F) OR (push_bit 4 b AND 0xF0)) AND 0x0F) + 0x30 = a \<and>
      drop_bit 4 ((a AND 0x0F) OR (push_bit 4 b AND 0xF0)) \<noteq> 0x0F \<and>
      (drop_bit 4 ((a AND 0x0F) OR (push_bit 4 b AND 0xF0)) AND 0x0F) + 0x30 = b \<and>
      (((a AND 0x0F) OR 0xF0) AND 0x0F) + 0x30 = a \<and> drop_bit 4 ((a AND 0x0F) OR 0xF0 :: u8) = 0x0F"
    by code_simp
  then show "((a AND 0x0F) OR (push_bit 4 b AND 0xF0) AND 0x0F) + 0x30 = a"
    and "(((a AND 0x0F) OR (push_bit 4 b AND 0xF0)) AND 0x0F) + 0x30 = a"
    and "drop_bit 4 ((a AND 0x0F) OR (push_bit 4 b AND 0xF0)) \<noteq> 0x0F"
    and "(drop_bit 4 ((a AND 0x0F) OR (push_bit 4 b AND 0xF0)) AND 0x0F) + 0x30 = b"
    and "(((a AND 0x0F) OR 0xF0) AND 0x0F) + 0x30 = a"
    and "drop_bit 4 ((a AND 0x0F) OR 0xF0 :: u8) = 0x0F"
    using digit_cases [OF assms(1)] digit_cases [OF assms(2)] by blast+
qed

lemma number_loop_pack:
  assumes "i mod 2 = p" and "p < 2" and "length (bcd_pack ds) \<le> length z"
  shows "\<exists>st. number_loop p ds i (length pre) (pre @ z) = Some st \<and>
    number_finish p st = Some (length pre + length (bcd_pack ds),
      pre @ bcd_pack ds @ drop (length (bcd_pack ds)) z)"
  using assms
proof (induction ds arbitrary: i pre z rule: bcd_pack.induct)
  case 1
  then show ?case by (auto simp: number_finish_def)
next
  case (2 a)
  then obtain y z' where z: "z = y # z'" by (cases z) auto
  have "(i + 1) mod 2 \<noteq> p" "p = 0 \<or> p = 1" using 2 by presburger+
  then show ?case
    using 2 z by (auto simp: number_finish_def list_update_append nth_append mod_Suc)
next
  case (3 a b cs)
  then obtain y z' where z: "z = y # z'" by (cases z) auto
  have i: "(i + 1) mod 2 \<noteq> p" "(i + 2) mod 2 = p" using 3 by presburger+
  let ?x = "(a AND 0x0F) OR (push_bit 4 b AND 0xF0)"
  have "\<exists>st. number_loop p cs (i + 2) (length (pre @ [?x])) ((pre @ [?x]) @ z') = Some st \<and>
    number_finish p st = Some (length (pre @ [?x]) + length (bcd_pack cs),
      (pre @ [?x]) @ bcd_pack cs @ drop (length (bcd_pack cs)) z')"
    using 3 z i by (intro "3.IH") auto
  then show ?case
    using i z 3(2) by (simp add: list_update_append nth_append)
qed

lemma bcd_loop_pack:
  assumes "list_all is_digit ds" and "length ds \<le> length z"
    and "n = length pre + length (bcd_pack ds)"
  shows "bcd_loop (pre @ bcd_pack ds @ rest) n (length out) (length pre) (out @ z) len =
    Some (out @ ds @ drop (length ds) z, len - int (length ds mod 2))"
  using assms
proof (induction ds arbitrary: pre out z rule: bcd_pack.induct)
  case 1
  then show ?case by (simp add: bcd_loop.simps)
next
  case (2 a)
  then obtain y z' where z: "z = y # z'" by (cases z) auto
  have d: "is_digit a" using 2 by simp
  show ?case
    using 2 z digit_pair(5,6) [OF d d] by (subst bcd_loop.simps) (simp add: list_update_append nth_append)
next
  case (3 a b cs)
  then obtain y y' z' where z: "z = y # y' # z'" by (cases z; cases "tl z") auto
  let ?x = "(a AND 0x0F) OR (push_bit 4 b AND 0xF0)"
  have d: "is_digit a" "is_digit b" using 3 by simp_all
  have ih: "bcd_loop ((pre @ [?x]) @ bcd_pack cs @ rest) n (length (out @ [a, b])) (length (pre @ [?x]))
      ((out @ [a, b]) @ z') len =
    Some ((out @ [a, b]) @ cs @ drop (length cs) z', len - int (length cs mod 2))"
    using 3 z by (intro "3.IH") auto
  have step: "bcd_loop (pre @ bcd_pack (a # b # cs) @ rest) n (length out) (length pre) (out @ z) len =
      bcd_loop ((pre @ [?x]) @ bcd_pack cs @ rest) n (length (out @ [a, b])) (length (pre @ [?x]))
      ((out @ [a, b]) @ z') len"
    using 3 z digit_pair(2-4) [OF d]
    by (subst bcd_loop.simps) (simp add: list_update_append nth_append)
  show ?case unfolding step ih by (simp add: z)
qed

lemma number_text_pack:
  assumes "p < 2" and "length (bcd_pack ds) \<le> 10"
  shows "\<exists>st. number_loop p ds p 2 ([0, toa] @ replicate 10 0) = Some st \<and>
    number_finish p st = Some (2 + length (bcd_pack ds),
      [0, toa] @ bcd_pack ds @ replicate (10 - length (bcd_pack ds)) 0)"
  using number_loop_pack [of p p ds "replicate 10 0" "[0, toa]"] assms by (simp add: numeral_2_eq_2)

lemma number_text_unpack:
  assumes "list_all is_digit ds" and "length ds \<le> length z"
  shows "bcd_loop ([l, toa] @ bcd_pack ds @ rest) (2 + length (bcd_pack ds)) (length out) 2 (out @ z) len =
    Some (out @ ds @ drop (length ds) z, len - int (length ds mod 2))"
  using bcd_loop_pack [OF assms, of _ "[l, toa]"] by (simp add: numeral_2_eq_2)

lemma bcd_start:
  assumes "bcd_loop ([l, if intl then RIL_TOA_INTERNATIONAL else RIL_TOA_UNKNOWN] @ xs) n
      (length (if intl then [0x2B] else [] :: u8 list)) 2
      ((if intl then [0x2B] else []) @ replicate (24 - length (if intl then [0x2B] else [] :: u8 list)) 0)
      (int (2 * n - 3)) = Some (buf, len)"
    and "2 \<le> n" and "len \<le> sz" and "pdu = [l, if intl then RIL_TOA_INTERNATIONAL else RIL_TOA_UNKNOWN] @ xs"
    and "strncpy_in smsc buf len = Some smsc'"
  shows "ConvertSmscBcdToNumber pdu (int n) smsc sz = Some (len, smsc')"
proof -
  have r: "(replicate 24 0 :: u8 list)[0 := 0x2B] = [0x2B] @ replicate 23 0" by (simp add: numeral_eq_Suc)
  have n: "(int n - 1) * 2 - 1 = int (2 * n - 3)" "\<not> int n \<le> 0" using assms(2) by auto
  show ?thesis
    using assms(1,3,5) n r
    by (cases intl) (simp_all add: assms(4) ConvertSmscBcdToNumber_def toa_defs sms_sizes Let_def)
qed

section \<open>Properties\<close>

definition smsc_text :: "bool \<Rightarrow> u8 list \<Rightarrow> u8 list" where
  "smsc_text intl ds = (if intl then 0x2B # ds else ds)"

text \<open>
  C23. The number of the service center survives the way to the modem and back: what
  \<^verbatim>\<open>SET_SMSC_ADDRESS\<close> packs for a number of one to twenty digits, with or without a intl
  sign, fits its twelve octets, and \<^verbatim>\<open>GET_SMSC_ADDRESS\<close> unpacks it as the same text.
\<close>

theorem smsc_number_round_trip:
  assumes "list_all is_digit ds" and "ds \<noteq> []" and "length ds \<le> 20"
  shows "IsSmscLenValid (smsc_text intl ds) \<and>
    (\<exists>n pdu. ConvertSmscNumberToBcd (smsc_text intl ds) (replicate 12 0) 12 = Some (int n, pdu) \<and>
      (\<exists>k text. ConvertSmscBcdToNumber pdu (int n) (replicate 24 0) 24 = Some (k, text) \<and>
        cstring text = smsc_text intl ds))"
proof -
  have hd: "hd ds \<noteq> 0x2B" using assms(1,2) by (cases ds) (auto simp: is_digit_def)
  let ?toa = "if intl then RIL_TOA_INTERNATIONAL else RIL_TOA_UNKNOWN" and ?p = "if intl then 1 else 0 :: nat"
  let ?n = "2 + length (bcd_pack ds)"
  have fit: "?n \<le> 12" using assms(3) by (simp add: length_bcd_pack)
  have "?p < 2" "length (bcd_pack ds) \<le> 10" using fit by simp_all
  then obtain st where st: "number_loop ?p ds ?p 2 ([0, ?toa] @ replicate 10 0) = Some st"
    "number_finish ?p st = Some (?n, [0, ?toa] @ bcd_pack ds @ replicate (10 - length (bcd_pack ds)) 0)"
    using number_text_pack [of ?p ds ?toa] by blast
  have buf: "(replicate 12 0 :: u8 list)[1 := ?toa] = [0, ?toa] @ replicate 10 0"
    by (simp add: numeral_eq_Suc)
  have two: "nat (2 + int k) = Suc (Suc k)" for k by simp
  let ?pdu = "[of_nat (?n - 1), ?toa] @ bcd_pack ds @ replicate (10 - length (bcd_pack ds)) 0"
  have pdu: "ConvertSmscNumberToBcd (smsc_text intl ds) (replicate 12 0) 12 = Some (int ?n, ?pdu)"
    using st buf fit hd assms(2)
    by (cases intl)
      (simp_all add: ConvertSmscNumberToBcd_def smsc_text_def sms_sizes copy_in_def Let_def two)
  have nz: "0 \<notin> set (smsc_text intl ds)" using assms(1) by (auto simp: smsc_text_def list_all_iff is_digit_def)
  let ?out = "if intl then [0x2B] else [] :: u8 list"
  let ?z = "replicate (24 - length ?out) 0 :: u8 list"
  have loop: "bcd_loop ?pdu ?n (length ?out) 2 (?out @ ?z) (int (2 * ?n - 3)) =
      Some (smsc_text intl ds @ drop (length ds) ?z, int (2 * ?n - 3) - int (length ds mod 2))"
  proof -
    have "smsc_text intl ds = ?out @ ds" by (simp add: smsc_text_def)
    moreover have "length ds \<le> length ?z" using assms(3) by simp
    ultimately show ?thesis using number_text_unpack [OF assms(1), of ?z] by (metis append.assoc)
  qed
  define L where "L = length ds"
  have len: "int (2 * ?n - 3) - int (length ds mod 2) = int (L + 1)"
    unfolding L_def length_bcd_pack by presburger
  let ?t = "smsc_text intl ds"
  have tl: "length ?t \<le> L + 1" "L \<le> length ?t" "L \<le> 20" using assms(3) by (auto simp: smsc_text_def L_def)
  have tw: "takeWhile (\<lambda>c. c \<noteq> 0) (take (L + 1) (?t @ drop (length ds) ?z)) = ?t"
  proof -
    have "take (L + 1) (?t @ drop (length ds) ?z) = ?t @ replicate (L + 1 - length ?t) 0"
      using tl by (auto simp: smsc_text_def L_def)
    moreover have "takeWhile (\<lambda>c. c \<noteq> 0) (?t @ replicate k 0) = ?t" for k
      using nz by (cases k) (auto simp: takeWhile_append2 takeWhile_tail takeWhile_eq_all_conv)
    ultimately show ?thesis by simp
  qed
  have "strncpy_in (replicate 24 0) (?t @ drop (length ds) ?z) (int (L + 1)) =
      Some (?t @ replicate (L + 1 - length ?t) 0 @ replicate (24 - (L + 1)) 0)"
  proof -
    have "\<not> nat (int (L + 1)) > length (?t @ drop (length ds) ?z)" using tl assms(3) by (auto simp: smsc_text_def L_def)
    moreover have "nat (int (L + 1)) = L + 1" "\<not> int (L + 1) < 0" by simp_all
    ultimately show ?thesis using tl unfolding strncpy_in_def Let_def by (simp only: tw) simp
  qed
  then have "ConvertSmscBcdToNumber ?pdu (int ?n) (replicate 24 0) 24 =
      Some (int (L + 1), ?t @ replicate (L + 1 - length ?t) 0 @ replicate (24 - (L + 1)) 0)"
    using bcd_start [OF loop [unfolded len] _ _ refl] tl by simp
  moreover have "cstring (?t @ replicate (L + 1 - length ?t) 0 @ replicate (24 - (L + 1)) 0) = ?t"
  proof -
    have "replicate (L + 1 - length ?t) 0 @ replicate (24 - (L + 1)) (0 :: u8) =
        0 # replicate (L + 1 - length ?t + (24 - (L + 1)) - 1) 0"
      using tl by (simp flip: replicate_add replicate_Suc)
    then show ?thesis using cstring_text [OF nz] by simp
  qed
  ultimately have "\<exists>k text. ConvertSmscBcdToNumber ?pdu (int ?n) (replicate 24 0) 24 = Some (k, text) \<and>
      cstring text = ?t" by blast
  moreover have "IsSmscLenValid ?t" using assms(3) by (auto simp: IsSmscLenValid_def smsc_text_def sms_sizes)
  ultimately show ?thesis using pdu by blast
qed

theorem smsc_number_round_trip_witness:
  "\<exists>n pdu. ConvertSmscNumberToBcd (smsc_text True [0x38, 0x32, 0x31]) (replicate 12 0) 12 = Some (int n, pdu)"
  using smsc_number_round_trip [of "[0x38, 0x32, 0x31]" True] by (auto simp: is_digit_def)

end
