(* ===== verification/Sms_Service.thy ===== *)
theory Sms_Service
  imports Ims_Builder Sms_Number
begin

text \<open>
  \<^verbatim>\<open>sitril/core/service/smsservice.cpp\<close>: the derived service for short messages, and the two
  acknowledgement handlers of \<^verbatim>\<open>miscservice.cpp\<close> that share its transaction id.  A handler is a
  function of its argument and the fields of the service; it returns the result code, the calls it
  makes to the base class and the service manager, and the new fields.  \<open>None\<close> is an access outside an
  object, a \<^verbatim>\<open>NULL\<close> dereference, or request data of another class than the handler casts to.
\<close>

section \<open>Messages, requests and calls\<close>

text \<open>The ids of \<^verbatim>\<open>messageid.h\<close> the service handles or waits for.\<close>

datatype sms_msg =
    MSG_SMS_SEND | MSG_SMS_SEND_MORE | MSG_SMS_SEND_DONE | MSG_SMS_ACKNOWLEDGE | MSG_SMS_ACKNOWLEDGE_DONE
  | MSG_SMS_WRITE_SMS_TO_SIM | MSG_SMS_WRITE_SMS_TO_SIM_DONE
  | MSG_SMS_DELETE_SMS_ON_SIM | MSG_SMS_DELETE_SMS_ON_SIM_DONE
  | MSG_SMS_GET_BROADCAST_SMS_CONFIG | MSG_SMS_GET_BROADCAST_SMS_CONFIG_DONE
  | MSG_SMS_SET_BROADCAST_SMS_CONFIG | MSG_SMS_SET_BROADCAST_SMS_CONFIG_DONE
  | MSG_SMS_BROADCAST_ACTIVATION | MSG_SMS_BROADCAST_ACTIVATION_DONE
  | MSG_SMS_GET_SMSC_ADDRESS | MSG_SMS_GET_SMSC_ADDRESS_DONE
  | MSG_SMS_SET_SMSC_ADDRESS | MSG_SMS_SET_SMSC_ADDRESS_DONE
  | MSG_SMS_REPORT_SMS_MEMORY_STATUS | MSG_SMS_REPORT_SMS_MEMORY_STATUS_DONE
  | MSG_SMS_ACK_WITH_PDU | MSG_SMS_ACK_WITH_PDU_DONE
  | MSG_SMS_INCOMING_NEW_SMS | MSG_SMS_INCOMING_NEW_SMS_STATUS_REPORT | MSG_SMS_INCOMING_NEW_SMS_ON_SIM
  | MSG_SMS_SIM_SMS_STORAGE_FULL | MSG_SMS_INCOMING_NEW_BROADCAST_SMS
  | MSG_SMS_CDMA_SEND | MSG_SMS_CDMA_SEND_DONE
  | MSG_SMS_CDMA_GET_BROADCAST_SMS_CONFIG | MSG_SMS_CDMA_GET_BROADCAST_SMS_CONFIG_DONE
  | MSG_SMS_CDMA_SET_BROADCAST_SMS_CONFIG | MSG_SMS_CDMA_SET_BROADCAST_SMS_CONFIG_DONE
  | MSG_SMS_CDMA_BROADCAST_ACTIVATION | MSG_SMS_CDMA_BROADCAST_ACTIVATION_DONE
  | MSG_SMS_CDMA_WRITE_SMS_TO_RUIM | MSG_SMS_CDMA_WRITE_SMS_TO_RUIM_DONE
  | MSG_SMS_CDMA_DELETE_SMS_ON_RUIM | MSG_SMS_CDMA_DELETE_SMS_ON_RUIM_DONE
  | MSG_SMS_CDMA_INCOMING_NEW_SMS | MSG_SMS_CDMA_RUIM_SMS_STORAGE_FULL | MSG_SMS_CDMA_VOICE_MSG_WAITING_INFO
  | MSG_SMS_AIMS_SEND_SMS | MSG_SMS_AIMS_SEND_SMS_DONE
  | MSG_SMS_AIMS_SEND_EXPECT_MORE | MSG_SMS_AIMS_SEND_EXPECT_MORE_DONE
  | MSG_SMS_GET_STORAGE_CAPACITY | MSG_SMS_GET_STORAGE_CAPACITY_DONE
  | MSG_MISC_SMS_ACKNOWLEDGE | MSG_MISC_SMS_ACKNOWLEDGE_DONE

datatype sms_request =
    ReqPlain
  | ReqGsm gsm_sms
  | ReqSim sim_sms
  | ReqAck sms_ack
  | ReqAckPdu sms_ack_pdu
  | ReqInt int
  | ReqString "u8 list option"
  | ReqBcst "bcst_info list option"
  | ReqCdma "(u8 list \<times> cdma_sms) option"
  | ReqRuim u8 "(u8 list \<times> cdma_sms) option"
  | ReqCdmaBcst "cdma_bcst_info list option"
  | ReqRaw int "u8 list option"

datatype sms_data =
    NoData
  | SmsResponse int int
  | Octets "u8 list option"
  | Integer int
  | Storage int int int
  | Configs "bcst_info list option"
  | CdmaConfigs "cdma_bcst_info list option"
  | CdmaMessage "cdma_sms option"

datatype sms_call =
    SendRequest modem_raw int sms_msg
  | RequestComplete int sms_data int
  | Unsolicited int sms_data int
  | SendMessage sms_msg sms_request
  | PropertySet "u8 list"

record sms_service =
  s_sca :: "u8 list"
  s_scaLen :: int
  s_index :: int
  s_smsclass :: int
  s_simsms_full :: int
  s_nLastTpid :: u8
  g_nLastTpidNewSms :: u8

definition SmsService_new :: sms_service where
  "SmsService_new = \<lparr>s_sca = replicate MAX_GSM_SMS_SERVICE_CENTER_ADDR 0, s_scaLen = 0, s_index = 0,
     s_smsclass = 0, s_simsms_full = 0, s_nLastTpid = 0, g_nLastTpidNewSms = 0\<rparr>"

text \<open>
  The environment of a step: the token the generator yields, the property with the domain, whether the
  base class can send, and memory that was never written.
\<close>

record sms_env =
  t_tok :: u32
  t_domain :: int
  t_ok :: bool
  t_junk :: "u8 list"

type_synonym sms_result = "(int \<times> sms_call list \<times> sms_service) option"

text \<open>Sending: \<^verbatim>\<open>NULL\<close> and a failure of the base class are both reported as -1.\<close>

definition sms_send :: "sms_env \<Rightarrow> modem_raw option \<Rightarrow> int \<Rightarrow> sms_msg \<Rightarrow> sms_service \<Rightarrow> sms_result" where
  "sms_send e pmd timeout done st =
     (case pmd of
        None \<Rightarrow> Some (-1, [], st)
      | Some md \<Rightarrow> Some (if t_ok e then 0 else -1, if t_ok e then [SendRequest md timeout done] else [], st))"

definition SMS_DEFAULT_TIMEOUT :: int where "SMS_DEFAULT_TIMEOUT = 10000"
definition SMS_SEND_TIMEOUT :: int where "SMS_SEND_TIMEOUT = 200000"
definition RIL_E_SMS_SEND_FAIL_RETRY :: int where "RIL_E_SMS_SEND_FAIL_RETRY = 10"
definition RIL_E_NETWORK_REJECT :: int where "RIL_E_NETWORK_REJECT = 53"
definition RIL_E_NETWORK_NOT_READY :: int where "RIL_E_NETWORK_NOT_READY = 60"

definition sms_fail :: "sms_service \<Rightarrow> sms_result" where "sms_fail st = Some (-1, [], st)"

definition sms_ok :: "sms_call list \<Rightarrow> sms_service \<Rightarrow> sms_result" where "sms_ok cs st = Some (0, cs, st)"

definition OnErrorRequestComplete :: "int \<Rightarrow> sms_call" where
  "OnErrorRequestComplete errorCode = RequestComplete errorCode NoData 0"

definition sms_passRadioOff :: "int \<Rightarrow> bool" where
  "sms_passRadioOff request_id \<longleftrightarrow> request_id \<in> {10171, 10172, 100, 90, 91, 93, 94}"

section \<open>Requests\<close>

definition DoSendSms :: "bool \<Rightarrow> sms_env \<Rightarrow> sms_request option \<Rightarrow> sms_service \<Rightarrow> sms_result" where
  "DoSendSms bExpectMore e req st =
     (case req of
        None \<Rightarrow> sms_fail st
      | Some (ReqGsm m) \<Rightarrow> do {
          c \<leftarrow> mSmsc m;
          let (smsc, n) = (if UseRilSmsc c \<and> s_scaLen st \<noteq> 0 then (s_sca st, s_scaLen st)
                           else (sc_mAddr c, sc_mLen c));
          p \<leftarrow> mPdu m;
          md \<leftarrow> BuildSendSms (t_tok e) (t_domain e) (Some smsc) (uint (word_of_int n :: u8))
                 (Some (mData p)) (mLen p) bExpectMore;
          sms_send e md SMS_SEND_TIMEOUT MSG_SMS_SEND_DONE st }
      | _ \<Rightarrow> None)"

definition DoSmsAck :: "sms_env \<Rightarrow> sms_request option \<Rightarrow> sms_service \<Rightarrow> sms_result" where
  "DoSmsAck e req st =
     (case req of
        None \<Rightarrow> sms_fail st
      | Some (ReqAck a) \<Rightarrow>
          sms_send e (BuildSmsAck (t_tok e) (ack_mResult a) (uint (s_nLastTpid st)) (mFailureCause a))
            SMS_DEFAULT_TIMEOUT MSG_SMS_ACKNOWLEDGE_DONE st
      | _ \<Rightarrow> None)"

definition DoWriteSmsToSim :: "sms_env \<Rightarrow> sms_request option \<Rightarrow> sms_service \<Rightarrow> sms_result" where
  "DoWriteSmsToSim e req st =
     (case req of
        None \<Rightarrow> sms_fail st
      | Some (ReqSim m) \<Rightarrow> do {
          n \<leftarrow> GsmSms_GetLength (gsm_sms.truncate m);
          raw \<leftarrow> GsmSms_GetRawByte (take 256 (t_junk e)) (gsm_sms.truncate m);
          pdu \<leftarrow> copy_in (replicate (nat n) 0) 0 raw n;
          md \<leftarrow> BuildWriteSmsToSim (t_tok e) (mStatus m) (mSimIndex m) n (Some pdu);
          sms_send e md SMS_DEFAULT_TIMEOUT MSG_SMS_WRITE_SMS_TO_SIM_DONE st }
      | _ \<Rightarrow> None)"

text \<open>\<^verbatim>\<open>IntRequestData\<close>; three handlers use the pointer without a check.\<close>

definition DoDeleteSmsOnSim :: "sms_env \<Rightarrow> sms_request option \<Rightarrow> sms_service \<Rightarrow> sms_result" where
  "DoDeleteSmsOnSim e req st =
     (case req of
        Some (ReqInt index) \<Rightarrow>
          sms_send e (Some (BuildDeleteSmsOnSim (t_tok e) index)) SMS_DEFAULT_TIMEOUT
            MSG_SMS_DELETE_SMS_ON_SIM_DONE st
      | _ \<Rightarrow> None)"

definition DoGetSmsCapacityOnSim :: "sms_env \<Rightarrow> sms_request option \<Rightarrow> sms_service \<Rightarrow> sms_result" where
  "DoGetSmsCapacityOnSim e req st =
     (case req of
        Some (ReqInt simId) \<Rightarrow>
          sms_send e (Some (BuildGetStoredSmsCount (t_tok e) simId)) SMS_DEFAULT_TIMEOUT
            MSG_SMS_GET_STORAGE_CAPACITY_DONE st
      | _ \<Rightarrow> None)"

definition DoReportSmsMemoryStatus :: "sms_env \<Rightarrow> sms_request option \<Rightarrow> sms_service \<Rightarrow> sms_result" where
  "DoReportSmsMemoryStatus e req st =
     (case req of
        Some (ReqInt mem_status) \<Rightarrow>
          sms_send e (Some (BuildSmsMemoryStatus (t_tok e) mem_status)) SMS_DEFAULT_TIMEOUT
            MSG_SMS_REPORT_SMS_MEMORY_STATUS_DONE st
      | _ \<Rightarrow> None)"

definition DoGetBroadcastSmsConfig :: "sms_env \<Rightarrow> sms_service \<Rightarrow> sms_result" where
  "DoGetBroadcastSmsConfig e st =
     sms_send e (Some (BuildGetBroadcastSmsConfig (t_tok e))) SMS_DEFAULT_TIMEOUT
       MSG_SMS_GET_BROADCAST_SMS_CONFIG_DONE st"

definition DoSetBroadcastSmsConfig :: "sms_env \<Rightarrow> sms_request option \<Rightarrow> sms_service \<Rightarrow> sms_result" where
  "DoSetBroadcastSmsConfig e req st =
     (case req of
        None \<Rightarrow> sms_fail st
      | Some (ReqBcst cs) \<Rightarrow> do {
          md \<leftarrow> BuildSetBroadcastSmsConfig (t_tok e) cs (uint (GetConfigsNumber cs));
          sms_send e md SMS_DEFAULT_TIMEOUT MSG_SMS_SET_BROADCAST_SMS_CONFIG_DONE st }
      | _ \<Rightarrow> None)"

definition DoSmsBroadcastActivation :: "sms_env \<Rightarrow> sms_request option \<Rightarrow> sms_service \<Rightarrow> sms_result" where
  "DoSmsBroadcastActivation e req st =
     (case req of
        None \<Rightarrow> sms_fail st
      | Some (ReqInt act) \<Rightarrow>
          if act \<noteq> 0 \<and> act \<noteq> 1 then sms_fail st
          else sms_send e (Some (BuildSmsBroadcastActivation (t_tok e) act)) SMS_DEFAULT_TIMEOUT
                 MSG_SMS_BROADCAST_ACTIVATION_DONE st
      | _ \<Rightarrow> None)"

definition DoGetSmscAddress :: "sms_env \<Rightarrow> sms_service \<Rightarrow> sms_result" where
  "DoGetSmscAddress e st =
     sms_send e (Some (BuildSmscAddress_get (t_tok e))) SMS_DEFAULT_TIMEOUT MSG_SMS_GET_SMSC_ADDRESS_DONE st"

definition DoSetSmscAddress :: "sms_env \<Rightarrow> sms_request option \<Rightarrow> sms_service \<Rightarrow> sms_result" where
  "DoSetSmscAddress e req st =
     (case req of
        None \<Rightarrow> sms_fail st
      | Some (ReqString None) \<Rightarrow> sms_fail st
      | Some (ReqString (Some sca)) \<Rightarrow>
          if \<not> IsSmscLenValid sca then sms_fail st
          else do {
            (n, pdu) \<leftarrow> ConvertSmscNumberToBcd sca (replicate MAX_GSM_SMS_SERVICE_CENTER_ADDR 0)
                         (int MAX_GSM_SMS_SERVICE_CENTER_ADDR);
            (if n < 0 then sms_fail st
             else do {
               md \<leftarrow> BuildSmscAddress_set (t_tok e) n pdu;
               sms_send e (Some md) SMS_DEFAULT_TIMEOUT MSG_SMS_SET_SMSC_ADDRESS_DONE st }) }
      | _ \<Rightarrow> None)"

definition DoSmsAckWithPdu :: "sms_env \<Rightarrow> sms_request option \<Rightarrow> sms_service \<Rightarrow> sms_result" where
  "DoSmsAckWithPdu e req st =
     (case req of
        None \<Rightarrow> sms_fail st
      | Some (ReqAckPdu a) \<Rightarrow> do {
          p \<leftarrow> ap_mPdu a;
          md \<leftarrow> BuildSmsAck_pdu (t_junk e) (t_tok e) (ap_mResult a) (uint (s_nLastTpid st)) (mData p) (mLen p);
          sms_send e md SMS_DEFAULT_TIMEOUT MSG_SMS_ACKNOWLEDGE_DONE st }
      | _ \<Rightarrow> None)"

text \<open>\<^verbatim>\<open>MiscService\<close> answers for the transaction of the last indication.\<close>

definition misc_DoSmsAck :: "sms_env \<Rightarrow> sms_request option \<Rightarrow> sms_service \<Rightarrow> sms_result" where
  "misc_DoSmsAck e req st =
     (case req of
        None \<Rightarrow> sms_fail st
      | Some (ReqAck a) \<Rightarrow>
          sms_send e (BuildSmsAck (t_tok e) (ack_mResult a) (uint (g_nLastTpidNewSms st)) (mFailureCause a))
            SMS_DEFAULT_TIMEOUT MSG_MISC_SMS_ACKNOWLEDGE_DONE st
      | _ \<Rightarrow> None)"

definition misc_DoSmsAckWithPdu :: "sms_env \<Rightarrow> sms_request option \<Rightarrow> sms_service \<Rightarrow> sms_result" where
  "misc_DoSmsAckWithPdu e req st =
     (case req of
        None \<Rightarrow> sms_fail st
      | Some (ReqAckPdu a) \<Rightarrow> do {
          p \<leftarrow> ap_mPdu a;
          md \<leftarrow> BuildSmsAck_pdu (t_junk e) (t_tok e) (ap_mResult a) (uint (g_nLastTpidNewSms st)) (mData p) (mLen p);
          sms_send e md SMS_DEFAULT_TIMEOUT MSG_MISC_SMS_ACKNOWLEDGE_DONE st }
      | _ \<Rightarrow> None)"

subsection \<open>CDMA and IMS requests\<close>

text \<open>\<^verbatim>\<open>GetMessage\<close> and \<^verbatim>\<open>GetMessageLength\<close> of the request data.\<close>

definition cdma_msg :: "(u8 list \<times> cdma_sms) option \<Rightarrow> u8 list option" where
  "cdma_msg c = map_option fst c"

definition cdma_msg_len :: "(u8 list \<times> cdma_sms) option \<Rightarrow> int" where
  "cdma_msg_len c = (case c of None \<Rightarrow> 0 | Some (msg, m) \<Rightarrow> uint (of_nat (length msg) :: u16))"

definition DoSendCdmaSms :: "sms_env \<Rightarrow> sms_request option \<Rightarrow> sms_service \<Rightarrow> sms_result" where
  "DoSendCdmaSms e req st =
     (case req of
        None \<Rightarrow> sms_fail st
      | Some (ReqCdma c) \<Rightarrow> do {
          md \<leftarrow> BuildSendCdmaSms (t_tok e) (cdma_msg c) (cdma_msg_len c);
          sms_send e md SMS_SEND_TIMEOUT MSG_SMS_CDMA_SEND_DONE st }
      | _ \<Rightarrow> None)"

definition DoWriteCdmaSmsToRuim :: "sms_env \<Rightarrow> sms_request option \<Rightarrow> sms_service \<Rightarrow> sms_result" where
  "DoWriteCdmaSmsToRuim e req st =
     (case req of
        None \<Rightarrow> sms_fail st
      | Some (ReqRuim status c) \<Rightarrow> do {
          md \<leftarrow> BuildWriteCdmaSmsToRuim (t_tok e) (uint status) (cdma_msg c) (cdma_msg_len c);
          sms_send e md SMS_DEFAULT_TIMEOUT MSG_SMS_CDMA_WRITE_SMS_TO_RUIM_DONE st }
      | _ \<Rightarrow> None)"

definition DoDeleteCdmaSmsOnRuim :: "sms_env \<Rightarrow> sms_request option \<Rightarrow> sms_service \<Rightarrow> sms_result" where
  "DoDeleteCdmaSmsOnRuim e req st =
     (case req of
        None \<Rightarrow> sms_fail st
      | Some (ReqInt i) \<Rightarrow>
          sms_send e (Some (BuildDeleteCdmaSmsOnRuim (t_tok e) i)) SMS_DEFAULT_TIMEOUT
            MSG_SMS_CDMA_DELETE_SMS_ON_RUIM_DONE st
      | _ \<Rightarrow> None)"

definition DoGetCdmaBroadcastSmsConfig :: "sms_env \<Rightarrow> sms_service \<Rightarrow> sms_result" where
  "DoGetCdmaBroadcastSmsConfig e st =
     sms_send e (Some (BuildGetCdmaBroadcastSmsConfig (t_tok e))) SMS_DEFAULT_TIMEOUT
       MSG_SMS_CDMA_GET_BROADCAST_SMS_CONFIG_DONE st"

definition DoSetCdmaBroadcastSmsConfig :: "sms_env \<Rightarrow> sms_request option \<Rightarrow> sms_service \<Rightarrow> sms_result" where
  "DoSetCdmaBroadcastSmsConfig e req st =
     (case req of
        None \<Rightarrow> sms_fail st
      | Some (ReqCdmaBcst cs) \<Rightarrow> do {
          md \<leftarrow> BuildSetCdmaBroadcastSmsConfig (t_tok e) cs (uint (CdmaBroadcast_GetConfigsNumber cs));
          sms_send e md SMS_DEFAULT_TIMEOUT MSG_SMS_CDMA_SET_BROADCAST_SMS_CONFIG_DONE st }
      | _ \<Rightarrow> None)"

definition DoSmsCdmaBroadcastActivation :: "sms_env \<Rightarrow> sms_request option \<Rightarrow> sms_service \<Rightarrow> sms_result" where
  "DoSmsCdmaBroadcastActivation e req st =
     (case req of
        None \<Rightarrow> sms_fail st
      | Some (ReqInt act) \<Rightarrow>
          if act \<noteq> 0 \<and> act \<noteq> 1 then sms_fail st
          else sms_send e (Some (BuildCdmaSmsBroadcastActivation (t_tok e) act)) SMS_DEFAULT_TIMEOUT
                 MSG_SMS_CDMA_BROADCAST_ACTIVATION_DONE st
      | _ \<Rightarrow> None)"

text \<open>The id of the answer is the id of the request plus one.\<close>

definition DoSendAimsSms :: "sms_msg \<Rightarrow> sms_env \<Rightarrow> sms_request option \<Rightarrow> sms_service \<Rightarrow> sms_result" where
  "DoSendAimsSms done e req st =
     (case req of
        None \<Rightarrow> sms_fail st
      | Some (ReqRaw rid raw) \<Rightarrow> sms_send e (BuildAimsPDU (t_tok e) rid raw) SMS_SEND_TIMEOUT done st
      | _ \<Rightarrow> None)"

section \<open>Answers\<close>

text \<open>The handlers that only pass the error code on.\<close>

definition sms_plain_done :: "modem_raw option \<Rightarrow> sms_service \<Rightarrow> sms_result" where
  "sms_plain_done pmd st =
     (case pmd of
        None \<Rightarrow> sms_fail st
      | Some md \<Rightarrow> sms_ok [RequestComplete (resp_GetErrorCode md) NoData 0] st)"

definition OnSendSmsDone :: "modem_raw option \<Rightarrow> sms_service \<Rightarrow> sms_result" where
  "OnSendSmsDone pmd st =
     (case pmd of
        None \<Rightarrow> sms_fail st
      | Some md \<Rightarrow> do {
          let err = resp_GetErrorCode md;
          cause \<leftarrow> SendSms_GetSmsRspErrorCode md;
          ref \<leftarrow> SendSms_GetRef md;
          let resp = SmsResponse ref cause;
          (if err = RIL_E_SUCCESS then
             (if cause = 0 then sms_ok [RequestComplete RIL_E_SUCCESS resp 1] st
              else if cause = 42 then sms_ok [RequestComplete RIL_E_SMS_SEND_FAIL_RETRY resp 1] st
              else sms_ok [RequestComplete RIL_E_GENERIC_FAILURE resp 1] st)
           else if err = RIL_E_SMS_SEND_FAIL_RETRY then
             sms_ok [RequestComplete RIL_E_SMS_SEND_FAIL_RETRY resp 1] st
           else sms_ok [OnErrorRequestComplete err] st) })"

definition OnWriteSmsToSimDone :: "modem_raw option \<Rightarrow> sms_service \<Rightarrow> sms_result" where
  "OnWriteSmsToSimDone pmd st =
     (case pmd of
        None \<Rightarrow> sms_fail st
      | Some md \<Rightarrow> do {
          let err = resp_GetErrorCode md;
          i \<leftarrow> WriteSms_GetIndex md;
          let st = st\<lparr>s_index := i\<rparr>;
          let done = (if err = RIL_E_SUCCESS then RequestComplete err (Integer i) 4 else OnErrorRequestComplete err);
          (if s_smsclass st = MESSAGE_CLASS_2 then
             (if err = RIL_E_SUCCESS
              then sms_ok [done, Unsolicited 1005 (Integer i) 4] (st\<lparr>s_smsclass := MESSAGE_CLASS_1\<rparr>)
              else do {
                (r, a) \<leftarrow> SmsAcknowledge_encode (Some [0, 0xFF]);
                sms_ok [done, SendMessage MSG_MISC_SMS_ACKNOWLEDGE (ReqAck a)]
                  (st\<lparr>s_smsclass := MESSAGE_CLASS_1\<rparr>) })
           else sms_ok [done] st) })"

definition OnGetSmsCapacityOnSimDone :: "modem_raw option \<Rightarrow> sms_service \<Rightarrow> sms_result" where
  "OnGetSmsCapacityOnSimDone pmd st =
     (case pmd of
        None \<Rightarrow> sms_fail st
      | Some md \<Rightarrow> do {
          let err = resp_GetErrorCode md;
          i \<leftarrow> SmsCapacity_GetSimId md;
          t \<leftarrow> SmsCapacity_GetTotalNum md;
          u \<leftarrow> SmsCapacity_GetUsedNum md;
          (if err = RIL_E_SUCCESS then sms_ok [RequestComplete err (Storage i t u) 12] st
           else sms_ok [OnErrorRequestComplete err] st) })"

text \<open>The length of an array of pointers is given in entries.\<close>

definition OnGetBroadcastSmsConfigDone :: "modem_raw option \<Rightarrow> sms_service \<Rightarrow> sms_result" where
  "OnGetBroadcastSmsConfigDone pmd st =
     (case pmd of
        None \<Rightarrow> sms_fail st
      | Some md \<Rightarrow> do {
          cs \<leftarrow> GetBcstSmsConf md;
          let err = resp_GetErrorCode md;
          (if err = RIL_E_SUCCESS
           then sms_ok [RequestComplete RIL_E_SUCCESS (Configs cs) (uint (GetConfigsNumber cs))] st
           else sms_ok [OnErrorRequestComplete err] st) })"

definition OnGetSmscAddressDone :: "modem_raw option \<Rightarrow> sms_service \<Rightarrow> sms_result" where
  "OnGetSmscAddressDone pmd st =
     (case pmd of
        None \<Rightarrow> sms_fail st
      | Some md \<Rightarrow>
          if mr_data md = [] then sms_fail st
          else do {
            (smsc, n) \<leftarrow> SmscAddr_Init md;
            let err = resp_GetErrorCode md;
            (if err = RIL_E_SUCCESS then
               (if n \<noteq> 0 then do {
                  sca \<leftarrow> copy_in (s_sca st) 0 smsc n;
                  (k, text) \<leftarrow> ConvertSmscBcdToNumber smsc n (replicate 24 0) 24;
                  sms_ok ((if k > 0 then [PropertySet (cstring text)] else []) @
                          [RequestComplete RIL_E_SUCCESS (Octets (Some text)) k])
                    (st\<lparr>s_scaLen := n, s_sca := sca\<rparr>) }
                else sms_ok [RequestComplete RIL_E_SUCCESS (Octets (Some (replicate 24 0))) 0] st)
             else sms_ok [RequestComplete err NoData 0] st) })"

definition OnSetSmscAddressDone :: "modem_raw option \<Rightarrow> sms_service \<Rightarrow> sms_result" where
  "OnSetSmscAddressDone pmd st =
     (case pmd of
        None \<Rightarrow> sms_fail st
      | Some md \<Rightarrow>
          sms_ok (RequestComplete (resp_GetErrorCode md) NoData 0 #
            (if resp_GetErrorCode md = RIL_E_SUCCESS then [SendMessage MSG_SMS_GET_SMSC_ADDRESS ReqPlain] else [])) st)"

definition OnSendCdmaSmsDone :: "modem_raw option \<Rightarrow> sms_service \<Rightarrow> sms_result" where
  "OnSendCdmaSmsDone pmd st =
     (case pmd of
        None \<Rightarrow> sms_fail st
      | Some md \<Rightarrow> do {
          let err = resp_GetErrorCode md;
          cls \<leftarrow> CdmaSendSms_GetErrorClass md;
          cause \<leftarrow> CdmaSendSms_GetCauseCode md;
          ref \<leftarrow> CdmaSendSms_GetRef md;
          let resp = SmsResponse ref cause;
          (if err = RIL_E_SUCCESS then
             (if cls = 0 then sms_ok [RequestComplete RIL_E_SUCCESS resp 1] st
              else if cls = 2 then sms_ok [RequestComplete RIL_E_NETWORK_NOT_READY resp 1] st
              else if cls = 3 then sms_ok [RequestComplete RIL_E_NETWORK_REJECT resp 1] st
              else sms_ok [OnErrorRequestComplete RIL_E_GENERIC_FAILURE] st)
           else sms_ok [OnErrorRequestComplete err] st) })"

definition OnWriteCdmaSmsToRuimDone :: "modem_raw option \<Rightarrow> sms_service \<Rightarrow> sms_result" where
  "OnWriteCdmaSmsToRuimDone pmd st =
     (case pmd of
        None \<Rightarrow> sms_fail st
      | Some md \<Rightarrow> do {
          let err = resp_GetErrorCode md;
          i \<leftarrow> CdmaWriteSms_GetIndex md;
          (if err = RIL_E_SUCCESS then sms_ok [RequestComplete RIL_E_SUCCESS (Integer i) 4] st
           else sms_ok [OnErrorRequestComplete err] st) })"

definition OnGetCdmaBroadcastSmsConfigDone :: "modem_raw option \<Rightarrow> sms_service \<Rightarrow> sms_result" where
  "OnGetCdmaBroadcastSmsConfigDone pmd st =
     (case pmd of
        None \<Rightarrow> sms_fail st
      | Some md \<Rightarrow> do {
          cs \<leftarrow> GetCdmaBcstSmsConf md;
          let err = resp_GetErrorCode md;
          (if err = RIL_E_SUCCESS
           then sms_ok [RequestComplete RIL_E_SUCCESS (CdmaConfigs cs) (uint (CdmaBroadcast_GetConfigsNumber cs))] st
           else sms_ok [OnErrorRequestComplete err] st) })"

definition OnSendAimsSmsDone :: "modem_raw option \<Rightarrow> sms_service \<Rightarrow> sms_result" where
  "OnSendAimsSmsDone pmd st =
     (case pmd of
        None \<Rightarrow> sms_fail st
      | Some md \<Rightarrow>
          (let err = resp_GetErrorCode md in
           if err = RIL_E_SUCCESS
           then sms_ok [RequestComplete RIL_E_SUCCESS (Octets (md_GetParameter md)) (int (md_GetParameterLength md))] st
           else sms_ok [OnErrorRequestComplete err] st))"

section \<open>Indications\<close>

text \<open>
  A new message.  One of class 2 is not reported but written to the SIM card: the hexadecimal digits
  are split behind the service center, and a request of the service's own is posted.
\<close>

definition OnIncomingNewSms :: "sms_env \<Rightarrow> modem_raw option \<Rightarrow> sms_service \<Rightarrow> sms_result" where
  "OnIncomingNewSms e pmd st =
     (case pmd of
        None \<Rightarrow> sms_fail st
      | Some md \<Rightarrow> do {
          a \<leftarrow> NewSmsIndAdapter md;
          let mem = (case NewSms_GetPdu a of None \<Rightarrow> None | Some _ \<Rightarrow> Some (ni_tpdu a));
          let tpid = word_of_int (ni_tpid a);
          (cls, ps) \<leftarrow> GetSmsClass mem (PduParser_new (t_junk e) None);
          let st = st\<lparr>s_nLastTpid := tpid, g_nLastTpidNewSms := tpid, s_smsclass := cls\<rparr>;
          (if cls = MESSAGE_CLASS_2 then do {
             pdu \<leftarrow> mem;
             (n, ps) \<leftarrow> GetScaLen pdu ps;
             let sca_len = (n + 1) * 2;
             smsc \<leftarrow> copy_in (replicate (nat sca_len + 1) 0) 0 pdu sca_len;
             (r, m) \<leftarrow> SimSms_encode (Some \<lparr>wa_status = 0, wa_pdu = Some (cstring (drop (nat sca_len) pdu)),
                                         wa_smsc = Some (cstring smsc)\<rparr>) 1;
             sms_ok [SendMessage MSG_SMS_WRITE_SMS_TO_SIM (ReqSim m)] st }
           else sms_ok [Unsolicited 1003 (Octets (NewSms_GetPdu a)) (int (ni_len a))] st) })"

definition OnIncomingNewSmsStatusReport :: "modem_raw option \<Rightarrow> sms_service \<Rightarrow> sms_result" where
  "OnIncomingNewSmsStatusReport pmd st =
     (case pmd of
        None \<Rightarrow> sms_fail st
      | Some md \<Rightarrow> do {
          a \<leftarrow> NewSmsIndAdapter md;
          let tpid = word_of_int (ni_tpid a);
          sms_ok [Unsolicited 1004 (Octets (NewSms_GetPdu a)) (int (ni_len a))]
            (st\<lparr>s_nLastTpid := tpid, g_nLastTpidNewSms := tpid\<rparr>) })"

definition OnIncomingNewSmsOnSim :: "modem_raw option \<Rightarrow> sms_service \<Rightarrow> sms_result" where
  "OnIncomingNewSmsOnSim pmd st =
     (case pmd of
        None \<Rightarrow> sms_fail st
      | Some md \<Rightarrow> do {
          index \<leftarrow> WriteSms_GetIndex md;
          indexLen \<leftarrow> WriteSms_GetIndexLen md;
          sms_ok [Unsolicited 1005 (Integer index) indexLen] st })"

definition OnSimSmsStorageFull :: "sms_service \<Rightarrow> sms_result" where
  "OnSimSmsStorageFull st = sms_ok [Unsolicited 1016 NoData 0] (st\<lparr>s_simsms_full := 1\<rparr>)"

definition OnIncomingNewBroadcastSms :: "modem_raw option \<Rightarrow> sms_service \<Rightarrow> sms_result" where
  "OnIncomingNewBroadcastSms pmd st =
     (case pmd of
        None \<Rightarrow> sms_fail st
      | Some md \<Rightarrow> do {
          b \<leftarrow> NewBcst_GetBcst md;
          n \<leftarrow> NewBcst_GetBcstLen md;
          sms_ok [Unsolicited 1021 (Octets b) n] st })"

definition OnIncomingNewCdmaSms :: "modem_raw option \<Rightarrow> sms_service \<Rightarrow> sms_result" where
  "OnIncomingNewCdmaSms pmd st =
     (case pmd of
        None \<Rightarrow> sms_fail st
      | Some md \<Rightarrow> do {
          (c, tpid) \<leftarrow> CdmaNewSmsInd md;
          sms_ok [Unsolicited 1020 (CdmaMessage (map_option snd c)) 1]
            (st\<lparr>s_nLastTpid := word_of_int tpid, g_nLastTpidNewSms := word_of_int tpid\<rparr>) })"

definition OnRuimSmsStorageFull :: "sms_service \<Rightarrow> sms_result" where
  "OnRuimSmsStorageFull st = sms_ok [Unsolicited 1022 NoData 0] st"

definition OnVoiceMsgWaitingInfo :: "modem_raw option \<Rightarrow> sms_service \<Rightarrow> sms_result" where
  "OnVoiceMsgWaitingInfo pmd st =
     (case pmd of
        None \<Rightarrow> sms_fail st
      | Some md \<Rightarrow> do {
          c \<leftarrow> CdmaVoiceMsgWaiting md;
          sms_ok [Unsolicited 1020 (CdmaMessage c) 1] st })"

definition OnSimStatusChanged :: "bool \<Rightarrow> bool \<Rightarrow> sms_call list" where
  "OnSimStatusChanged present ready =
     (if present \<and> ready then [SendMessage MSG_SMS_GET_SMSC_ADDRESS ReqPlain] else [])"

section \<open>The three switches\<close>

definition sms_OnHandleRequest :: "sms_msg \<Rightarrow> sms_env \<Rightarrow> sms_request option \<Rightarrow> sms_service \<Rightarrow> sms_result" where
  "sms_OnHandleRequest i e req st =
     (case i of
        MSG_SMS_SEND \<Rightarrow> DoSendSms False e req st
      | MSG_SMS_SEND_MORE \<Rightarrow> DoSendSms True e req st
      | MSG_SMS_ACKNOWLEDGE \<Rightarrow> DoSmsAck e req st
      | MSG_SMS_WRITE_SMS_TO_SIM \<Rightarrow> DoWriteSmsToSim e req st
      | MSG_SMS_DELETE_SMS_ON_SIM \<Rightarrow> DoDeleteSmsOnSim e req st
      | MSG_SMS_GET_BROADCAST_SMS_CONFIG \<Rightarrow> DoGetBroadcastSmsConfig e st
      | MSG_SMS_SET_BROADCAST_SMS_CONFIG \<Rightarrow> DoSetBroadcastSmsConfig e req st
      | MSG_SMS_BROADCAST_ACTIVATION \<Rightarrow> DoSmsBroadcastActivation e req st
      | MSG_SMS_GET_SMSC_ADDRESS \<Rightarrow> DoGetSmscAddress e st
      | MSG_SMS_SET_SMSC_ADDRESS \<Rightarrow> DoSetSmscAddress e req st
      | MSG_SMS_REPORT_SMS_MEMORY_STATUS \<Rightarrow> DoReportSmsMemoryStatus e req st
      | MSG_SMS_ACK_WITH_PDU \<Rightarrow> DoSmsAckWithPdu e req st
      | MSG_SMS_CDMA_SEND \<Rightarrow> DoSendCdmaSms e req st
      | MSG_SMS_CDMA_WRITE_SMS_TO_RUIM \<Rightarrow> DoWriteCdmaSmsToRuim e req st
      | MSG_SMS_CDMA_DELETE_SMS_ON_RUIM \<Rightarrow> DoDeleteCdmaSmsOnRuim e req st
      | MSG_SMS_CDMA_GET_BROADCAST_SMS_CONFIG \<Rightarrow> DoGetCdmaBroadcastSmsConfig e st
      | MSG_SMS_CDMA_SET_BROADCAST_SMS_CONFIG \<Rightarrow> DoSetCdmaBroadcastSmsConfig e req st
      | MSG_SMS_CDMA_BROADCAST_ACTIVATION \<Rightarrow> DoSmsCdmaBroadcastActivation e req st
      | MSG_SMS_AIMS_SEND_SMS \<Rightarrow> DoSendAimsSms MSG_SMS_AIMS_SEND_SMS_DONE e req st
      | MSG_SMS_AIMS_SEND_EXPECT_MORE \<Rightarrow> DoSendAimsSms MSG_SMS_AIMS_SEND_EXPECT_MORE_DONE e req st
      | MSG_SMS_GET_STORAGE_CAPACITY \<Rightarrow> DoGetSmsCapacityOnSim e req st
      | _ \<Rightarrow> sms_fail st)"

definition sms_OnHandleSolicitedResponse :: "sms_msg \<Rightarrow> modem_raw option \<Rightarrow> sms_service \<Rightarrow> sms_result" where
  "sms_OnHandleSolicitedResponse i md st =
     (case i of
        MSG_SMS_SEND_DONE \<Rightarrow> OnSendSmsDone md st
      | MSG_SMS_ACKNOWLEDGE_DONE \<Rightarrow> sms_plain_done md st
      | MSG_SMS_WRITE_SMS_TO_SIM_DONE \<Rightarrow> OnWriteSmsToSimDone md st
      | MSG_SMS_DELETE_SMS_ON_SIM_DONE \<Rightarrow> sms_plain_done md st
      | MSG_SMS_GET_BROADCAST_SMS_CONFIG_DONE \<Rightarrow> OnGetBroadcastSmsConfigDone md st
      | MSG_SMS_SET_BROADCAST_SMS_CONFIG_DONE \<Rightarrow> sms_plain_done md st
      | MSG_SMS_BROADCAST_ACTIVATION_DONE \<Rightarrow> sms_plain_done md st
      | MSG_SMS_GET_SMSC_ADDRESS_DONE \<Rightarrow> OnGetSmscAddressDone md st
      | MSG_SMS_SET_SMSC_ADDRESS_DONE \<Rightarrow> OnSetSmscAddressDone md st
      | MSG_SMS_REPORT_SMS_MEMORY_STATUS_DONE \<Rightarrow> sms_plain_done md st
      | MSG_SMS_ACK_WITH_PDU_DONE \<Rightarrow> sms_plain_done md st
      | MSG_SMS_CDMA_SEND_DONE \<Rightarrow> OnSendCdmaSmsDone md st
      | MSG_SMS_CDMA_WRITE_SMS_TO_RUIM_DONE \<Rightarrow> OnWriteCdmaSmsToRuimDone md st
      | MSG_SMS_CDMA_DELETE_SMS_ON_RUIM_DONE \<Rightarrow> sms_plain_done md st
      | MSG_SMS_CDMA_GET_BROADCAST_SMS_CONFIG_DONE \<Rightarrow> OnGetCdmaBroadcastSmsConfigDone md st
      | MSG_SMS_CDMA_SET_BROADCAST_SMS_CONFIG_DONE \<Rightarrow> sms_plain_done md st
      | MSG_SMS_CDMA_BROADCAST_ACTIVATION_DONE \<Rightarrow> sms_plain_done md st
      | MSG_SMS_AIMS_SEND_SMS_DONE \<Rightarrow> OnSendAimsSmsDone md st
      | MSG_SMS_AIMS_SEND_EXPECT_MORE_DONE \<Rightarrow> OnSendAimsSmsDone md st
      | MSG_SMS_GET_STORAGE_CAPACITY_DONE \<Rightarrow> OnGetSmsCapacityOnSimDone md st
      | _ \<Rightarrow> sms_fail st)"

definition sms_OnHandleUnsolicitedResponse ::
    "sms_msg \<Rightarrow> sms_env \<Rightarrow> modem_raw option \<Rightarrow> sms_service \<Rightarrow> sms_result" where
  "sms_OnHandleUnsolicitedResponse i e md st =
     (case i of
        MSG_SMS_INCOMING_NEW_SMS \<Rightarrow> OnIncomingNewSms e md st
      | MSG_SMS_INCOMING_NEW_SMS_STATUS_REPORT \<Rightarrow> OnIncomingNewSmsStatusReport md st
      | MSG_SMS_INCOMING_NEW_SMS_ON_SIM \<Rightarrow> OnIncomingNewSmsOnSim md st
      | MSG_SMS_SIM_SMS_STORAGE_FULL \<Rightarrow> OnSimSmsStorageFull st
      | MSG_SMS_INCOMING_NEW_BROADCAST_SMS \<Rightarrow> OnIncomingNewBroadcastSms md st
      | MSG_SMS_CDMA_INCOMING_NEW_SMS \<Rightarrow> OnIncomingNewCdmaSms md st
      | MSG_SMS_CDMA_RUIM_SMS_STORAGE_FULL \<Rightarrow> OnRuimSmsStorageFull st
      | MSG_SMS_CDMA_VOICE_MSG_WAITING_INFO \<Rightarrow> OnVoiceMsgWaitingInfo md st
      | _ \<Rightarrow> sms_fail st)"

text \<open>One turn of the service with a message.\<close>

datatype sms_event =
    Request sms_msg "sms_request option"
  | Solicited sms_msg "modem_raw option"
  | Indication sms_msg "modem_raw option"

fun sms_step :: "sms_env \<Rightarrow> sms_event \<Rightarrow> sms_service \<Rightarrow> sms_result" where
  "sms_step e (Request i req) st = sms_OnHandleRequest i e req st"
| "sms_step e (Solicited i md) st = sms_OnHandleSolicitedResponse i md st"
| "sms_step e (Indication i md) st = sms_OnHandleUnsolicitedResponse i e md st"

end
