(* ===== verification/Sms_Properties.thy ===== *)
theory Sms_Properties
  imports Sms_Service
begin

text \<open>
  The properties of the short message service and of its messages: what is sent and reported, how often
  a request is answered, and where the code does not do what it means to.
\<close>

section \<open>Fields of the messages\<close>

lemma sit_message_data [simp]:
  "mr_data (sit_message tok mid body) =
     rcm_bytes (InitRequestHeader_token mid (int (RCM_HEADER_SIZE + length body)) tok) @ body"
  by (simp add: sit_message_def)

lemma field_if_id: "get_u16 (mr_data m) 2 = Some i \<Longrightarrow> uint i \<in> set ids \<Longrightarrow> field_if ids d rd m = rd (mr_data m)"
  by (cases "mr_data m") (simp_all add: field_if_def get_u16_def arr_get_out)

lemma field_if_other: "get_u16 (mr_data m) 2 = Some i \<Longrightarrow> uint i \<notin> set ids \<Longrightarrow> field_if ids d rd m = Some d"
  by (simp add: field_if_def)

lemma get_s16_bytes: "get_s16 (xs @ le16_bytes i @ ys) (length xs) = Some (sint (word_of_int i :: u16))"
  by (simp add: get_s16_def le16_bytes_def get_u16_bytes)

lemma get_s32_bytes: "get_s32 (xs @ int32_bytes i @ ys) (length xs) = Some (sint (word_of_int i :: u32))"
  by (simp add: get_s32_def int32_bytes_def get_u32_bytes)

section \<open>Broadcast configurations\<close>

text \<open>What the widths of the fields leave of a configuration.\<close>

definition bcst_norm :: "bcst_info \<Rightarrow> bcst_info" where
  "bcst_norm c = c\<lparr>fromServiceId := sint (word_of_int (fromServiceId c) :: u16),
     toServiceId := sint (word_of_int (toServiceId c) :: u16),
     fromCodeScheme := uint (word_of_int (fromCodeScheme c) :: u8),
     toCodeScheme := uint (word_of_int (toCodeScheme c) :: u8)\<rparr>"

lemma length_bcst_item [simp]: "length (bcst_item c) = 7"
  by (simp add: bcst_item_def le16_bytes_def)

lemma bcst_items_concat:
  "at = length xs \<Longrightarrow> bcst_items (xs @ concat (map bcst_item cs)) at (length cs) = Some (map bcst_norm cs)"
proof (induction cs arbitrary: xs at)
  case (Cons c cs)
  let ?rest = "concat (map bcst_item cs)" and ?a = "le16_bytes (fromServiceId c)"
    and ?b = "le16_bytes (toServiceId c)"
  let ?cd = "[word_of_int (fromCodeScheme c), word_of_int (toCodeScheme c), bcst_selected c]"
  have ih: "bcst_items ((xs @ bcst_item c) @ ?rest) (at + 7) (length cs) = Some (map bcst_norm cs)"
    using Cons.prems by (intro Cons.IH) simp
  define L where "L = xs @ ?a @ ?b @ ?cd @ ?rest"
  have norm: "bcst_norm c = \<lparr>fromServiceId = sint (word_of_int (fromServiceId c) :: u16),
      toServiceId = sint (word_of_int (toServiceId c) :: u16),
      fromCodeScheme = uint (word_of_int (fromCodeScheme c) :: u8),
      toCodeScheme = uint (word_of_int (toCodeScheme c) :: u8), bcst_selected = bcst_selected c\<rparr>"
    by (simp add: bcst_norm_def)
  have two: "length ?a = 2" "length ?b = 2" by (simp_all add: le16_bytes_def)
  have a: "get_s16 (L) at = Some (sint (word_of_int (fromServiceId c) :: u16))"
    using get_s16_bytes Cons.prems by (simp add: L_def)
  have b: "get_s16 (L) (at + 2) = Some (sint (word_of_int (toServiceId c) :: u16))"
    using get_s16_bytes [of "xs @ ?a"] two Cons.prems by (simp add: L_def)
  have cd: "arr_get (L) (at + 4 + k) = Some (?cd ! k)" if "k < 3" for k
    using that two Cons.prems by (auto simp: L_def nth_append nth_Cons' split: if_splits)
  have c0: "arr_get (L) (at + 4) = Some (?cd ! 0)" using cd [of 0] by (simp add: ac_simps)
  have c1: "arr_get (L) (at + 5) = Some (?cd ! 1)" using cd [of 1] by (simp add: ac_simps)
  have c2: "arr_get (L) (at + 6) = Some (?cd ! 2)" using cd [of 2] by (simp add: ac_simps)
  have shape: "xs @ concat (map bcst_item (c # cs)) = L"
    by (simp add: L_def bcst_item_def)
  have "(xs @ bcst_item c) @ ?rest = L" by (simp add: L_def bcst_item_def)
  then show ?case
    using ih unfolding shape by (simp add: a b [simplified] c0 c1 c2 norm)
qed simp

text \<open>
  C29. The broadcast configurations the modem is given are the ones it gives back, up to the first fifty:
  the body that \<^verbatim>\<open>SET\<close> sends is read by \<^verbatim>\<open>GET\<close> as the same items.  The service ids
  travel as signed 16-bit integers, so an id from 0x8000 on comes back negative.
\<close>

theorem broadcast_config_round_trip:
  assumes "cs \<noteq> []" and "h_id h = 0x105"
  shows "\<exists>body. BuildSetBroadcastSmsConfig tok (Some cs) (int (length cs)) =
      Some (Some (sit_message tok 0x106 body)) \<and>
    GetBcstSmsConf (md_new (rcm_bytes h @ body) tx) = Some (Some (map bcst_norm (take 50 cs)))"
proof -
  let ?n = "min (length cs) 50" and ?cs = "take 50 cs"
  have n: "nat (min (int (length cs)) 50) = ?n" "take ?n cs = ?cs" "length ?cs = ?n"
    by (simp_all add: min_def)
  have w: "unat (of_nat ?n :: u8) = ?n" by (simp add: unsigned_of_nat take_bit_nat_eq_self min_def)
  have z: "(of_nat ?n :: u8) \<noteq> 0"
  proof
    assume "(of_nat ?n :: u8) = 0"
    then have "?n = 0" using w by simp
    then show False using assms(1) by (simp add: min_def split: if_splits)
  qed
  let ?body = "of_nat ?n # concat (map bcst_item ?cs)"
  have set: "BuildSetBroadcastSmsConfig tok (Some cs) (int (length cs)) = Some (Some (sit_message tok 0x106 ?body))"
    using assms(1) n by (simp add: BuildSetBroadcastSmsConfig_def MAX_BCST_INFO_NUM_def Let_def)
  let ?raw = "rcm_bytes h @ ?body"
  have id: "get_u16 (mr_data (md_new ?raw tx)) 2 = Some 0x105"
    using assms(2) rcm_bytes_id [of h ?body] by simp
  have items: "bcst_items ?raw 13 ?n = Some (map bcst_norm ?cs)"
    using bcst_items_concat [of 13 "rcm_bytes h @ [of_nat ?n]" ?cs] n by simp
  have cnt: "arr_get ?raw 12 = Some (of_nat ?n)" by (simp add: nth_append)
  have "GetBcstSmsConf (md_new ?raw tx) = Some (Some (map bcst_norm ?cs))"
    unfolding GetBcstSmsConf_def field_if_id [OF id, of "[0x105]", simplified]
    using cnt items w z n(3)
    by (simp add: MAX_BCST_INFO_NUM_def BroadcastSmsConfigs_def Let_def del: arr_get_eq_Some)
  then show ?thesis using set by blast
qed

theorem broadcast_config_round_trip_witness:
  "\<exists>body. GetBcstSmsConf (md_new (rcm_bytes (InitRequestHeader_token 0x105 13 7) @ body) True) =
     Some (Some [bcst_norm \<lparr>fromServiceId = 0xA000, toServiceId = 0xA001, fromCodeScheme = 0,
       toCodeScheme = 255, bcst_selected = 1\<rparr>])"
proof -
  have "h_id (InitRequestHeader_token 0x105 13 7) = 0x105" by (simp add: InitRequestHeader_token_def)
  then show ?thesis
    using broadcast_config_round_trip [of "[\<lparr>fromServiceId = 0xA000, toServiceId = 0xA001,
      fromCodeScheme = 0, toCodeScheme = 255, bcst_selected = 1\<rparr>]" "InitRequestHeader_token 0x105 13 7" 7 True]
    by auto
qed


section \<open>One answer for every request\<close>

fun is_send :: "sms_call \<Rightarrow> bool" where
  "is_send (SendRequest md timeout done) = True" | "is_send c = False"

fun is_answer :: "sms_call \<Rightarrow> bool" where
  "is_answer (RequestComplete err d n) = True" | "is_answer c = False"

text \<open>A handler that returns has the result and the calls that \<open>P\<close> allows.\<close>

definition every_result :: "(int \<Rightarrow> sms_call list \<Rightarrow> sms_service \<Rightarrow> bool) \<Rightarrow> sms_result \<Rightarrow> bool" where
  "every_result P R = (case R of None \<Rightarrow> True | Some (r, cs, st) \<Rightarrow> P r cs st)"

lemma every_result_simps [simp]:
  "every_result P None"
  "every_result P (sms_fail st) = P (-1) [] st"
  "every_result P (sms_ok cs st) = P 0 cs st"
  by (simp_all add: every_result_def sms_fail_def sms_ok_def)

lemma every_result_bind [intro!]:
  "(\<And>y. x = Some y \<Longrightarrow> every_result P (f y)) \<Longrightarrow> every_result P (x \<bind> f)"
  by (cases x) simp_all

lemma every_result_D: "every_result P R \<Longrightarrow> R = Some (r, cs, st) \<Longrightarrow> P r cs st"
  by (simp add: every_result_def)

definition sends_or_fails :: "int \<Rightarrow> sms_call list \<Rightarrow> sms_service \<Rightarrow> bool" where
  "sends_or_fails r cs st \<longleftrightarrow> r = -1 \<and> cs = [] \<or> r = 0 \<and> length cs = 1 \<and> list_all is_send cs"

definition answers_once :: "int \<Rightarrow> sms_call list \<Rightarrow> sms_service \<Rightarrow> bool" where
  "answers_once r cs st \<longleftrightarrow> r = -1 \<and> cs = [] \<or>
     r = 0 \<and> length (filter is_answer cs) = 1 \<and> filter is_send cs = []"

definition answers_nothing :: "int \<Rightarrow> sms_call list \<Rightarrow> sms_service \<Rightarrow> bool" where
  "answers_nothing r cs st \<longleftrightarrow> r = -1 \<and> cs = [] \<or>
     r = 0 \<and> length cs = 1 \<and> filter is_answer cs = [] \<and> filter is_send cs = []"

lemma every_result_send [simp]:
  "every_result sends_or_fails (sms_send e md t d st)"
  by (simp add: sms_send_def every_result_def sends_or_fails_def split: option.splits)

lemma sends_or_fails_fail [simp]: "sends_or_fails (-1) [] st" by (simp add: sends_or_fails_def)

lemma answer_count_simps [simp]:
  "answers_once (-1) [] st" "answers_nothing (-1) [] st"
  "answers_once 0 cs st \<longleftrightarrow> length (filter is_answer cs) = 1 \<and> filter is_send cs = []"
  "answers_nothing 0 cs st \<longleftrightarrow> length cs = 1 \<and> filter is_answer cs = [] \<and> filter is_send cs = []"
  by (simp_all add: answers_once_def answers_nothing_def)

lemmas sms_request_handlers = DoSendSms_def DoSmsAck_def DoWriteSmsToSim_def DoDeleteSmsOnSim_def
  DoGetSmsCapacityOnSim_def DoReportSmsMemoryStatus_def DoGetBroadcastSmsConfig_def
  DoSetBroadcastSmsConfig_def DoSmsBroadcastActivation_def DoGetSmscAddress_def DoSetSmscAddress_def
  DoSmsAckWithPdu_def DoSendCdmaSms_def DoWriteCdmaSmsToRuim_def DoDeleteCdmaSmsOnRuim_def
  DoGetCdmaBroadcastSmsConfig_def DoSetCdmaBroadcastSmsConfig_def DoSmsCdmaBroadcastActivation_def
  DoSendAimsSms_def

lemmas sms_answer_handlers = sms_plain_done_def OnSendSmsDone_def OnWriteSmsToSimDone_def
  OnGetSmsCapacityOnSimDone_def OnGetBroadcastSmsConfigDone_def OnGetSmscAddressDone_def
  OnSetSmscAddressDone_def OnSendCdmaSmsDone_def OnWriteCdmaSmsToRuimDone_def
  OnGetCdmaBroadcastSmsConfigDone_def OnSendAimsSmsDone_def OnErrorRequestComplete_def

lemmas sms_indication_handlers = OnIncomingNewSms_def OnIncomingNewSmsStatusReport_def
  OnIncomingNewSmsOnSim_def OnSimSmsStorageFull_def OnIncomingNewBroadcastSms_def
  OnIncomingNewCdmaSms_def OnRuimSmsStorageFull_def OnVoiceMsgWaitingInfo_def

lemma requests_send_or_fail: "every_result sends_or_fails (sms_OnHandleRequest i e req st)"
  by (cases i) (auto simp: sms_OnHandleRequest_def sms_request_handlers Let_def
      split: option.split sms_request.split prod.split)

lemma answers_answer_once: "every_result answers_once (sms_OnHandleSolicitedResponse i md st)"
  by (cases i) (auto simp: sms_OnHandleSolicitedResponse_def sms_answer_handlers Let_def
      split: option.split prod.split)

lemma indications_answer_nothing: "every_result answers_nothing (sms_OnHandleUnsolicitedResponse i e md st)"
  by (cases i) (auto simp: sms_OnHandleUnsolicitedResponse_def sms_indication_handlers Let_def
      split: option.split prod.split)



section \<open>The invariant of the service\<close>

definition sms_inv :: "sms_service \<Rightarrow> bool" where
  "sms_inv st \<longleftrightarrow> length (s_sca st) = 12 \<and> 0 \<le> s_scaLen st \<and> s_scaLen st \<le> 12 \<and>
     s_smsclass st \<in> {0..3} \<and> s_simsms_full st \<in> {0, 1} \<and> s_nLastTpid st = g_nLastTpidNewSms st"

lemma length_copy_in: "copy_in dst i src n = Some d \<Longrightarrow> length d = length dst"
  by (auto simp: copy_in_def dest: arr_blit_length split: if_splits)

lemma SmscAddr_Init_bounds: "SmscAddr_Init md = Some (smsc, n) \<Longrightarrow> 0 \<le> n \<and> n \<le> 12"
  by (auto simp: SmscAddr_Init_def field_if_def Let_def sms_sizes bind_eq_Some_conv
      split: if_splits)

lemma GetSmsClass_range: "GetSmsClass mem p = Some (c, p') \<Longrightarrow> c \<in> {0..3}"
proof -
  have "0 \<le> x AND 3 \<and> x AND 3 \<le> 3" for x :: int
    using AND_upper2' [of 3 x] by simp
  then show "GetSmsClass mem p = Some (c, p') \<Longrightarrow> c \<in> {0..3}"
    by (auto simp: GetSmsClass_def Let_def bind_eq_Some_conv split: if_splits)
qed

lemma sms_send_inv: "sms_inv st \<Longrightarrow> every_result (\<lambda>r cs. sms_inv) (sms_send e md t d st)"
  by (simp add: sms_send_def every_result_def split: option.splits)

lemma sms_inv_class: "sms_inv st \<Longrightarrow> c \<in> {0..3} \<Longrightarrow> sms_inv (st\<lparr>s_smsclass := c\<rparr>)"
  by (simp add: sms_inv_def)

lemma request_inv: "sms_inv st \<Longrightarrow> every_result (\<lambda>r cs. sms_inv) (sms_OnHandleRequest i e req st)"
  by (cases i) (auto simp: sms_OnHandleRequest_def sms_request_handlers Let_def sms_send_inv
      split: option.split sms_request.split prod.split)

lemma answer_inv: "sms_inv st \<Longrightarrow> every_result (\<lambda>r cs. sms_inv) (sms_OnHandleSolicitedResponse i md st)"
  by (cases i) (auto simp: sms_OnHandleSolicitedResponse_def sms_answer_handlers Let_def message_classes
      sms_inv_def dest!: length_copy_in SmscAddr_Init_bounds split: option.split prod.split)

lemma indication_inv: "sms_inv st \<Longrightarrow> every_result (\<lambda>r cs. sms_inv) (sms_OnHandleUnsolicitedResponse i e md st)"
  by (cases i) (auto simp: sms_OnHandleUnsolicitedResponse_def sms_indication_handlers Let_def
      sms_inv_def dest!: GetSmsClass_range split: option.split prod.split)



end
