(* ===== verification/Sms_Faults.thy ===== *)
theory Sms_Faults
  imports Sms_Properties
begin

text \<open>
  What the short message service sends, octet for octet, and the behaviours of it that are not what the
  code means to do.
\<close>

section \<open>From the framework to the modem\<close>

definition pad :: "nat \<Rightarrow> u8 list \<Rightarrow> u8 list" where
  "pad n xs = xs @ replicate (n - length xs) 0"

text \<open>The service center that is used for a message.\<close>

definition smsc_for :: "sms_service \<Rightarrow> u8 list option \<Rightarrow> u8 list" where
  "smsc_for st c =
     (if length (smsc_octets c) \<le> 1 \<and> s_scaLen st \<noteq> 0 then take (nat (s_scaLen st)) (s_sca st)
      else if smsc_octets c = [] then [0] else smsc_octets c)"

lemma Pdu_of_hexdump:
  "length p \<le> 244 \<Longrightarrow> Pdu_of_hex (Some (hexdump p)) = Some \<lparr>mData = pad 244 p, mLen = int (length p), mHex = None\<rparr>"
  using ConvertToRaw_sized_hexdump [of p "replicate 244 0" 244]
  by (simp add: Pdu_of_hex_def Pdu_SetRawData_def Pdu_new_def sms_sizes pad_def)

lemma SmsCenter_of_hexdump:
  "length (smsc_octets c) \<le> 12 \<Longrightarrow> SmsCenter_of_hex (map_option hexdump c) =
     Some (SmsCenter_new\<lparr>sc_mAddr := pad 12 (smsc_octets c), sc_mLen := int (length (smsc_octets c))\<rparr>)"
  using ConvertToRaw_sized_hexdump [of "the c" "replicate 12 0" 12]
  by (cases c) (auto simp: SmsCenter_of_hex_def SmsCenter_new_def smsc_octets_def sms_sizes pad_def Let_def
      simp flip: replicate_Suc)

lemma copy_in_zeros:
  "length p \<le> m \<Longrightarrow> length p \<le> length q \<Longrightarrow> take (length p) q = p \<Longrightarrow>
    copy_in (replicate m 0) 0 q (int (length p)) = Some (pad m p)"
  by (simp add: copy_in_fit pad_def)

lemma take_pad [simp]: "take (length p) (pad n p) = p" "length p \<le> n \<Longrightarrow> length (pad n p) = n"
  by (simp_all add: pad_def)

lemma BuildSendSms_octets:
  assumes "p \<noteq> []" "p ! 0 \<noteq> 0" "length p \<le> 244" and "sc \<noteq> []" "length sc \<le> 12"
    and "length q \<ge> length sc" "take (length sc) q = sc"
  shows "BuildSendSms tok d (Some q) (int (length sc)) (Some (pad 244 p)) (int (length p)) expect =
    Some (Some (sit_message tok (if expect then 0x101 else 0x100)
      ([sms_domain d, of_nat (length sc)] @ pad 12 sc @ [of_nat (length p)] @ pad 244 p)))"
proof -
  have "arr_get (pad 244 p) 0 = Some (p ! 0)"
    using assms(1) by (cases p) (simp_all add: pad_def)
  then show ?thesis
    using assms copy_in_zeros [of sc 12 q] copy_in_zeros [of p 244 "pad 244 p"]
    by (simp add: BuildSendSms_def sms_sizes)
qed

lemma BuildSendSms_no_center:
  assumes "p \<noteq> []" "p ! 0 \<noteq> 0" "length p \<le> 244"
  shows "BuildSendSms tok d (Some q) 0 (Some (pad 244 p)) (int (length p)) expect =
    Some (Some (sit_message tok (if expect then 0x101 else 0x100)
      ([sms_domain d, 1] @ pad 12 [0] @ [of_nat (length p)] @ pad 244 p)))"
proof -
  have "arr_get (pad 244 p) 0 = Some (p ! 0)"
    using assms(1) by (cases p) (simp_all add: pad_def)
  then show ?thesis
    using assms copy_in_zeros [of p 244 "pad 244 p"]
    by (simp add: BuildSendSms_def sms_sizes pad_def flip: replicate_Suc)
qed



section \<open>Acknowledgements\<close>

text \<open>
  C40. An acknowledgement with a unit is always a positive one: the result is the code of a character,
  and both "0", with which the framework reports a failure, and "1" become 1 in the message.
\<close>

theorem ack_with_pdu_always_positive:
  assumes "cause \<in> {[0x30], [0x31]}" and "length p \<le> 244" and "length (t_junk e) \<ge> 244" and "t_ok e"
  shows "\<exists>a md. SmsAcknowledgePdu_encode (Some cause) (Some (hexdump p)) = Some (0, a) \<and>
    misc_DoSmsAckWithPdu e (Some (ReqAckPdu a)) st =
      Some (0, [SendRequest md SMS_DEFAULT_TIMEOUT MSG_MISC_SMS_ACKNOWLEDGE_DONE], st) \<and>
    get_s32 (mr_data md) 12 = Some 1"
proof -
  have pos: "ack_result 0x30 = 1" "ack_result 0x31 = 1" by (simp_all add: ack_result_def)
  have "\<exists>r. cause = [r] \<and> ack_result (uint r) = 1"
    using assms(1) pos by auto
  then obtain r where r: "cause = [r]" "ack_result (uint r) = 1" by blast
  let ?a = "\<lparr>ap_mResult = uint r, ap_mPdu = Some \<lparr>mData = pad 244 p, mLen = int (length p), mHex = None\<rparr>\<rparr>"
  let ?t = "word_of_int (uint (g_nLastTpidNewSms st)) :: u8"
  obtain tpdu where t: "copy_in (take 244 (t_junk e)) 0 (pad 244 p) (int (length p)) = Some tpdu"
    using assms by (simp add: copy_in_fit)
  let ?tail = "[?t, word_of_int (int (length p))] @ tpdu"
  let ?md = "sit_message (t_tok e) 0x10B (int32_bytes 1 @ ?tail)"
  have get: "get_s32 (mr_data ?md) 12 = Some 1"
    using get_s32_bytes [of "rcm_bytes h" 1 ?tail for h] by simp
  have enc: "SmsAcknowledgePdu_encode (Some cause) (Some (hexdump p)) = Some (0, ?a)"
    using r(1) assms(2) by (simp add: SmsAcknowledgePdu_encode_def Pdu_of_hexdump)
  have "misc_DoSmsAckWithPdu e (Some (ReqAckPdu ?a)) st =
      Some (0, [SendRequest ?md SMS_DEFAULT_TIMEOUT MSG_MISC_SMS_ACKNOWLEDGE_DONE], st)"
    using r(2) t assms(4) by (simp add: misc_DoSmsAckWithPdu_def BuildSmsAck_pdu_def sms_sizes sms_send_def)
  then show ?thesis using enc get by blast
qed

theorem ack_with_pdu_always_positive_witness:
  "\<exists>a md. SmsAcknowledgePdu_encode (Some [0x30]) (Some (hexdump [1])) = Some (0, a) \<and>
    misc_DoSmsAckWithPdu \<lparr>t_tok = 7, t_domain = 0, t_ok = True, t_junk = replicate 244 0\<rparr> (Some (ReqAckPdu a))
      SmsService_new = Some (0, [SendRequest md SMS_DEFAULT_TIMEOUT MSG_MISC_SMS_ACKNOWLEDGE_DONE], SmsService_new) \<and>
    get_s32 (mr_data md) 12 = Some 1"
  by (rule ack_with_pdu_always_positive) simp_all

section \<open>Messages on the SIM card\<close>

text \<open>
  The index of a new message on the SIM card never reaches the framework: the indication is read by
  an accessor that only answers for the id of the write request, so -1 is reported, with the length
  of an index.
\<close>

theorem new_sms_on_sim_index_lost:
  assumes "h_id h = 0x10E"
  shows "sms_step e (Indication MSG_SMS_INCOMING_NEW_SMS_ON_SIM (Some (md_new (rcm_bytes h @ int32_bytes i) tx))) st =
    Some (0, [Unsolicited 1005 (Integer (-1)) 4], st)"
proof -
  have id: "get_u16 (mr_data (md_new (rcm_bytes h @ int32_bytes i) tx)) 2 = Some 0x10E"
    using assms rcm_bytes_id [of h "int32_bytes i"] by simp
  let ?m = "md_new (rcm_bytes h @ int32_bytes i) tx"
  have "WriteSms_GetIndex ?m = Some (-1)"
    unfolding WriteSms_GetIndex_def by (rule field_if_other [OF id]) simp
  moreover have "WriteSms_GetIndexLen ?m = Some 4"
    unfolding WriteSms_GetIndexLen_def by (rule field_if_id [OF id]) simp
  ultimately show ?thesis
    by (simp add: sms_OnHandleUnsolicitedResponse_def OnIncomingNewSmsOnSim_def sms_ok_def)
qed

theorem new_sms_on_sim_index_lost_witness:
  "sms_step \<lparr>t_tok = 7, t_domain = 0, t_ok = True, t_junk = []\<rparr> (Indication MSG_SMS_INCOMING_NEW_SMS_ON_SIM
      (Some (md_new (rcm_bytes (InitRequestHeader_token 0x10E 16 7) @ int32_bytes 5) True))) SmsService_new =
    Some (0, [Unsolicited 1005 (Integer (-1)) 4], SmsService_new)"
  by (rule new_sms_on_sim_index_lost) (simp add: InitRequestHeader_token_def)


lemma new_sms_class:
  "OnIncomingNewSms e m st = Some (0, [SendMessage i w], st') \<Longrightarrow> s_smsclass st' = MESSAGE_CLASS_2"
  "OnIncomingNewSms e m st = Some (0, [Unsolicited u d n], st') \<Longrightarrow> s_smsclass st' \<noteq> MESSAGE_CLASS_2"
  by (auto simp: OnIncomingNewSms_def sms_fail_def sms_ok_def Let_def bind_eq_Some_conv
      split: option.splits if_splits)


definition sms_ind :: "u8 \<Rightarrow> modem_raw" where
  "sms_ind dcs = md_new [2, 0, 0x0C, 1, 19, 0, 0, 0, 7, 9, 1, 0x91, 4, 2, 0x91, 0x21, 0, dcs, 0] False"

definition write_done :: modem_raw where
  "write_done = md_new ([1, 0, 3, 1, 16, 0, 0, 0, 7, 0, 0, 0] @ int32_bytes 5) False"


section \<open>The text of a new message\<close>

lemma tpdu_loop_append:
  "tpdu_loop (xs @ ys) n buf = tpdu_loop xs n buf \<bind> (\<lambda>(n, buf). tpdu_loop ys n buf)"
  by (induction xs arbitrary: n buf) (auto split: option.split)

lemma tpdu_loop_full: "TPDU_TEXT_SIZE \<le> n \<Longrightarrow> tpdu_loop xs n buf = Some (n, buf)"
  by (induction xs) simp_all

lemma tpdu_loop_fits:
  "n = length pre \<Longrightarrow> length pre + 2 * length xs \<le> 487 \<Longrightarrow>
    tpdu_loop xs n (pre @ replicate (489 - n) 0) =
      Some (n + 2 * length xs, pre @ hexdump xs @ replicate (489 - n - 2 * length xs) 0)"
proof (induction xs arbitrary: pre n)
  case Nil
  then show ?case by (simp add: hexdump_def)
next
  case (Cons x xs)
  have put: "snprintf_at (pre @ replicate (489 - n) 0) n (TPDU_TEXT_SIZE - n - 1) (hex2 x) =
      Some (2, (pre @ hex2 x) @ replicate (489 - (n + 2)) 0)"
  proof -
    have t: "take (TPDU_TEXT_SIZE - n - 1 - 1) (hex2 x) = hex2 x" "TPDU_TEXT_SIZE - n - 1 \<noteq> 0"
      using Cons.prems by (simp_all add: TPDU_TEXT_SIZE_def sms_sizes)
    have r: "489 - n = 3 + (486 - n)" "489 - (n + 2) = Suc (486 - n)" using Cons.prems by simp_all
    show ?thesis unfolding snprintf_at_def t(1) r using t(2) Cons.prems by (simp add: replicate_add)
  qed
  have "tpdu_loop xs (n + 2) ((pre @ hex2 x) @ replicate (489 - (n + 2)) 0) =
      Some (n + 2 + 2 * length xs, (pre @ hex2 x) @ hexdump xs @ replicate (489 - (n + 2) - 2 * length xs) 0)"
    using Cons.prems by (intro Cons.IH) simp_all
  then show ?case
    using put Cons.prems by (simp add: TPDU_TEXT_SIZE_def sms_sizes hexdump_Cons)
qed

lemma tpdu_loop_last:
  assumes "length pre = 486" and "xs \<noteq> []"
  shows "tpdu_loop xs 486 (pre @ [0, 0, 0]) = Some (min (486 + 2 * length xs) 490, pre @ [hd (hex2 (hd xs)), 0, 0])"
proof -
  obtain x ys where xs: "xs = x # ys" using assms(2) by (cases xs) auto
  have "tpdu_loop xs 486 (pre @ [0, 0, 0]) = tpdu_loop ys 488 (pre @ [hd (hex2 x), 0, 0])"
    using assms(1) by (simp add: xs TPDU_TEXT_SIZE_def sms_sizes snprintf_at_def hex2_def)
  moreover have "tpdu_loop ys 488 buf = Some (min (488 + 2 * length ys) 490, buf)" for buf
    by (cases ys) (simp_all add: TPDU_TEXT_SIZE_def sms_sizes snprintf_at_def
        tpdu_loop_full [of 490, unfolded TPDU_TEXT_SIZE_def sms_sizes])
  ultimately show ?thesis by (simp add: xs)
qed

lemma tpdu_text:
  "\<exists>z. tpdu_loop xs 0 (replicate 489 0) = Some (min (2 * length xs) 490, take 487 (hexdump xs) @ 0 # z)"
proof (cases "length xs \<le> 243")
  case True
  then have "replicate (489 - 2 * length xs) 0 = 0 # replicate (488 - 2 * length xs) (0 :: u8)"
    by (simp flip: replicate_Suc)
  then show ?thesis using tpdu_loop_fits [of 0 "[]" xs] True by auto
next
  case False
  let ?a = "take 243 xs" and ?b = "drop 243 xs"
  have split: "xs = ?a @ ?b" and b: "?b \<noteq> []" using False by simp_all
  have dump: "hexdump xs = hexdump ?a @ hexdump ?b" by (subst split) (simp only: hexdump_def map_append concat_append)
  have first: "tpdu_loop ?a 0 (replicate 489 0) = Some (486, hexdump ?a @ [0, 0, 0])"
    using tpdu_loop_fits [of 0 "[]" ?a] False by (simp add: numeral_3_eq_3)
  have len: "length (hexdump ?a) = 486" using False by simp
  have one: "take 1 (hexdump ?b) = [hd (hex2 (hd ?b))]"
    using b by (cases ?b) (simp_all add: hexdump_Cons hex2_def)
  have "take 487 (hexdump xs) = hexdump ?a @ [hd (hex2 (hd ?b))]"
    unfolding dump using len one by simp
  moreover have "tpdu_loop xs 0 (replicate 489 0) =
      Some (min (486 + 2 * length ?b) 490, hexdump ?a @ [hd (hex2 (hd ?b)), 0, 0])"
    using tpdu_loop_last [OF len b] first by (subst split, subst tpdu_loop_append) simp
  moreover have "486 + 2 * length ?b = 2 * length xs" using False by simp
  ultimately show ?thesis by (metis append.assoc append_Cons append_Nil)
qed

text \<open>
  C30. The unit of a new message becomes the text of its hexadecimal digits, two for every octet.  The
  array holds one digit less than the largest unit needs: the last digit of a unit of 244 octets is
  lost, and a unit of 245 octets or more is cut there too while its reported length is 490, more than
  the array has.
\<close>

theorem new_sms_text:
  assumes "length xs < 256"
  shows "map_option (\<lambda>a. (NewSms_GetPdu a, ni_len a, ni_tpid a)) (NewSmsIndAdapter (md_new
      ([a, b] @ u16_bytes 0x10C @ [c, d, e, f, tpid, of_nat (length xs)] @ xs @ rest) tx)) =
    Some (if xs = [] then None else Some (take 487 (hexdump xs)), min (2 * length xs) 490, uint tpid)"
proof -
  let ?raw = "[a, b] @ u16_bytes 0x10C @ [c, d, e, f, tpid, of_nat (length xs)] @ xs @ rest"
  have id: "get_u16 (mr_data (md_new ?raw tx)) 2 = Some 0x10C"
    using get_u16_bytes [of "[a, b]" "0x10C"] by (simp add: numeral_2_eq_2)
  have n: "unat (of_nat (length xs) :: u8) = length xs"
    using assms by (simp add: unsigned_of_nat take_bit_nat_eq_self)
  obtain z where z: "tpdu_loop xs 0 (replicate 489 0) = Some (min (2 * length xs) 490, take 487 (hexdump xs) @ 0 # z)"
    using tpdu_text by blast
  have head: "arr_get ?raw 8 = Some tpid" "arr_get ?raw 9 = Some (of_nat (length xs))"
    by (simp_all add: u16_bytes_def)
  have body: "drop 10 ?raw = xs @ rest" "10 + length xs \<le> length ?raw" by (simp_all add: u16_bytes_def)
  have adapter: "NewSmsIndAdapter (md_new ?raw tx) =
      Some \<lparr>ni_tpdu = take 487 (hexdump xs) @ 0 # z, ni_tpid = uint tpid, ni_len = min (2 * length xs) 490\<rparr>"
  proof -
    have r: "mr_data (md_new ?raw tx) = ?raw" by simp
    have i: "uint (0x10C :: u16) \<in> set [0x10C, 0x10D]" by simp
    show ?thesis
      unfolding NewSmsIndAdapter_def field_if_id [OF id i] r head body Option.bind.bind_lunit
      using z n by (simp add: NewSms_Init_def TPDU_TEXT_SIZE_def sms_sizes)
  qed
  have "0 \<notin> set (take 487 (hexdump xs))" using hexdump_nonzero by (auto dest: in_set_takeD)
  then have cut: "cstring (take 487 (hexdump xs) @ 0 # z) = take 487 (hexdump xs)" by (rule cstring_text)
  have "(take 487 (hexdump xs) @ 0 # z) ! 0 \<noteq> 0" if "xs \<noteq> []"
    using that hex2_nonzero [of "hd xs"] by (cases xs) (auto simp: hexdump_Cons hex2_def)
  then show ?thesis unfolding adapter by (simp add: NewSms_GetPdu_def cut) (auto simp: min_def)
qed

theorem new_sms_text_witness:
  "map_option (\<lambda>a. (map_option length (NewSms_GetPdu a), ni_len a)) (NewSmsIndAdapter (md_new
      ([1, 0] @ u16_bytes 0x10C @ [0, 0, 0, 0, 7, of_nat (length (replicate 244 (1 :: u8)))] @ replicate 244 1 @ []) False)) =
    Some (Some 487, 488)"
proof -
  have "length (replicate 244 (1 :: u8)) < 256" by simp
  from new_sms_text [OF this, of 1 0 0 0 0 0 7 "[]" False] show ?thesis
    by (auto simp: map_option_case split: option.splits)
qed

end
