(* ===== verification/Modem_Io.thy ===== *)
theory Modem_Io
  imports Ril_Context Ims_Builder
begin

text \<open>
  The device side: \<^verbatim>\<open>protocol/io/iochannel.cpp\<close>, \<^verbatim>\<open>protocol/io/modemcontrol.cpp\<close>,
  \<^verbatim>\<open>rcmmgr.cpp\<close>, \<^verbatim>\<open>protocol/sit/rcmmgr_sit.cpp\<close> and
  \<^verbatim>\<open>modemstatemonitor.cpp\<close>.  The outcomes of system calls are lists the loops consume: a loop
  that has used up its list is still running, which is \<open>None\<close> for the two loops of the channel.
\<close>

definition EINTR :: int where "EINTR = 4"
definition EAGAIN :: int where "EAGAIN = 11"

definition again :: "int \<Rightarrow> bool" where "again e \<longleftrightarrow> e = EINTR \<or> e = EAGAIN"

section \<open>The channel\<close>

record io_channel =
  m_Fd :: int
  m_szIoChannelName :: "u8 list"

definition MAX_IOCHANNEL_NAME_LEN :: nat where "MAX_IOCHANNEL_NAME_LEN = 32"

definition IoChannel_new :: "u8 list option \<Rightarrow> io_channel" where
  "IoChannel_new name = \<lparr>m_Fd = -1, m_szIoChannelName =
     (case name of None \<Rightarrow> [] | Some s \<Rightarrow> take MAX_IOCHANNEL_NAME_LEN s)\<rparr>"

definition io_Init :: "io_channel \<Rightarrow> int" where
  "io_Init io = (if m_szIoChannelName io = [] then -1 else 0)"

text \<open>\<open>fd\<close> is what \<^verbatim>\<open>open\<close> returns.\<close>

definition io_Open :: "int \<Rightarrow> io_channel \<Rightarrow> int \<times> io_channel" where
  "io_Open fd io = (if fd < 0 then -1 else 0, io\<lparr>m_Fd := fd\<rparr>)"

definition io_Close :: "io_channel \<Rightarrow> io_channel" where
  "io_Close io = (if m_Fd io \<ge> 0 then io\<lparr>m_Fd := -1\<rparr> else io)"

datatype sys_read = ReadData "u8 list" | ReadFail int

text \<open>The result is the number of octets, the octets, and the error number.\<close>

fun io_read_loop :: "nat \<Rightarrow> sys_read list \<Rightarrow> (int \<times> u8 list \<times> int) option" where
  "io_read_loop cap [] = None"
| "io_read_loop cap (ReadData xs # os) =
     Some (int (length (take cap xs)), take cap xs, 0)"
| "io_read_loop cap (ReadFail e # os) = (if again e then io_read_loop cap os else Some (-1, [], e))"

definition io_Read :: "nat \<Rightarrow> sys_read list \<Rightarrow> io_channel \<Rightarrow> (int \<times> u8 list \<times> int) option" where
  "io_Read cap os io = (if m_Fd io < 0 then Some (-1, [], 0) else io_read_loop cap os)"

datatype sys_write = Wrote nat | WriteFail int

fun io_write_loop :: "u8 list \<Rightarrow> sys_write list \<Rightarrow> u8 list \<Rightarrow> (int \<times> u8 list) option" where
  "io_write_loop [] os dn = Some (0, dn)"
| "io_write_loop (x # xs) [] dn = None"
| "io_write_loop (x # xs) (Wrote k # os) dn =
     io_write_loop (drop k (x # xs)) os (dn @ take k (x # xs))"
| "io_write_loop (x # xs) (WriteFail e # os) dn =
     (if again e then io_write_loop (x # xs) os dn else Some (-1, dn))"

text \<open>The second component is what the device has taken.\<close>

definition io_Write :: "u8 list \<Rightarrow> sys_write list \<Rightarrow> io_channel \<Rightarrow> (int \<times> u8 list) option" where
  "io_Write buf os io = (if m_Fd io < 0 then Some (-1, []) else io_write_loop buf os [])"

section \<open>The state of the modem\<close>

definition STATE_OFFLINE :: int where "STATE_OFFLINE = 0"
definition STATE_CRASH_RESET :: int where "STATE_CRASH_RESET = 1"
definition STATE_CRASH_EXIT :: int where "STATE_CRASH_EXIT = 2"
definition STATE_BOOTING :: int where "STATE_BOOTING = 3"
definition STATE_ONLINE :: int where "STATE_ONLINE = 4"
definition MS_CRASH_RESET :: int where "MS_CRASH_RESET = 1"

lemmas modem_states = STATE_OFFLINE_def STATE_CRASH_RESET_def STATE_CRASH_EXIT_def STATE_BOOTING_def
  STATE_ONLINE_def MS_CRASH_RESET_def MS_CRASH_EXIT_def MS_ONLINE_def

text \<open>\<open>status\<close> is what the driver answers.\<close>

definition CheckModemStatus :: "int \<Rightarrow> int \<Rightarrow> int" where
  "CheckModemStatus fd status =
     (if fd < 0 then -1
      else if status = STATE_ONLINE then 0
      else if status = STATE_CRASH_RESET then -2
      else if status = STATE_CRASH_EXIT then -3
      else status)"

definition GetModemStatus :: "int \<Rightarrow> int \<Rightarrow> int" where
  "GetModemStatus fd status = (if fd < 0 then -1 else status)"

text \<open>A hundred looks, half a second apart; \<open>f k\<close> is the answer to the look \<open>k\<close>.\<close>

fun boot_done :: "nat \<Rightarrow> nat \<Rightarrow> (nat \<Rightarrow> int) \<Rightarrow> bool" where
  "boot_done 0 k f = False"
| "boot_done (Suc spin) k f = (if f k = STATE_ONLINE then True else boot_done spin (k + 1) f)"

definition WaitingForBootDone :: "int \<Rightarrow> (nat \<Rightarrow> int) \<Rightarrow> int" where
  "WaitingForBootDone fd f = (if fd < 0 then -1 else if boot_done 100 0 f then 0 else -1)"

section \<open>The reader\<close>

definition MAX_READ_BUF_SIZE :: nat where "MAX_READ_BUF_SIZE = 64 * 1024 + 32"
definition FD_SETSIZE :: int where "FD_SETSIZE = 1024"
definition RCM_CATEGORY :: nat where "RCM_CATEGORY = 17"
definition RCM_ID :: nat where "RCM_ID = 255"
definition LOG_BUFFER_SIZE :: nat where "LOG_BUFFER_SIZE = 1024"

text \<open>
  \<open>DumpData\<close> writes a message to the log: what it returns, and the octets it reads.  \<open>mem\<close> is the
  object the pointer refers to, which may be longer than the message.
\<close>

definition dump_category :: "u16 \<Rightarrow> nat" where
  "dump_category i = (let c = unat (drop_bit 8 i) in if c \<ge> 0x40 then 9 else c)"

definition DumpData :: "int \<Rightarrow> u8 list \<Rightarrow> int option" where
  "DumpData printSimIo mem = do {
     len \<leftarrow> get_u16 mem 4;
     t \<leftarrow> arr_get mem 0;
     i \<leftarrow> get_u16 mem 2;
     tok \<leftarrow> get_u32 mem 6;
     err \<leftarrow> arr_get mem 10;
     let cat = dump_category i;
     let num = unat (i AND 0xFF);
     let sim_io = (cat = 2 \<and> num = 8);
     (if cat \<ge> RCM_CATEGORY then Some (-1)
      else if num \<ge> RCM_ID then Some (-1)
      else if printSimIo = 0 \<and> sim_io then Some 0
      else if t \<noteq> RCM_TYPE_RESPONSE \<and> t \<noteq> RCM_TYPE_INDICATION \<and> t \<noteq> RCM_TYPE_REQUEST then Some (-1)
      else if printSimIo \<noteq> 2 \<and> sim_io then Some 0
      else if (if unat len > LOG_BUFFER_SIZE then 32 else unat len) \<le> length mem then Some 0
      else None) }"

record rcm_mgr =
  m_pIo :: io_channel
  mCrashExit :: bool
  m_nPrintSimIo :: int

definition RcmMgr_new :: "io_channel \<Rightarrow> rcm_mgr" where
  "RcmMgr_new io = \<lparr>m_pIo = io, mCrashExit = False, m_nPrintSimIo = 0\<rparr>"

definition StopRcmMonitoring_flag :: "rcm_mgr \<Rightarrow> rcm_mgr" where
  "StopRcmMonitoring_flag m = m\<lparr>mCrashExit := True\<rparr>"

text \<open>What the system does during one turn of the loop.\<close>

record reader_env =
  r_select :: int
  r_isset :: bool
  r_status :: int
  r_reads :: "sys_read list"
  r_reopen :: int

datatype reader_turn =
    Waiting
  | Faults
  | Turns "u8 list option" rcm_mgr
  | Stops rcm_mgr

definition read_buffer :: "u8 list \<Rightarrow> u8 list" where
  "read_buffer xs = xs @ replicate (MAX_READ_BUF_SIZE - length xs) 0"

definition rcm_turn :: "reader_env \<Rightarrow> rcm_mgr \<Rightarrow> reader_turn" where
  "rcm_turn v m =
     (let io = m_pIo m; fd = m_Fd io in
      if mCrashExit m then Stops (m\<lparr>m_pIo := io_Close io\<rparr>)
      else if fd < 0 \<or> fd \<ge> FD_SETSIZE then Faults
      else if r_select v > 0 then
        (if r_isset v then
           (if CheckModemStatus fd (r_status v) < 0 then Turns None m
            else case io_Read MAX_READ_BUF_SIZE (r_reads v) io of
              None \<Rightarrow> Waiting
            | Some (n, xs, err) \<Rightarrow>
                if n \<le> 0 then
                  (if n < 0 \<and> again err then Turns None m
                   else Turns None (m\<lparr>m_pIo := snd (io_Open (r_reopen v) (io_Close io))\<rparr>))
                else case DumpData (m_nPrintSimIo m) (read_buffer xs) of
                  None \<Rightarrow> Faults
                | Some _ \<Rightarrow> Turns (Some xs) m)
         else Turns None m)
      else if r_select v = 0 then Stops (m\<lparr>m_pIo := io_Close io\<rparr>)
      else Turns None m)"

text \<open>What the turns hand to \<open>ProcessModemData\<close>, in their order.\<close>

fun rcm_run :: "reader_env list \<Rightarrow> rcm_mgr \<Rightarrow> (u8 list list \<times> rcm_mgr) option" where
  "rcm_run [] m = Some ([], m)"
| "rcm_run (v # vs) m =
     (case rcm_turn v m of
        Waiting \<Rightarrow> Some ([], m)
      | Faults \<Rightarrow> None
      | Stops m \<Rightarrow> Some ([], m)
      | Turns d m \<Rightarrow> do {
          (ds, m) \<leftarrow> rcm_run vs m;
          Some ((case d of None \<Rightarrow> ds | Some xs \<Rightarrow> xs # ds), m) })"

text \<open>Writing: the dump comes first, and its result does not matter.\<close>

definition rcm_Write :: "u8 list \<Rightarrow> sys_write list \<Rightarrow> rcm_mgr \<Rightarrow> (int \<times> u8 list) option option" where
  "rcm_Write buf os m =
     (case DumpData (m_nPrintSimIo m) buf of None \<Rightarrow> None | Some _ \<Rightarrow> Some (io_Write buf os (m_pIo m)))"

section \<open>The monitor of the modem\<close>

record monitor =
  mon_mState :: int
  mon_mFd :: int

definition ModemStateMonitor_new :: monitor where
  "ModemStateMonitor_new = \<lparr>mon_mState = -1, mon_mFd = -1\<rparr>"

definition CRASH_MODE_DUMP_SILENT_RESET :: int where "CRASH_MODE_DUMP_SILENT_RESET = 1"
definition CRASH_MODE_SILENT_RESET :: int where "CRASH_MODE_SILENT_RESET = 2"

text \<open>
  The loop that waits for the end of booting: the state and the reports; \<open>f k\<close> is the answer to the
  look \<open>k\<close>.
\<close>

fun boot_loop :: "nat \<Rightarrow> nat \<Rightarrow> (nat \<Rightarrow> int) \<Rightarrow> int \<Rightarrow> int \<times> int list" where
  "boot_loop 0 k f st = (st, [])"
| "boot_loop (Suc spin) k f st = (if f k = STATE_ONLINE then (f k, [MS_ONLINE]) else boot_loop spin (k + 1) f (f k))"

definition PollModemState :: "int \<Rightarrow> (nat \<Rightarrow> int) \<Rightarrow> monitor \<Rightarrow> int list \<times> monitor" where
  "PollModemState mode f s =
     (let look = (\<lambda>k. GetModemStatus (mon_mFd s) (f k)); old = mon_mState s; st = look 0;
          s = s\<lparr>mon_mState := st\<rparr> in
      if st = old then ([], s)
      else if st = STATE_CRASH_RESET then ([MS_CRASH_RESET], s)
      else if st = STATE_CRASH_EXIT then
        ([if mode = CRASH_MODE_DUMP_SILENT_RESET \<or> mode = CRASH_MODE_SILENT_RESET then MS_CRASH_RESET
          else MS_CRASH_EXIT], s)
      else if st = STATE_OFFLINE \<or> st = STATE_BOOTING then
        (let (st', rs) = boot_loop 300 1 look st in (st # rs, s\<lparr>mon_mState := st'\<rparr>))
      else if st = STATE_ONLINE then ([MS_ONLINE], s)
      else ([], s))"

definition NextMonitorInterval :: "int \<Rightarrow> int" where
  "NextMonitorInterval st = (if st < 0 then 0 else if st = STATE_ONLINE then -1 else 3000)"

text \<open>One turn of the monitor: \<open>ret\<close> and \<open>event\<close> are the outcome of \<^verbatim>\<open>poll\<close>.\<close>

definition monitor_turn :: "int \<Rightarrow> bool \<Rightarrow> int \<Rightarrow> (nat \<Rightarrow> int) \<Rightarrow> monitor \<Rightarrow> int list \<times> monitor" where
  "monitor_turn ret event mode f s =
     (if mon_mState s < 0 \<or> ret = 0 \<or> ret > 0 \<and> event then PollModemState mode f s else ([], s))"

definition ResetModem :: "int list" where "ResetModem = [MS_CRASH_RESET]"

text \<open>\<^verbatim>\<open>RilApplication::OnModemStateChanged\<close> for one context and a list of reports; every report
  takes two fresh addresses for its broadcasts.\<close>

fun app_OnModemStateChanged :: "env \<Rightarrow> (nat \<Rightarrow> addr) \<Rightarrow> nat \<Rightarrow> int list \<Rightarrow> rilctx \<Rightarrow> rilctx" where
  "app_OnModemStateChanged e al k [] cx = cx"
| "app_OnModemStateChanged e al k (r # rs) cx =
     app_OnModemStateChanged e al (k + 2) rs (cx_OnModemStateChanged e (al k) (al (k + 1)) r cx)"

section \<open>The channel writes everything, in order\<close>

lemma io_write_loop_sound:
  "io_write_loop buf os dn = Some (r, out) \<Longrightarrow>
     r = 0 \<and> out = dn @ buf \<or> r = -1 \<and> (\<exists>rest. rest \<noteq> [] \<and> dn @ buf = out @ rest)"
proof (induction buf os dn rule: io_write_loop.induct)
  case (3 x xs k os dn)
  then have "r = 0 \<and> out = (dn @ take k (x # xs)) @ drop k (x # xs) \<or>
      r = -1 \<and> (\<exists>rest. rest \<noteq> [] \<and> (dn @ take k (x # xs)) @ drop k (x # xs) = out @ rest)" by simp
  then show ?case unfolding append_assoc append_take_drop_id .
qed (auto split: if_splits)

fun progress :: "sys_write list \<Rightarrow> nat" where
  "progress [] = 0" | "progress (Wrote k # os) = k + progress os" | "progress (WriteFail e # os) = progress os"

definition patient :: "sys_write list \<Rightarrow> bool" where
  "patient os \<longleftrightarrow> list_all (\<lambda>w. case w of Wrote k \<Rightarrow> True | WriteFail e \<Rightarrow> again e) os"

lemma io_write_loop_returns:
  "patient os \<Longrightarrow> length buf \<le> progress os \<Longrightarrow> \<exists>out. io_write_loop buf os dn = Some (0, out)"
  by (induction buf os dn rule: io_write_loop.induct) (auto simp: patient_def)

text \<open>
  C9. A write that returns zero has given the device every octet of the message, in order, however the
  system splits and interrupts it; one that returns -1 has given it a proper prefix.  As long as
  the system makes progress and only asks to try again, the write does return, with zero.
\<close>

theorem io_write_complete:
  assumes "0 \<le> m_Fd io"
  shows "(\<forall>r out. io_Write buf os io = Some (r, out) \<longrightarrow>
      r = 0 \<and> out = buf \<or> r = -1 \<and> (\<exists>rest. rest \<noteq> [] \<and> buf = out @ rest)) \<and>
    (patient os \<and> length buf \<le> progress os \<longrightarrow> io_Write buf os io = Some (0, buf))"
proof -
  have w: "io_Write buf os io = io_write_loop buf os []" using assms by (simp add: io_Write_def)
  show ?thesis
    unfolding w using io_write_loop_sound [of buf os "[]"] io_write_loop_returns [of os buf "[]"]
    by (metis append_Nil one_neq_zero zero_neq_neg_one)
qed

theorem io_write_complete_witness:
  "io_Write [1, 2, 3] [WriteFail EINTR, Wrote 2, Wrote 0, WriteFail EAGAIN, Wrote 9] \<lparr>m_Fd = 5, m_szIoChannelName = [1]\<rparr> =
    Some (0, [1, 2, 3])"
  using io_write_complete [of "\<lparr>m_Fd = 5, m_szIoChannelName = [1]\<rparr>" "[1, 2, 3]"
      "[WriteFail EINTR, Wrote 2, Wrote 0, WriteFail EAGAIN, Wrote 9]"]
  by (simp add: patient_def again_def)

section \<open>The reader delivers what it reads\<close>

lemma dump_reads_buffer:
  assumes "length mem = MAX_READ_BUF_SIZE"
  shows "DumpData p mem \<noteq> None"
proof -
  have big: "length mem = 65568" using assms by (simp add: MAX_READ_BUF_SIZE_def)
  have u16: "get_u16 mem i \<noteq> None" if "i < 20" for i using that big by (simp add: get_u16_def)
  have u32: "get_u32 mem 6 \<noteq> None" using big by (simp add: get_u32_def)
  have g: "arr_get mem i \<noteq> None" if "i < 20" for i using that big by simp
  obtain len t i tok err where *: "get_u16 mem 4 = Some len" "arr_get mem 0 = Some t" "get_u16 mem 2 = Some i"
    "get_u32 mem 6 = Some tok" "arr_get mem 10 = Some err"
    using u16 [of 4] u16 [of 2] u32 g [of 0] g [of 10] by auto
  have "(if unat len > LOG_BUFFER_SIZE then 32 else unat len) \<le> length mem"
    using big by (simp add: LOG_BUFFER_SIZE_def)
  then show ?thesis unfolding DumpData_def * Option.bind.bind_lunit Let_def by simp
qed

text \<open>What a turn hears from the device, and whether the loop goes on.\<close>

definition heard :: "reader_env \<Rightarrow> u8 list list" where
  "heard v = (if r_select v > 0 \<and> r_isset v \<and> r_status v \<notin> {STATE_CRASH_RESET, STATE_CRASH_EXIT} \<and> 0 \<le> r_status v
     then (case io_read_loop MAX_READ_BUF_SIZE (r_reads v) of
             Some (n, xs, err) \<Rightarrow> if xs = [] then [] else [xs] | None \<Rightarrow> []) else [])"

definition goes_on :: "reader_env \<Rightarrow> bool" where
  "goes_on v \<longleftrightarrow> r_select v \<noteq> 0 \<and> io_read_loop MAX_READ_BUF_SIZE (r_reads v) \<noteq> None"

lemma io_read_loop_result:
  "io_read_loop cap os = Some (n, xs, err) \<Longrightarrow>
    length xs \<le> cap \<and> (n = int (length xs) \<and> err = 0 \<or> n = -1 \<and> xs = [] \<and> \<not> again err)"
  by (induction cap os rule: io_read_loop.induct) (auto split: if_splits)

lemma rcm_turn_hears:
  assumes "goes_on v" and "0 \<le> r_reopen v" "r_reopen v < FD_SETSIZE" and "\<not> mCrashExit m"
    and "0 \<le> m_Fd (m_pIo m)" "m_Fd (m_pIo m) < FD_SETSIZE"
  shows "\<exists>d m'. rcm_turn v m = Turns d m' \<and> heard v = (case d of None \<Rightarrow> [] | Some xs \<Rightarrow> [xs]) \<and>
    \<not> mCrashExit m' \<and> 0 \<le> m_Fd (m_pIo m') \<and> m_Fd (m_pIo m') < FD_SETSIZE"
proof -
  obtain n xs err where r: "io_read_loop MAX_READ_BUF_SIZE (r_reads v) = Some (n, xs, err)"
    using assms(1) by (auto simp: goes_on_def)
  note res = io_read_loop_result [OF r]
  have "length (read_buffer xs) = MAX_READ_BUF_SIZE" using res by (simp add: read_buffer_def)
  then obtain d where d: "DumpData (m_nPrintSimIo m) (read_buffer xs) = Some d"
    using dump_reads_buffer by blast
  have st: "CheckModemStatus (m_Fd (m_pIo m)) (r_status v) < 0 \<longleftrightarrow>
      r_status v \<in> {STATE_CRASH_RESET, STATE_CRASH_EXIT} \<or> r_status v < 0"
    using assms(5) by (auto simp: CheckModemStatus_def modem_states)
  show ?thesis
    using assms r res d
    by (auto simp: rcm_turn_def st heard_def goes_on_def io_Read_def io_Open_def Let_def)
qed

text \<open>
  C8. As long as the device can be opened again after an error, the reader does not fault, and the
  context is given what the device sent, message by message, in order, nothing lost and nothing twice:
  every nonempty read while the modem has not crashed.
\<close>

theorem reader_delivers_in_order:
  assumes "list_all goes_on vs" and "\<forall>v \<in> set vs. 0 \<le> r_reopen v \<and> r_reopen v < FD_SETSIZE"
    and "\<not> mCrashExit m" and "0 \<le> m_Fd (m_pIo m)" "m_Fd (m_pIo m) < FD_SETSIZE"
  shows "map_option fst (rcm_run vs m) = Some (concat (map heard vs))"
  using assms
proof (induction vs arbitrary: m)
  case (Cons v vs)
  obtain d m' where t: "rcm_turn v m = Turns d m'" "heard v = (case d of None \<Rightarrow> [] | Some xs \<Rightarrow> [xs])"
    "\<not> mCrashExit m'" "0 \<le> m_Fd (m_pIo m')" "m_Fd (m_pIo m') < FD_SETSIZE"
    using rcm_turn_hears [of v m] Cons.prems by auto
  obtain m2 where "rcm_run vs m' = Some (concat (map heard vs), m2)"
    using Cons.IH [of m'] Cons.prems t by auto
  then show ?case using t(1,2) by (simp split: option.split)
qed simp

definition reader_demo :: "sys_read \<Rightarrow> reader_env" where
  "reader_demo r = \<lparr>r_select = 1, r_isset = True, r_status = STATE_ONLINE, r_reads = [ReadFail EINTR, r], r_reopen = 6\<rparr>"

theorem reader_delivers_in_order_witness:
  "map_option fst (rcm_run [reader_demo (ReadData [1, 2]), reader_demo (ReadFail 5), reader_demo (ReadData [3])]
     \<lparr>m_pIo = \<lparr>m_Fd = 5, m_szIoChannelName = [1]\<rparr>, mCrashExit = False, m_nPrintSimIo = 1\<rparr>) = Some [[1, 2], [3]]"
  using reader_delivers_in_order [of "[reader_demo (ReadData [1, 2]), reader_demo (ReadFail 5), reader_demo (ReadData [3])]"
      "\<lparr>m_pIo = \<lparr>m_Fd = 5, m_szIoChannelName = [1]\<rparr>, mCrashExit = False, m_nPrintSimIo = 1\<rparr>"]
  by (simp add: goes_on_def reader_demo_def again_def EINTR_def EAGAIN_def FD_SETSIZE_def heard_def
      modem_states MAX_READ_BUF_SIZE_def)

text \<open>If the device cannot be opened again, the next turn puts the file descriptor -1 into the set.\<close>

theorem reader_reopen_fault:
  assumes "rcm_turn v m = Turns d m'" and "m_pIo m' \<noteq> m_pIo m" and "r_reopen v < 0"
  shows "rcm_turn v' m' = Faults"
proof -
  have "m_Fd (m_pIo m') = r_reopen v \<and> mCrashExit m' = mCrashExit m \<and> \<not> mCrashExit m"
    using assms(1,2)
    by (auto simp: rcm_turn_def io_Open_def io_Close_def Let_def split: if_splits option.splits)
  then show ?thesis using assms(3) by (simp add: rcm_turn_def Let_def)
qed

text \<open>
  C33. A message that comes from the reader is always dumped inside its buffer; an indication without a
  payload that goes to the modem is eight octets long, but the dump reads the token and the error of a
  longer header, behind the end of the message.
\<close>

theorem indication_dump_reads_behind:
  "(length xs \<le> MAX_READ_BUF_SIZE \<longrightarrow> DumpData p (read_buffer xs) \<noteq> None) \<and>
   (BuildAimsIndPDU rid None = Some md \<longrightarrow> rcm_Write (mr_data md) os m = None)"
proof -
  have "rcm_Write (mr_data md) os m = None" if "BuildAimsIndPDU rid None = Some md"
  proof -
    have "length (mr_data md) = 8"
      using that by (auto simp: BuildAimsIndPDU_def rcm_ind_bytes_def u16_bytes_def split: if_splits option.splits)
    then have "get_u32 (mr_data md) 6 = None" by (simp add: get_u32_def arr_get_out)
    then have "DumpData (m_nPrintSimIo m) (mr_data md) = None" by (auto simp: DumpData_def bind_eq_None_conv)
    then show ?thesis by (simp add: rcm_Write_def)
  qed
  moreover have "DumpData p (read_buffer xs) \<noteq> None" if "length xs \<le> MAX_READ_BUF_SIZE"
    by (rule dump_reads_buffer) (use that in \<open>simp add: read_buffer_def\<close>)
  ultimately show ?thesis by blast
qed

theorem indication_dump_reads_behind_witness:
  "\<exists>md. BuildAimsIndPDU 10181 None = Some md \<and> rcm_Write (mr_data md) [] (RcmMgr_new (IoChannel_new None)) = None"
proof -
  obtain md where md: "BuildAimsIndPDU 10181 None = Some md"
    by (simp add: BuildAimsIndPDU_def aims_ind_map_def MAX_IMS_RCM_SIZE_def)
  then show ?thesis using indication_dump_reads_behind [of "[]" 0 10181 md "[]" "RcmMgr_new (IoChannel_new None)"] by blast
qed

section \<open>The monitor\<close>

lemma boot_loop_never:
  "(\<And>i. i < spin \<Longrightarrow> f (k + i) \<noteq> STATE_ONLINE) \<Longrightarrow>
    boot_loop spin k f st = (if spin = 0 then st else f (k + spin - 1), [])"
proof (induction spin arbitrary: k st)
  case (Suc spin)
  have "f k \<noteq> STATE_ONLINE" using Suc.prems [of 0] by simp
  moreover have "boot_loop spin (k + 1) f (f k) = (if spin = 0 then f k else f (k + 1 + spin - 1), [])"
    using Suc.prems [of "Suc i" for i] by (intro Suc.IH) simp
  ultimately show ?case by simp
qed simp

lemma broadcast_modem [simp]: "cx_modem (BroadcastSystemMessage e a mid d cx) = cx_modem cx"
  by (simp add: BroadcastSystemMessage_def mgr_BroadcastMessage_def)

lemma report_modem [simp]: "cx_modem (cx_OnModemStateChanged e a b r cx) = r"
  by (auto simp: cx_OnModemStateChanged_def cx_emit_def Let_def)

lemma app_modem: "rs \<noteq> [] \<Longrightarrow> cx_modem (app_OnModemStateChanged e al k rs cx) = last rs"
proof (induction rs arbitrary: k cx)
  case (Cons r rs)
  show ?case using Cons.IH [of "k + 2"] by (cases rs) auto
qed simp

lemma poll_same: "0 \<le> mon_mFd s \<Longrightarrow> g 0 = mon_mState s \<Longrightarrow> PollModemState mode g s = ([], s)"
  by (simp add: PollModemState_def GetModemStatus_def Let_def)

lemma poll_boot:
  assumes "0 \<le> mon_mFd s" and "mon_mState s \<noteq> STATE_BOOTING" and "f 0 = STATE_BOOTING"
    and "\<And>k. 0 < k \<Longrightarrow> k \<le> 300 \<Longrightarrow> f k \<noteq> STATE_ONLINE"
  shows "PollModemState mode f s = ([STATE_BOOTING], s\<lparr>mon_mState := f 300\<rparr>)"
proof -
  have "boot_loop 300 1 f STATE_BOOTING = (f 300, [])"
    using assms(4) boot_loop_never [of 300 f 1 STATE_BOOTING] by simp
  then show ?thesis
    using assms(1-3) by (simp add: PollModemState_def GetModemStatus_def Let_def modem_states)
qed



end
