(* ===== verification/Stk_Tlv.thy ===== *)
theory Stk_Tlv
  imports Hex_Text
begin

text \<open>
  \<^verbatim>\<open>stk/tlv.cpp\<close>, \<^verbatim>\<open>stk/tlvparser.cpp\<close>, \<^verbatim>\<open>stk/ber.cpp\<close> and
  \<^verbatim>\<open>stk/comprehension.cpp\<close>: the objects of SIM toolkit commands.  The outer \<open>None\<close> is a
  read outside the octets of the command, or an allocation of a negative size.  The other faults of the
  code, which overrun small objects of its own, are collected in a list, and the value beside the list is
  the one the code goes on with.  \<open>junk\<close> and \<open>hi8\<close> are memory that was never written.
\<close>

datatype stk_fault = HeapOverflow | ObjectOverflow | Overread | NullString | DoubleFree

section \<open>One object\<close>

text \<open>The classes derived from \<^verbatim>\<open>CTLV\<close>, by their tags.\<close>

datatype tlv_kind =
    KTlv | KAddress | KSubaddress | KCommandDetail | KDeviceIdentity | KDuration | KResult
  | KAlphaIdentifier | KIconIdentifier | KTextString | KBearerDescription | KChannelData
  | KChannelDataLength | KChannelStatus | KBufferSize | KTransportLevel | KOtherAddress
  | KNetworkAccessName | KMeasurementQualifier | KTextAttribute | KFrameIdentifier
  | KRemoteEntityAddress | KEventList

text \<open>What a class keeps of its value.\<close>

datatype tlv_body =
    BNone
  | BOctets "u8 list"
  | BText "u8 list"
  | BInt int
  | BResult "u8 list" "u8 list"
  | BTextString u8 "u8 list"
  | BBearer "u8 list" "u8 list"
  | BTransport u8 int

text \<open>\<open>t_raw\<close> tells whether the cached raw data is set.\<close>

record ctlv =
  t_kind :: tlv_kind
  t_cTag :: u8
  t_nLength :: int
  t_pValue :: "u8 list option"
  t_raw :: bool
  t_body :: tlv_body

definition CTLV_new :: "tlv_kind \<Rightarrow> ctlv" where
  "CTLV_new k = \<lparr>t_kind = k, t_cTag = 0, t_nLength = 0, t_pValue = None, t_raw = False, t_body = BNone\<rparr>"

definition TLV_TAG_MASK :: u8 where "TLV_TAG_MASK = 0x7F"

definition CTLV_GetTag :: "ctlv \<Rightarrow> u8" where "CTLV_GetTag t = t_cTag t AND TLV_TAG_MASK"

definition CTLV_Initialize :: "ctlv \<Rightarrow> ctlv" where
  "CTLV_Initialize t = CTLV_new (t_kind t)"

text \<open>
  The length field: its value and the number of octets of tag and length; the inner \<open>None\<close> is a wrong
  length.  Two octets are taken with the low one first, and the fourth of three is not set.
\<close>

definition tlv_length :: "u8 \<Rightarrow> u8 list \<Rightarrow> int \<Rightarrow> (int \<times> nat) option option" where
  "tlv_length hi8 xs n = do {
     x \<leftarrow> arr_get xs 1;
     (if n > 1 \<and> x < 0x80 then Some (Some (uint x, 2))
      else if n > 2 \<and> x = 0x81 then do { a \<leftarrow> arr_get xs 2; Some (Some (uint a, 3)) }
      else if n > 3 \<and> x = 0x82 then do {
        a \<leftarrow> arr_get xs 2; b \<leftarrow> arr_get xs 3;
        Some (Some (sint (word_of_int (uint a + 256 * uint b) :: u16), 4)) }
      else if n > 4 \<and> x = 0x83 then do {
        a \<leftarrow> arr_get xs 2; b \<leftarrow> arr_get xs 3; c \<leftarrow> arr_get xs 4;
        Some (Some (sint (word_of_int (uint a + 256 * uint b + 65536 * uint c + 16777216 * uint hi8) :: u32), 5)) }
      else Some None) }"

text \<open>The object, and the offset of the next one.  \<open>xs\<close> is the memory from the pointer on.\<close>

definition CTLV_Set :: "u8 \<Rightarrow> u8 list \<Rightarrow> int \<Rightarrow> ctlv \<Rightarrow> (ctlv \<times> nat option) option" where
  "CTLV_Set hi8 xs n t =
     (if n = 0 then Some (t, None)
      else let t0 = CTLV_Initialize t in do {
        x \<leftarrow> arr_get xs 0;
        (if n = 1 then Some (t0, None)
         else if n = 3 \<and> x = 0x7F then do { _ \<leftarrow> arr_get xs 1; _ \<leftarrow> arr_get xs 2; Some (t0, None) }
         else do {
           lo \<leftarrow> tlv_length hi8 xs n;
           (case lo of
              None \<Rightarrow> Some (t0, None)
            | Some (len, off) \<Rightarrow>
                let t1 = t0\<lparr>t_cTag := x\<rparr> in
                if n = 2 then Some (t1, None)
                else if n - int off \<ge> len then
                  (if len < 0 \<or> off + nat len > length xs then None
                   else Some (t1\<lparr>t_nLength := len, t_pValue := Some (take (nat len) (drop off xs))\<rparr>,
                              if n - int (off + nat len) > 0 then Some (off + nat len) else None))
                else Some (t1, None)) }) })"

text \<open>\<open>Set\<close> with a tag and a value; without a value the object is left as it is.\<close>

definition CTLV_Set_value :: "u8 \<Rightarrow> u8 list option \<Rightarrow> ctlv \<Rightarrow> ctlv" where
  "CTLV_Set_value tag v t =
     (case v of
        None \<Rightarrow> t
      | Some [] \<Rightarrow> t
      | Some xs \<Rightarrow> t\<lparr>t_cTag := tag, t_nLength := int (length xs), t_pValue := Some xs\<rparr>)"

text \<open>The low \<open>n\<close> octets of an \<^verbatim>\<open>int\<close>.\<close>

definition int_octets :: "nat \<Rightarrow> int \<Rightarrow> u8 list" where
  "int_octets n i = map (\<lambda>k. word_of_int (drop_bit (8 * k) i)) [0..<n]"

definition raw_length :: "int \<Rightarrow> u8 list" where
  "raw_length n =
     (if n < 128 then [word_of_int n]
      else if n \<le> 255 then [0x81, word_of_int n]
      else if n \<le> 65535 then 0x82 # int_octets 2 n
      else 0x83 # int_octets 3 n)"

text \<open>
  \<open>GetRawData\<close>: the octets that are written, and the object with its cache.  The allocation has one octet
  less than the value, so that a value of two octets or more overruns it.
\<close>

definition CTLV_GetRawData :: "ctlv \<Rightarrow> u8 list option \<times> stk_fault list \<times> ctlv" where
  "CTLV_GetRawData t =
     (case t_pValue t of
        None \<Rightarrow> (None, [], t)
      | Some v \<Rightarrow>
          if t_nLength t \<le> 0 then (None, [], t)
          else if t_nLength t = 1 then (Some [t_cTag t, 1, hd v], [], t)
          else if t_nLength t = 3 \<and> hd v = 0x7F then (None, [], t)
          else let out = t_cTag t # raw_length (t_nLength t) @ v in
            (Some out, if int (length out) > t_nLength t - 1 then [HeapOverflow] else [], t\<lparr>t_raw := True\<rparr>))"

definition CTLV_GetRawDataLength :: "ctlv \<Rightarrow> int" where
  "CTLV_GetRawDataLength t =
     (if t_nLength t > 0
      then (if t_nLength t < 128 then 1 else if t_nLength t \<le> 255 then 2
            else if t_nLength t \<le> 65535 then 3 else 4) + 1 + t_nLength t
      else 0)"

text \<open>
  Destruction: the raw data a container has freed is freed again, and so is a value that a member
  points to.
\<close>

definition tlv_Finalize :: "ctlv \<Rightarrow> stk_fault list" where
  "tlv_Finalize t =
     (if t_raw t then [DoubleFree] else []) @
     (if t_kind t \<in> {KAddress, KSubaddress, KRemoteEntityAddress} \<and> t_body t \<noteq> BNone then [DoubleFree] else [])"

section \<open>The classes\<close>

text \<open>
  The labels of a network access name.  A label that is longer than what is left is skipped octet by
  octet, without a look at the end of the value.
\<close>

definition copy_label :: "u8 list \<Rightarrow> nat \<Rightarrow> nat \<Rightarrow> u8 list option" where
  "copy_label v i n =
     (let s = take n (drop i v) in
      if length s = n then Some (cstring s @ replicate (n - length (cstring s)) 0)
      else if 0 \<in> set s then Some (cstring s @ replicate (n - length (cstring s)) 0)
      else None)"

function apn_loop :: "u8 list \<Rightarrow> nat \<Rightarrow> int \<Rightarrow> u8 list \<Rightarrow> u8 list option" where
  "apn_loop v i len out =
     (if len \<le> 1 then Some out
      else if i \<ge> length v then None
      else
        (let n = unat (v ! i) in
         if int n < len then
           (case copy_label v (i + 1) n of
              None \<Rightarrow> None
            | Some s \<Rightarrow>
                let len' = len - (int n + 1) in
                if len' > 1 then apn_loop v (i + 1 + n) len' (out @ s @ [0x2E]) else Some (out @ s))
         else apn_loop v (i + 1) len out))"
  by pat_completeness auto
termination by (relation "measure (\<lambda>(v, i, len, out). length v - i)") auto

definition NetworkAccessNameParser :: "u8 list \<Rightarrow> u8 list option" where
  "NetworkAccessNameParser v = map_option cstring (apn_loop v 0 (int (length v)) [])"

definition REMOTE_ENTITY_ADDRESS_SIZE :: nat where "REMOTE_ENTITY_ADDRESS_SIZE = 9"

text \<open>
  What the \<^verbatim>\<open>Set\<close> of each class makes of the value \<open>v\<close> that \<^verbatim>\<open>CTLV::Set\<close> has stored:
  its own members, and the faults on the way.
\<close>

type_synonym tlv_result = "tlv_body \<times> stk_fault list"

definition first_octets :: "nat \<Rightarrow> u8 list \<Rightarrow> tlv_result" where
  "first_octets k v = (BOctets (if length v \<ge> k then take k v else replicate k 0), [])"

definition first_octet :: "u8 list \<Rightarrow> tlv_result" where
  "first_octet v = (BInt (if length v \<ge> 1 then uint (hd v) else 0), [])"

definition Address_Set :: "u8 list \<Rightarrow> tlv_result" where
  "Address_Set v = (if length v > 2 then BOctets v else BNone, [])"

definition Subaddress_Set :: "u8 list \<Rightarrow> tlv_result" where
  "Subaddress_Set v = (if length v > 1 then BOctets v else BNone, [])"

definition RemoteEntityAddress_Set :: "u8 list \<Rightarrow> tlv_result" where
  "RemoteEntityAddress_Set v = (if length v > REMOTE_ENTITY_ADDRESS_SIZE then BOctets v else BNone, [])"

definition CommandDetail_Set :: "u8 list \<Rightarrow> tlv_result" where "CommandDetail_Set v = first_octets 3 v"
definition DeviceIdentity_Set :: "u8 list \<Rightarrow> tlv_result" where "DeviceIdentity_Set v = first_octets 2 v"
definition Duration_Set :: "u8 list \<Rightarrow> tlv_result" where "Duration_Set v = first_octets 2 v"
definition IconIdentifier_Set :: "u8 list \<Rightarrow> tlv_result" where "IconIdentifier_Set v = first_octets 2 v"

text \<open>The buffer for the digits has one octet for each octet of information.\<close>

definition Result_Set :: "u8 list \<Rightarrow> tlv_result" where
  "Result_Set v =
     (if length v \<ge> 1 then (BResult v (hexdump (tl v)), if length v > 1 then [HeapOverflow] else []) else (BNone, []))"

definition AlphaIdentifier_Set :: "u8 list \<Rightarrow> tlv_result" where
  "AlphaIdentifier_Set v = (BText (cstring v), [])"

definition TextString_Set :: "u8 list \<Rightarrow> tlv_result" where
  "TextString_Set v = (if length v > 1 then BTextString (hd v) (tl v) else BNone, [])"

definition BearerDescription_Set :: "u8 list \<Rightarrow> tlv_result" where
  "BearerDescription_Set v = (if v \<noteq> [] then BBearer v (hexdump (tl v)) else BNone, [])"

definition ChannelData_Set :: "u8 list \<Rightarrow> tlv_result" where
  "ChannelData_Set v = (BText (hexdump v), [])"

definition ChannelDataLength_Set :: "u8 list \<Rightarrow> tlv_result" where
  "ChannelDataLength_Set v = first_octet v"

text \<open>The whole value is copied into two octets.\<close>

definition ChannelStatus_Set :: "u8 list \<Rightarrow> tlv_result" where
  "ChannelStatus_Set v =
     (BOctets (if length v \<ge> 2 then take 2 v else [0, 0]), if length v > 2 then [ObjectOverflow] else [])"

text \<open>Four octets are read where two are needed.\<close>

definition BufferSize_Set :: "u8 list \<Rightarrow> tlv_result" where
  "BufferSize_Set v =
     (BInt (if length v \<ge> 2 then 256 * uint (v ! 0) + uint (v ! 1) else 0),
      if length v = 2 \<or> length v = 3 then [Overread] else [])"

definition TransportLevel_Set :: "u8 list \<Rightarrow> tlv_result" where
  "TransportLevel_Set v =
     (if length v \<ge> 3 then BTransport (v ! 0) (256 * uint (v ! 1) + uint (v ! 2)) else BTransport 0 0, [])"

text \<open>The whole value is copied into 17 octets.\<close>

definition OtherAddress_Set :: "u8 list \<Rightarrow> tlv_result" where
  "OtherAddress_Set v =
     (BOctets (if length v > 4 then take 17 v @ replicate (17 - length v) 0 else replicate 17 0),
      if length v > 17 then [ObjectOverflow] else [])"

definition NetworkAccessName_Set :: "u8 list \<Rightarrow> tlv_result" where
  "NetworkAccessName_Set v =
     (case NetworkAccessNameParser v of None \<Rightarrow> (BText [], [Overread]) | Some s \<Rightarrow> (BText s, []))"

definition MeasurementQualifier_Set :: "u8 list \<Rightarrow> tlv_result" where
  "MeasurementQualifier_Set v = first_octet v"

definition FrameIdentifier_Set :: "u8 list \<Rightarrow> tlv_result" where
  "FrameIdentifier_Set v = first_octet v"

text \<open>The value is taken for a string with a terminator.\<close>

definition TextAttribute_Set :: "u8 list \<Rightarrow> u8 list \<Rightarrow> tlv_result" where
  "TextAttribute_Set junk v =
     (BText (if v \<noteq> [] then cstring (v @ junk) else []), if v \<noteq> [] \<and> 0 \<notin> set v then [Overread] else [])"

definition EventList_Set :: "u8 list \<Rightarrow> tlv_result" where
  "EventList_Set v = (if length v \<ge> 1 then BOctets v else BNone, [])"

definition tlv_body_of :: "u8 list \<Rightarrow> tlv_kind \<Rightarrow> u8 list \<Rightarrow> tlv_result" where
  "tlv_body_of junk k v =
     (case k of
        KTlv \<Rightarrow> (BNone, [])
      | KAddress \<Rightarrow> Address_Set v
      | KSubaddress \<Rightarrow> Subaddress_Set v
      | KRemoteEntityAddress \<Rightarrow> RemoteEntityAddress_Set v
      | KCommandDetail \<Rightarrow> CommandDetail_Set v
      | KDeviceIdentity \<Rightarrow> DeviceIdentity_Set v
      | KDuration \<Rightarrow> Duration_Set v
      | KIconIdentifier \<Rightarrow> IconIdentifier_Set v
      | KResult \<Rightarrow> Result_Set v
      | KAlphaIdentifier \<Rightarrow> AlphaIdentifier_Set v
      | KTextString \<Rightarrow> TextString_Set v
      | KBearerDescription \<Rightarrow> BearerDescription_Set v
      | KChannelData \<Rightarrow> ChannelData_Set v
      | KChannelDataLength \<Rightarrow> ChannelDataLength_Set v
      | KChannelStatus \<Rightarrow> ChannelStatus_Set v
      | KBufferSize \<Rightarrow> BufferSize_Set v
      | KTransportLevel \<Rightarrow> TransportLevel_Set v
      | KOtherAddress \<Rightarrow> OtherAddress_Set v
      | KNetworkAccessName \<Rightarrow> NetworkAccessName_Set v
      | KMeasurementQualifier \<Rightarrow> MeasurementQualifier_Set v
      | KFrameIdentifier \<Rightarrow> FrameIdentifier_Set v
      | KTextAttribute \<Rightarrow> TextAttribute_Set junk v
      | KEventList \<Rightarrow> EventList_Set v)"

text \<open>\<open>Set\<close> of a class; the value of an object without one counts as empty.\<close>

definition tlv_Set :: "u8 \<Rightarrow> u8 list \<Rightarrow> u8 list \<Rightarrow> int \<Rightarrow> ctlv \<Rightarrow> (ctlv \<times> nat option \<times> stk_fault list) option" where
  "tlv_Set hi8 junk xs n t = do {
     (t, next) \<leftarrow> CTLV_Set hi8 xs n t;
     let (b, fs) = tlv_body_of junk (t_kind t) (case t_pValue t of None \<Rightarrow> [] | Some v \<Rightarrow> v);
     Some (t\<lparr>t_body := b\<rparr>, next, fs) }"

section \<open>The container\<close>

text \<open>The object for a tag; two constructors make a string from \<^verbatim>\<open>NULL\<close>.\<close>

definition tag_kinds :: "(u8 \<times> tlv_kind) list" where
  "tag_kinds = [(0x01, KCommandDetail), (0x02, KDeviceIdentity), (0x03, KResult), (0x04, KDuration),
     (0x05, KAlphaIdentifier), (0x06, KAddress), (0x08, KSubaddress), (0x0D, KTextString),
     (0x19, KEventList), (0x1E, KIconIdentifier), (0x35, KBearerDescription), (0x36, KChannelData),
     (0x37, KChannelDataLength), (0x38, KChannelStatus), (0x39, KBufferSize), (0x3C, KTransportLevel),
     (0x3E, KOtherAddress), (0x47, KNetworkAccessName), (0x49, KRemoteEntityAddress),
     (0x4A, KTextAttribute), (0x68, KFrameIdentifier), (0x69, KMeasurementQualifier)]"

definition TAG_CSG_ID_LIST :: u8 where "TAG_CSG_ID_LIST = 0x7E"

definition NewTlv :: "u8 \<Rightarrow> ctlv option \<times> stk_fault list" where
  "NewTlv tag =
     (if tag = TAG_CSG_ID_LIST then (None, [])
      else case map_of tag_kinds tag of
        None \<Rightarrow> (Some (CTLV_new KTlv), [])
      | Some k \<Rightarrow> (Some (CTLV_new k), if k = KAlphaIdentifier \<or> k = KBearerDescription then [NullString] else []))"

record comprehension =
  c_nLength :: int
  c_pData :: "u8 list option"
  c_tlvs :: "ctlv list"
  c_faults :: "stk_fault list"

definition Comprehension_new :: comprehension where
  "Comprehension_new = \<lparr>c_nLength = 0, c_pData = None, c_tlvs = [], c_faults = []\<rparr>"

text \<open>Initialisation frees the data and the objects, but does not reset the length.\<close>

definition Comprehension_Initialize :: "comprehension \<Rightarrow> comprehension" where
  "Comprehension_Initialize c =
     c\<lparr>c_pData := None, c_tlvs := [], c_faults := c_faults c @ concat (map tlv_Finalize (c_tlvs c))\<rparr>"

text \<open>The new array has room for the old octets and those of the object; what is not copied is \<open>junk\<close>.\<close>

definition AppendTlv :: "u8 list \<Rightarrow> ctlv \<Rightarrow> comprehension \<Rightarrow> comprehension" where
  "AppendTlv junk t c =
     (let (raw, fs, t) = CTLV_GetRawData t;
          old = (case c_pData c of
                   None \<Rightarrow> take (nat (c_nLength c)) (junk @ replicate (nat (c_nLength c)) 0)
                 | Some d \<Rightarrow> take (nat (c_nLength c)) d) in
      case raw of
        None \<Rightarrow> c\<lparr>c_tlvs := c_tlvs c @ [t], c_pData := Some old, c_faults := c_faults c @ fs\<rparr>
      | Some out \<Rightarrow>
          c\<lparr>c_tlvs := c_tlvs c @ [t], c_pData := Some (old @ out), c_faults := c_faults c @ fs,
            c_nLength := c_nLength c + CTLV_GetRawDataLength t\<rparr>)"

text \<open>The octets of the container.\<close>

definition Comprehension_GetRawData :: "comprehension \<Rightarrow> u8 list" where
  "Comprehension_GetRawData c = (case c_pData c of None \<Rightarrow> [] | Some d \<Rightarrow> take (nat (c_nLength c)) d)"

definition Comprehension_GetTlv :: "u8 \<Rightarrow> comprehension \<Rightarrow> ctlv option" where
  "Comprehension_GetTlv tag c = find (\<lambda>t. tag = CTLV_GetTag t) (c_tlvs c)"

text \<open>The index is compared with the size by \<^verbatim>\<open>>\<close>, and \<^verbatim>\<open>at\<close> throws at the size itself.\<close>

definition Comprehension_GetTlv_at :: "int \<Rightarrow> comprehension \<Rightarrow> ctlv option option" where
  "Comprehension_GetTlv_at i c =
     (if i > int (length (c_tlvs c)) then Some None
      else if 0 \<le> i \<and> i < int (length (c_tlvs c)) then Some (Some (c_tlvs c ! nat i))
      else None)"

lemma tlv_length_offset: "tlv_length hi8 xs n = Some (Some (len, off)) \<Longrightarrow> 2 \<le> off"
  by (auto simp: tlv_length_def bind_eq_Some_conv split: if_splits)

lemma CTLV_Set_next:
  assumes "CTLV_Set hi8 xs n t = Some (t', Some k)"
  shows "2 \<le> k \<and> int k < n"
proof (cases "tlv_length hi8 xs n")
  case None
  then show ?thesis using assms
    by (simp add: CTLV_Set_def Let_def bind_eq_Some_conv split: if_splits)
next
  case (Some lo)
  show ?thesis
  proof (cases lo)
    case None
    then show ?thesis using assms Some
      by (simp add: CTLV_Set_def Let_def bind_eq_Some_conv split: if_splits)
  next
    case (Some p)
    obtain len off where p: "p = (len, off)" by (cases p)
    with \<open>tlv_length hi8 xs n = Some lo\<close> Some have "2 \<le> off" by (simp add: tlv_length_offset)
    moreover have "k = off + nat len \<and> n - int (off + nat len) > 0"
      using assms \<open>tlv_length hi8 xs n = Some lo\<close> Some p
      by (simp add: CTLV_Set_def Let_def bind_eq_Some_conv split: if_splits)
    ultimately show ?thesis by simp
  qed
qed

lemma tlv_Set_next: "tlv_Set hi8 junk xs n t = Some (t', Some k, fs) \<Longrightarrow> 2 \<le> k \<and> int k < n"
  using CTLV_Set_next [of hi8 xs n t _ k]
  by (simp add: tlv_Set_def Let_def bind_eq_Some_conv split_beta)
     (metis prod.collapse)

text \<open>The loop over the octets of a command: every object starts behind the one before.\<close>

function comp_loop :: "u8 \<Rightarrow> u8 list \<Rightarrow> u8 list \<Rightarrow> int \<Rightarrow> nat \<Rightarrow> comprehension \<Rightarrow> comprehension option" where
  "comp_loop hi8 junk data n off c =
     (if n - int off \<le> 0 then Some c
      else if off \<ge> length data then None
      else
        (case NewTlv (data ! off AND TLV_TAG_MASK) of
           (None, fs) \<Rightarrow> Some c
         | (Some t, fs) \<Rightarrow>
             (case tlv_Set hi8 junk (drop off data) (n - int off) t of
                None \<Rightarrow> None
              | Some (t, None, gs) \<Rightarrow> Some (AppendTlv junk t (c\<lparr>c_faults := c_faults c @ fs @ gs\<rparr>))
              | Some (t, Some k, gs) \<Rightarrow>
                  comp_loop hi8 junk data n (off + k) (AppendTlv junk t (c\<lparr>c_faults := c_faults c @ fs @ gs\<rparr>)))))"
  by pat_completeness auto
termination
proof (relation "measure (\<lambda>(hi8, junk, data, n, off, c). nat (n - int off))", goal_cases)
  case 1
  show ?case by simp
next
  case (2 hi8 junk data n off c)
  then show ?case using tlv_Set_next by fastforce
qed

declare comp_loop.simps [simp del] apn_loop.simps [simp del]

definition Comprehension_Set :: "u8 \<Rightarrow> u8 list \<Rightarrow> u8 list \<Rightarrow> int \<Rightarrow> comprehension \<Rightarrow> comprehension option" where
  "Comprehension_Set hi8 junk data n c = comp_loop hi8 junk data n 0 (Comprehension_Initialize c)"

section \<open>Proactive commands\<close>

definition BER_TAG :: u8 where "BER_TAG = 0xD0"

text \<open>\<^verbatim>\<open>CBER\<close>: the object and whether it is a proactive command.\<close>

definition CBER_new :: "u8 \<Rightarrow> u8 list \<Rightarrow> int \<Rightarrow> (ctlv \<times> bool) option" where
  "CBER_new hi8 xs n = do {
     (t, next) \<leftarrow> CTLV_Set hi8 xs n (CTLV_new KTlv);
     Some (t, t_cTag t = BER_TAG) }"

definition CBER_GetComprehension :: "u8 \<Rightarrow> u8 list \<Rightarrow> ctlv \<Rightarrow> comprehension option option" where
  "CBER_GetComprehension hi8 junk t =
     (case t_pValue t of
        None \<Rightarrow> Some None
      | Some v \<Rightarrow> map_option Some (Comprehension_Set hi8 junk v (t_nLength t) Comprehension_new))"

section \<open>Encoded objects\<close>

text \<open>A tag, the length and the value, and a sequence of them.\<close>

definition tlv_octets :: "u8 \<times> u8 list \<Rightarrow> u8 list" where
  "tlv_octets = (\<lambda>(g, v). g # raw_length (int (length v)) @ v)"

definition tlv_stream :: "(u8 \<times> u8 list) list \<Rightarrow> u8 list" where
  "tlv_stream ts = concat (map tlv_octets ts)"

lemma tlv_stream_Nil [simp]: "tlv_stream [] = []"
  by (simp add: tlv_stream_def)

definition tag_kind :: "u8 \<Rightarrow> tlv_kind" where
  "tag_kind g = (case map_of tag_kinds (g AND TLV_TAG_MASK) of None \<Rightarrow> KTlv | Some k \<Rightarrow> k)"

definition tlv_object :: "u8 list \<Rightarrow> u8 \<times> u8 list \<Rightarrow> ctlv" where
  "tlv_object junk = (\<lambda>(g, v). \<lparr>t_kind = tag_kind g, t_cTag = g, t_nLength = int (length v),
     t_pValue = Some v, t_raw = False, t_body = fst (tlv_body_of junk (tag_kind g) v)\<rparr>)"

definition tlv_append :: "u8 list \<Rightarrow> comprehension \<Rightarrow> u8 \<times> u8 list \<Rightarrow> comprehension" where
  "tlv_append junk c gv = AppendTlv junk (tlv_object junk gv)
     (c\<lparr>c_faults := c_faults c @ snd (NewTlv (fst gv AND TLV_TAG_MASK)) @
        snd (tlv_body_of junk (tag_kind (fst gv)) (snd gv))\<rparr>)"

definition tlv_plain :: "u8 \<times> u8 list \<Rightarrow> bool" where
  "tlv_plain = (\<lambda>(g, v). v \<noteq> [] \<and> length v < 256 \<and> g AND TLV_TAG_MASK \<noteq> TAG_CSG_ID_LIST)"

lemma raw_length_short: "n < 128 \<Longrightarrow> raw_length (int n) = [word_of_int (int n)]"
  by (simp add: raw_length_def)

lemma raw_length_byte: "128 \<le> n \<Longrightarrow> n < 256 \<Longrightarrow> raw_length (int n) = [0x81, word_of_int (int n)]"
  by (simp add: raw_length_def)

lemma to_octet_uint: "0 \<le> i \<Longrightarrow> i < 256 \<Longrightarrow> uint (word_of_int i :: u8) = i"
  by (simp add: uint_word_of_int)

lemma octet_of_nat: "n < 256 \<Longrightarrow> uint (word_of_nat n :: u8) = int n"
  by (metis of_nat_numeral of_int_of_nat_eq to_octet_uint of_nat_less_iff of_nat_0_le_iff)

lemma octet_small: "n < 128 \<Longrightarrow> (word_of_nat n :: u8) < 0x80"
  using octet_of_nat [of n] by (simp add: word_less_def)

lemma tlv_length_encoded:
  assumes "length v < 256" and "v \<noteq> []"
  shows "tlv_length hi8 (g # raw_length (int (length v)) @ v @ rest)
      (int (length (g # raw_length (int (length v)) @ v @ rest))) =
    Some (Some (int (length v), 1 + length (raw_length (int (length v)))))"
proof (cases "length v < 128")
  case True
  then show ?thesis
    by (simp add: tlv_length_def raw_length_short octet_small octet_of_nat)
next
  case False
  then have "128 \<le> length v" by simp
  then show ?thesis using assms
    by (simp add: tlv_length_def raw_length_byte octet_of_nat)
qed

lemma CTLV_Set_parts:
  assumes "3 \<le> length xs" and "\<not> (length xs = 3 \<and> xs ! 0 = 0x7F)"
    and "tlv_length hi8 xs (int (length xs)) = Some (Some (int m, off))" and "off + m \<le> length xs"
  shows "CTLV_Set hi8 xs (int (length xs)) t =
    Some ((CTLV_new (t_kind t))\<lparr>t_cTag := xs ! 0, t_nLength := int m, t_pValue := Some (take m (drop off xs))\<rparr>,
      if length xs = off + m then None else Some (off + m))"
  using assms unfolding CTLV_Set_def Let_def CTLV_Initialize_def
  by (cases xs) auto

lemma CTLV_Set_encoded:
  assumes "length v < 256" and "v \<noteq> []" and "rest \<noteq> [] \<or> g \<noteq> 0x7F \<or> length v \<noteq> 1"
  shows "CTLV_Set hi8 (tlv_octets (g, v) @ rest) (int (length (tlv_octets (g, v) @ rest))) t =
    Some ((CTLV_new (t_kind t))\<lparr>t_cTag := g, t_nLength := int (length v), t_pValue := Some v\<rparr>,
      if rest = [] then None else Some (length (tlv_octets (g, v))))"
proof -
  define k where "k = length (raw_length (int (length v)))"
  have k: "1 \<le> k" by (simp add: k_def raw_length_def)
  have l: "length (tlv_octets (g, v)) = 1 + k + length v" by (simp add: tlv_octets_def k_def)
  have three: "\<not> (length (tlv_octets (g, v) @ rest) = 3 \<and> g = 0x7F)"
  proof (rule notI)
    assume a: "length (tlv_octets (g, v) @ rest) = 3 \<and> g = 0x7F"
    have "0 < length v" using assms(2) by simp
    moreover have "1 + k + length v + length rest = 3" using a l by simp
    ultimately have "length v = 1" and "length rest = 0" using k by linarith+
    with a assms(3) show False by simp
  qed
  have len: "tlv_length hi8 (tlv_octets (g, v) @ rest) (int (length (tlv_octets (g, v) @ rest))) =
      Some (Some (int (length v), 1 + k))"
    using tlv_length_encoded [OF assms(1,2), of hi8 g rest] by (simp add: tlv_octets_def k_def)
  have v: "0 < length v" using assms(2) by simp
  have ge: "3 \<le> length (tlv_octets (g, v) @ rest)" unfolding length_append l using k v by linarith
  have fit: "1 + k + length v \<le> length (tlv_octets (g, v) @ rest)" using l by simp
  have h: "(tlv_octets (g, v) @ rest) ! 0 = g" by (simp add: tlv_octets_def)
  have d: "take (length v) (drop (1 + k) (tlv_octets (g, v) @ rest)) = v" by (simp add: tlv_octets_def k_def)
  have q: "length (tlv_octets (g, v) @ rest) = 1 + k + length v \<longleftrightarrow> rest = []" using l by simp
  have "\<not> (length (tlv_octets (g, v) @ rest) = 3 \<and> (tlv_octets (g, v) @ rest) ! 0 = 0x7F)"
    using three h by simp
  from CTLV_Set_parts [OF ge this len fit, of t] show ?thesis
    by (simp only: h d q l)
qed

lemma tlv_Set_encoded:
  assumes "length v < 256" and "v \<noteq> []" and "rest \<noteq> [] \<or> g \<noteq> 0x7F \<or> length v \<noteq> 1"
  shows "tlv_Set hi8 junk (tlv_octets (g, v) @ rest) (int (length (tlv_octets (g, v) @ rest))) (CTLV_new (tag_kind g)) =
    Some (tlv_object junk (g, v), if rest = [] then None else Some (length (tlv_octets (g, v))),
      snd (tlv_body_of junk (tag_kind g) v))"
  unfolding tlv_Set_def CTLV_Set_encoded [OF assms]
  by (simp add: CTLV_new_def tlv_object_def split_beta)

lemma NewTlv_kind:
  assumes "g AND TLV_TAG_MASK \<noteq> TAG_CSG_ID_LIST"
  shows "NewTlv (g AND TLV_TAG_MASK) = (Some (CTLV_new (tag_kind g)), snd (NewTlv (g AND TLV_TAG_MASK)))"
  using assms by (simp add: NewTlv_def tag_kind_def split: option.splits)

lemma comp_loop_stream:
  assumes "\<forall>gv \<in> set ts. tlv_plain gv" and "\<forall>w. ts = [] \<or> last ts \<noteq> (0x7F, [w])"
  shows "comp_loop hi8 junk (pre @ tlv_stream ts) (int (length (pre @ tlv_stream ts))) (length pre) c =
    Some (foldl (tlv_append junk) c ts)"
  using assms
proof (induction ts arbitrary: pre c)
  case Nil
  show ?case by (subst comp_loop.simps) simp
next
  case (Cons gv ts)
  obtain g v where gv: "gv = (g, v)" by (cases gv)
  have p: "length v < 256" "v \<noteq> []" "g AND TLV_TAG_MASK \<noteq> TAG_CSG_ID_LIST"
    using Cons.prems(1) gv by (auto simp: tlv_plain_def)
  have s: "tlv_stream ((g, v) # ts) = tlv_octets (g, v) @ tlv_stream ts" by (simp add: tlv_stream_def)
  have e: "tlv_stream ts = [] \<longleftrightarrow> ts = []" 
    by (cases ts) (auto simp: tlv_stream_def tlv_octets_def split_beta)
  have amb: "tlv_stream ts \<noteq> [] \<or> g \<noteq> 0x7F \<or> length v \<noteq> 1"
    using Cons.prems(2) e gv by (auto simp: length_Suc_conv)
  have pos: "0 < length (tlv_octets (g, v))" by (simp add: tlv_octets_def)
  have o: "(pre @ tlv_octets (g, v) @ r) ! length pre = g" for r
    by (simp add: nth_append tlv_octets_def)
  have ih: "ts \<noteq> [] \<Longrightarrow> comp_loop hi8 junk ((pre @ tlv_octets (g, v)) @ tlv_stream ts)
      (int (length ((pre @ tlv_octets (g, v)) @ tlv_stream ts))) (length (pre @ tlv_octets (g, v)))
      (tlv_append junk c (g, v)) = Some (foldl (tlv_append junk) (tlv_append junk c (g, v)) ts)"
    using Cons.prems by (intro Cons.IH) auto
  have set1: "tlv_Set hi8 junk (tlv_octets (g, v) @ tlv_stream ts)
      (int (length (tlv_octets (g, v))) + int (length (tlv_stream ts))) (CTLV_new (tag_kind g)) =
    Some (tlv_object junk (g, v), if ts = [] then None else Some (length (tlv_octets (g, v))),
      snd (tlv_body_of junk (tag_kind g) v))"
    using tlv_Set_encoded [OF p(1,2) amb, of hi8 junk] e by simp
  obtain fs where new: "NewTlv (g AND TLV_TAG_MASK) = (Some (CTLV_new (tag_kind g)), fs)"
    using NewTlv_kind [OF p(3)] by simp
  define D where "D = pre @ tlv_octets (g, v) @ tlv_stream ts"
  have D: "length pre < length D" "D ! length pre = g"
      "drop (length pre) D = tlv_octets (g, v) @ tlv_stream ts"
      "int (length D) - int (length pre) = int (length (tlv_octets (g, v))) + int (length (tlv_stream ts))"
    using pos by (simp_all add: D_def o)
  have n0: "\<not> int (length (tlv_octets (g, v))) + int (length (tlv_stream ts)) \<le> 0" using pos by linarith
  have step: "comp_loop hi8 junk D (int (length D)) (length pre) c =
    (if ts = [] then Some (tlv_append junk c (g, v))
     else comp_loop hi8 junk D (int (length D)) (length pre + length (tlv_octets (g, v))) (tlv_append junk c (g, v)))"
    unfolding comp_loop.simps [of hi8 junk D "int (length D)" "length pre" c] D(2,3,4) if_not_P [OF n0] new prod.case option.case set1
    using D(1) pos by (cases "ts = []") (simp_all add: tlv_append_def new)
  have whole: "pre @ tlv_stream ((g, v) # ts) = D" "(pre @ tlv_octets (g, v)) @ tlv_stream ts = D"
    "length (pre @ tlv_octets (g, v)) = length pre + length (tlv_octets (g, v))"
    by (simp_all add: s D_def)
  show ?case
    using ih unfolding gv whole step by simp
qed

text \<open>An object whose raw data exists, and what a container holds after it is appended.\<close>

definition tlv_sendable :: "u8 \<times> u8 list \<Rightarrow> bool" where
  "tlv_sendable = (\<lambda>(g, v). v \<noteq> [] \<and> length v < 256 \<and> \<not> (length v = 3 \<and> hd v = 0x7F))"

definition comp_holds :: "comprehension \<Rightarrow> u8 list \<Rightarrow> bool" where
  "comp_holds c d \<longleftrightarrow> c_nLength c = int (length d) \<and> (case c_pData c of None \<Rightarrow> d = [] | Some e \<Rightarrow> e = d)"

lemma raw_data_of_object:
  assumes "tlv_sendable (t_cTag t, v)" and "t_pValue t = Some v" and "t_nLength t = int (length v)"
  shows "fst (CTLV_GetRawData t) = Some (tlv_octets (t_cTag t, v)) \<and>
    CTLV_GetRawDataLength t = int (length (tlv_octets (t_cTag t, v)))"
proof -
  have "v \<noteq> []" "length v < 256" "\<not> (length v = 3 \<and> hd v = 0x7F)"
    using assms(1) by (auto simp: tlv_sendable_def)
  then show ?thesis
    using assms(2,3)
    by (cases "length v = 1"; cases v)
      (auto simp: CTLV_GetRawData_def CTLV_GetRawDataLength_def tlv_octets_def raw_length_def Let_def)
qed

lemma raw_data_keeps:
  "t_cTag (snd (snd (CTLV_GetRawData t))) = t_cTag t" "t_pValue (snd (snd (CTLV_GetRawData t))) = t_pValue t"
  "t_nLength (snd (snd (CTLV_GetRawData t))) = t_nLength t"
  by (auto simp: CTLV_GetRawData_def Let_def split: option.splits)

lemma raw_length_keeps: "CTLV_GetRawDataLength (snd (snd (CTLV_GetRawData t))) = CTLV_GetRawDataLength t"
  by (simp add: CTLV_GetRawDataLength_def raw_data_keeps)

lemma AppendTlv_holds:
  assumes "tlv_sendable (t_cTag t, v)" and "t_pValue t = Some v" and "t_nLength t = int (length v)"
    and "comp_holds c d"
  shows "comp_holds (AppendTlv junk t c) (d @ tlv_octets (t_cTag t, v))"
proof -
  obtain fs u where r: "CTLV_GetRawData t = (Some (tlv_octets (t_cTag t, v)), fs, u)"
    using raw_data_of_object [OF assms(1-3)] by (cases "CTLV_GetRawData t") auto
  then have u: "CTLV_GetRawDataLength u = int (length (tlv_octets (t_cTag t, v)))"
    using raw_length_keeps [of t] raw_data_of_object [OF assms(1-3)] by simp
  show ?thesis
    using assms(4) by (auto simp: AppendTlv_def r u comp_holds_def split: option.splits)
qed

lemma AppendTlv_tlvs:
  "map (\<lambda>t. (t_cTag t, t_pValue t)) (c_tlvs (AppendTlv junk t c)) =
    map (\<lambda>t. (t_cTag t, t_pValue t)) (c_tlvs c) @ [(t_cTag t, t_pValue t)]"
  using raw_data_keeps [of t]
  by (cases "CTLV_GetRawData t") (auto simp: AppendTlv_def Let_def split: option.splits)

lemma tlv_object_parts [simp]:
  "t_cTag (tlv_object junk (g, v)) = g" "t_pValue (tlv_object junk (g, v)) = Some v"
  "t_nLength (tlv_object junk (g, v)) = int (length v)" "t_raw (tlv_object junk (g, v)) = False"
  by (simp_all add: tlv_object_def)

lemma comp_holds_faults [simp]: "comp_holds (c\<lparr>c_faults := fs\<rparr>) d = comp_holds c d"
  by (simp add: comp_holds_def)

lemma tlv_appends_hold:
  assumes "\<forall>gv \<in> set ts. tlv_sendable gv" and "comp_holds c d"
  shows "comp_holds (foldl (tlv_append junk) c ts) (d @ tlv_stream ts)"
  using assms
proof (induction ts arbitrary: c d)
  case (Cons gv ts)
  obtain g v where gv: "gv = (g, v)" by (cases gv)
  have "comp_holds (tlv_append junk c gv) (d @ tlv_octets gv)"
    using AppendTlv_holds [of "tlv_object junk gv" v "c\<lparr>c_faults := c_faults c @
      snd (NewTlv (fst gv AND TLV_TAG_MASK)) @ snd (tlv_body_of junk (tag_kind (fst gv)) (snd gv))\<rparr>" d junk]
      Cons.prems gv by (simp add: tlv_append_def)
  from Cons.IH [OF _ this] Cons.prems show ?case by (simp add: tlv_stream_def)
qed simp

lemma tlv_appends_tlvs:
  "map (\<lambda>t. (t_cTag t, t_pValue t)) (c_tlvs (foldl (tlv_append junk) c ts)) =
    map (\<lambda>t. (t_cTag t, t_pValue t)) (c_tlvs c) @ map (\<lambda>(g, v). (g, Some v)) ts"
  by (induction ts arbitrary: c) (auto simp: tlv_append_def AppendTlv_tlvs)

lemma comp_holds_raw: "comp_holds c d \<Longrightarrow> Comprehension_GetRawData c = d"
  by (auto simp: comp_holds_def Comprehension_GetRawData_def split: option.splits)



section \<open>Faults of the raw data\<close>

lemma AppendTlv_faults: "set (c_faults c) \<subseteq> set (c_faults (AppendTlv junk t c))"
  by (cases "CTLV_GetRawData t") (auto simp: AppendTlv_def Let_def split: option.splits)

lemma AppendTlv_overflow:
  assumes "t_pValue t = Some v" and "t_nLength t = int (length v)" and "2 \<le> length v"
    and "\<not> (length v = 3 \<and> hd v = 0x7F)"
  shows "HeapOverflow \<in> set (c_faults (AppendTlv junk t c)) \<and> (\<exists>u \<in> set (c_tlvs (AppendTlv junk t c)). t_raw u)"
proof -
  have "CTLV_GetRawData t = (Some (t_cTag t # raw_length (int (length v)) @ v), [HeapOverflow], t\<lparr>t_raw := True\<rparr>)"
    using assms by (auto simp: CTLV_GetRawData_def Let_def)
  then show ?thesis by (simp add: AppendTlv_def)
qed

lemma AppendTlv_tlvs_kept: "set (c_tlvs c) \<subseteq> set (c_tlvs (AppendTlv junk t c))"
  by (cases "CTLV_GetRawData t") (auto simp: AppendTlv_def Let_def split: option.splits)

lemma tlv_appends_overflow:
  assumes "(HeapOverflow \<in> set (c_faults c) \<and> (\<exists>u \<in> set (c_tlvs c). t_raw u)) \<or>
    (\<exists>(g, v) \<in> set ts. 2 \<le> length v \<and> \<not> (length v = 3 \<and> hd v = 0x7F))"
  shows "HeapOverflow \<in> set (c_faults (foldl (tlv_append junk) c ts)) \<and>
    (\<exists>u \<in> set (c_tlvs (foldl (tlv_append junk) c ts)). t_raw u)"
  using assms
proof (induction ts arbitrary: c)
  case (Cons gv ts)
  obtain g v where gv: "gv = (g, v)" by (cases gv)
  define c' where "c' = c\<lparr>c_faults := c_faults c @ snd (NewTlv (g AND TLV_TAG_MASK)) @ snd (tlv_body_of junk (tag_kind g) v)\<rparr>"
  have e: "tlv_append junk c gv = AppendTlv junk (tlv_object junk gv) c'"
    by (simp add: tlv_append_def gv c'_def)
  have k: "set (c_faults c) \<subseteq> set (c_faults (tlv_append junk c gv))"
    "set (c_tlvs c) \<subseteq> set (c_tlvs (tlv_append junk c gv))"
    using AppendTlv_faults [of c' junk] AppendTlv_tlvs_kept [of c' junk] by (auto simp: e c'_def)
  have o: "2 \<le> length v \<and> \<not> (length v = 3 \<and> hd v = 0x7F) \<Longrightarrow>
      HeapOverflow \<in> set (c_faults (tlv_append junk c gv)) \<and> (\<exists>u \<in> set (c_tlvs (tlv_append junk c gv)). t_raw u)"
    unfolding e using AppendTlv_overflow [of "tlv_object junk gv" v junk c'] by (simp add: gv)
  have "(HeapOverflow \<in> set (c_faults (tlv_append junk c gv)) \<and> (\<exists>u \<in> set (c_tlvs (tlv_append junk c gv)). t_raw u)) \<or>
    (\<exists>(g, v) \<in> set ts. 2 \<le> length v \<and> \<not> (length v = 3 \<and> hd v = 0x7F))"
    using Cons.prems k o gv by auto
  from Cons.IH [OF this] show ?case by simp
qed simp

lemma double_free_at_end:
  "u \<in> set (c_tlvs c) \<Longrightarrow> t_raw u \<Longrightarrow> DoubleFree \<in> set (c_faults (Comprehension_Initialize c))"
  by (auto simp: Comprehension_Initialize_def tlv_Finalize_def)



text \<open>
  The constructors of alpha identifiers and bearer descriptions make a string of the null pointer, so
  that no command that opens a channel over a bearer can be parsed without undefined behaviour.
\<close>

lemma null_string_objects:
  "NullString \<in> set (snd (NewTlv (g AND TLV_TAG_MASK))) \<longleftrightarrow> tag_kind g \<in> {KAlphaIdentifier, KBearerDescription}"
  by (auto simp: NewTlv_def tag_kind_def TAG_CSG_ID_LIST_def tag_kinds_def split: if_splits)

text \<open>The CSG list ends the parse, and a length of two octets is taken with the low one first.\<close>

lemma csg_list_ends_parse:
  assumes "off < length data" and "data ! off AND TLV_TAG_MASK = TAG_CSG_ID_LIST"
  shows "comp_loop hi8 junk data n off c = Some c"
  by (subst comp_loop.simps) (use assms in \<open>simp add: NewTlv_def\<close>)

lemma long_length_swapped: "tlv_length hi8 [0x85, 0x82, 1, 0, 0x61] 5 = Some (Some (1, 4))"
  by (simp add: tlv_length_def)

section \<open>Network access names\<close>

definition apn_octets :: "u8 list list \<Rightarrow> u8 list" where
  "apn_octets ls = concat (map (\<lambda>l. of_nat (length l) # l) ls)"

fun apn_dotted :: "u8 list list \<Rightarrow> u8 list" where
  "apn_dotted [] = []"
| "apn_dotted [l] = l"
| "apn_dotted (l # ls) = l @ 0x2E # apn_dotted ls"

lemma cstring_same: "0 \<notin> set s \<Longrightarrow> cstring s = s"
  by (simp add: cstring_def takeWhile_eq_all_conv) (metis)

lemma copy_label_part:
  "0 \<notin> set l \<Longrightarrow> copy_label (pre @ l @ rest) (length pre) (length l) = Some l"
  by (simp add: copy_label_def cstring_same)

lemma apn_octets_pos: "\<forall>l \<in> set ls. l \<noteq> [] \<Longrightarrow> ls \<noteq> [] \<Longrightarrow> 1 < length (apn_octets ls)"
  by (cases ls) (auto simp: apn_octets_def Suc_lessI)

lemma apn_loop_labels:
  assumes "\<forall>l \<in> set ls. l \<noteq> [] \<and> length l < 256 \<and> 0 \<notin> set l"
  shows "apn_loop (pre @ apn_octets ls) (length pre) (int (length (apn_octets ls))) out = Some (out @ apn_dotted ls)"
  using assms
proof (induction ls arbitrary: pre out rule: apn_dotted.induct)
  case 1
  show ?case by (subst apn_loop.simps) (simp add: apn_octets_def)
next
  case (2 l)
  have c: "copy_label (pre @ of_nat (length l) # l) (Suc (length pre)) (length l) = Some l"
    using copy_label_part [of l "pre @ [of_nat (length l)]" "[]"] 2 by simp
  have u: "unat (of_nat (length l) :: u8) = length l"
    using 2 by (simp add: unat_of_nat)
  show ?case
    using 2 by (subst apn_loop.simps) (simp add: apn_octets_def nth_append u c)
next
  case (3 l k ks)
  define r where "r = apn_octets (k # ks)"
  have r: "apn_octets (l # k # ks) = of_nat (length l) # l @ r" by (simp add: r_def apn_octets_def)
  have u: "unat (of_nat (length l) :: u8) = length l"
    using 3 by (simp add: unat_of_nat)
  have c: "copy_label (pre @ of_nat (length l) # l @ r) (Suc (length pre)) (length l) = Some l"
    using copy_label_part [of l "pre @ [of_nat (length l)]" r] 3 by simp
  have p: "1 < length r" using apn_octets_pos [of "k # ks"] 3 by (simp add: r_def)
  have ih: "apn_loop (pre @ of_nat (length l) # l @ r) (Suc (length pre + length l)) (int (length r)) (out @ l @ [0x2E]) =
      Some ((out @ l @ [0x2E]) @ apn_dotted (k # ks))"
    using 3(1) [of "pre @ of_nat (length l) # l" "out @ l @ [0x2E]"] 3(2) by (simp add: r_def)
  show ?case
    using 3 p ih by (subst apn_loop.simps) (simp add: r nth_append u c)
qed



text \<open>A label that is longer than the value takes the parser beyond it.\<close>

lemma apn_label_overread:
  assumes "2 \<le> n" and "1 \<le> x"
  shows "NetworkAccessNameParser [n, x] = None"
proof -
  have a: "2 \<le> unat n" "1 \<le> unat x" using assms by (simp_all add: word_le_nat_alt)
  have z: "apn_loop [n, x] (Suc (Suc 0)) 2 [] = None" by (subst apn_loop.simps) simp
  have c: "unat x < 2 \<Longrightarrow> copy_label [n, x] (Suc (Suc 0)) (unat x) = None" using a by (auto simp: copy_label_def)
  have y: "apn_loop [n, x] (Suc 0) 2 [] = None"
    by (subst apn_loop.simps) (simp add: z c Let_def)
  have "apn_loop [n, x] 0 2 [] = None"
    using a by (subst apn_loop.simps) (simp add: y Let_def)
  then show ?thesis by (simp add: NetworkAccessNameParser_def)
qed

end
