(* ===== verification/Spec2Isabelle.thy ===== *)
theory Spec2Isabelle
  imports Ril_Context Service_Refinement Icc_Records Sms_Faults Modem_Io Stk_Tlv
begin

section \<open>A verification of the Exynos radio interface layer\<close>

text \<open>
  This development models the core of \<^verbatim>\<open>src/telephony/exynos-ril/sitril\<close>, the vendor
  radio interface layer (RIL) of a phone: the process between the telephony framework and the modem.
  All paths below are relative to that directory.

  \<^bold>\<open>The program.\<close>  The framework calls \<^verbatim>\<open>OnRequest\<close> with a request id, a token and a
  payload.  The parser of requests copies the payload into a request object; the context of the SIM slot
  (\<^verbatim>\<open>rilcontextwrapper.cpp\<close>, \<^verbatim>\<open>core/servicemgr.cpp\<close>) looks the id up in a route table
  and puts a message into the queue of one of its services.  A service (\<^verbatim>\<open>core/service.cpp\<close>)
  is a thread with four queues, a list of timers and a pipe that wakes it
  (\<^verbatim>\<open>core/servicemonitorrunnable.cpp\<close>); it works on one request at a time, or on several
  asynchronous ones.  A protocol builder turns the request into a radio control message (RCM) with
  a fresh token, the channel writes it to the modem, and the reader thread hands incoming data back to
  the context, which finds the waiting service by its token.  Protocol adapters read the answer, and the
  service completes the request towards the framework.  Tables and codecs around this core translate
  texts, records of the SIM card and short messages.

  \<^bold>\<open>Theories\<close>, each with the code it models:
  \<^item> \<open>Ril_Prelude\<close>: integer widths, arrays with bounds, sorted maps, lemma collections.
  \<^item> \<open>Timer_List\<close>, \<open>Token_Gen\<close>, \<open>Wait_List\<close>: \<^verbatim>\<open>core/timerlist.cpp\<close>,
    \<^verbatim>\<open>core/tokengen.cpp\<close>, \<^verbatim>\<open>core/waitlist.cpp\<close>.
  \<^item> \<open>Rcm_Header\<close>: the packed message header of \<^verbatim>\<open>protocol/sit/sitdef.h\<close>, its builder
    and its adapter.
  \<^item> \<open>Ril_Message\<close>, \<open>Service\<close>, \<open>Service_Thread\<close>: \<^verbatim>\<open>core/message.cpp\<close>,
    \<^verbatim>\<open>core/service.cpp\<close> and the thread loop.  \<open>Service_Inv\<close>, \<open>Service_Safety\<close>,
    \<open>Service_Properties\<close>, \<open>Async_Requests\<close> and \<open>Service_Refinement\<close> hold the
    invariant, the contract of a derived class, the properties of reachable states, of asynchronous
    requests, and the simulation by an abstract server.
  \<^item> \<open>Gps_Service\<close>: \<^verbatim>\<open>core/service/gpsservice.cpp\<close>, a derived service that is shown to
    honour the contract.
  \<^item> \<open>Ril_Context\<close>: \<^verbatim>\<open>core/servicemgr.cpp\<close> and the routing of \<^verbatim>\<open>rilcontextwrapper.cpp\<close>.
  \<^item> \<open>Gsm_Text\<close>, \<open>Utf8_Text\<close>, \<open>Ussd_Text\<close>, \<open>Hex_Text\<close>: the conversions of
    \<^verbatim>\<open>util/util.cpp\<close> and the USSD builder.
  \<^item> \<open>Icc_Records\<close>: \<^verbatim>\<open>util/iccUtil.cpp\<close> and \<^verbatim>\<open>simRecord\<close>.
  \<^item> \<open>Bit_Stream\<close>, \<open>Cdma_Sms\<close>, \<open>Cdma_Sms_Parser\<close>: \<^verbatim>\<open>util/bitwiseiostream.cpp\<close> and
    \<^verbatim>\<open>fw/cdmasmsdata.cpp\<close>, the messages of CDMA networks in both directions.
  \<^item> \<open>Sms_Pdu\<close>, \<open>Sms_Number\<close>: \<^verbatim>\<open>fw/smsdata.cpp\<close> and \<^verbatim>\<open>util/sms_util.cpp\<close>, the
    request data of GSM short messages and the numbers of service centers.
  \<^item> \<open>Sms_Protocol\<close>, \<open>Ims_Builder\<close>: \<^verbatim>\<open>protocol/sit/protocolsmsbuilder.cpp\<close>,
    \<^verbatim>\<open>protocolsmsadapter.cpp\<close> and \<^verbatim>\<open>protocolimsbuilder.cpp\<close>.
  \<^item> \<open>Sms_Service\<close>: \<^verbatim>\<open>core/service/smsservice.cpp\<close>, every handler; \<open>Sms_Properties\<close> and
    \<open>Sms_Faults\<close> hold its properties.
  \<^item> \<open>Modem_Io\<close>: \<^verbatim>\<open>protocol/io/iochannel.cpp\<close>, \<^verbatim>\<open>protocol/io/modemcontrol.cpp\<close>,
    \<^verbatim>\<open>rcmmgr.cpp\<close> and \<^verbatim>\<open>modemstatemonitor.cpp\<close>: the device, the reader thread and the
    thread that watches the modem.
  \<^item> \<open>Stk_Tlv\<close>: \<^verbatim>\<open>stk/tlv.cpp\<close>, \<^verbatim>\<open>stk/tlvparser.cpp\<close>, \<^verbatim>\<open>stk/comprehension.cpp\<close> and
    \<^verbatim>\<open>stk/ber.cpp\<close>: the objects of commands of the SIM toolkit.

  \<^bold>\<open>Conventions.\<close>  A class is a record, a method a function from the state to the state and its
  result.  Where the source touches raw memory the function returns an \<open>option\<close> and \<open>None\<close> is an
  access outside the object, a \<^verbatim>\<open>NULL\<close> dereference or a second release: behaviour C++ does
  not define.  In the service the heap of messages is explicit, and \<open>sv_ub\<close> records the use of a
  pointer that is not allocated.  A return code of the source stays an integer.  Integers that can wrap
  are words of their width.  What the environment decides (the clock, the outcome of system calls,
  memory that was never written, the code of a derived service) is an argument of the model.
  Log output is left out.

  \<^bold>\<open>Lemma groups.\<close>  For the service: every operation keeps the invariant (\<open>ril_inv\<close>), hence
  no dangling pointer is used, no wake-up is lost, and each accepted request is answered exactly once; the
  abstract server simulates every step.  For the context: an answer reaches the service that sent the
  request.  For the codecs: an inverse or a reference function for each, and the exact condition under
  which an array is overrun.  Where the code does not do what it means to, a property states the
  behaviour it has, and the list of findings of the manifest names it.

  \<^bold>\<open>Loops.\<close>  Loops over a buffer are recursive functions with a termination proof, so no
  fuel occurs in them.  The thread of a service is modelled one turn at a time, and its runs are the
  inductive closure of the step relation.

  \<^bold>\<open>Not modelled\<close>: the other derived services and their protocol builders and adapters (large tables
  of message layouts over the same base class), the toolkit module that acts on SIM commands, the
  binder front end \<^verbatim>\<open>libril\<close>, log output, the databases, and everything outside the
  RIL (camera, neural network, NFC, secure element and Wi-Fi code of the repository), which shares
  no state with it.
\<close>

end
